(* ===== verification/Nice_Prelude.thy ===== *)
theory Nice_Prelude
  imports Main "HOL-Library.Word" "HOL-Library.Monad_Syntax" "HOL-Library.Code_Target_Nat"
begin

unbundle bit_operations_syntax

text \<open>
  Shared vocabulary of the development.

  \<^item> Machine integers are words of their C width; a \<open>size_t\<close> that measures an object in
    memory is a \<open>nat\<close> (object sizes stay far below \<open>2 ^ 64\<close>).
  \<^item> A C object of bytes is a list of bytes, and a pointer into it is an offset.
    Reading or writing outside the object, reading a variable that was never assigned and
    failing an \<open>assert\<close> have no defined result: such a call has the value \<open>None\<close> of the
    option type (a \<^emph>\<open>fault\<close>), every other call the value \<open>Some r\<close>.  The operations below
    are chained with the option monad.
  \<^item> A pointer that may be \<open>NULL\<close> is a value of type \<open>'a ptr\<close>.
  \<^item> Multi-byte integers cross the memory boundary in network byte order through
    \<open>be_enc\<close> and \<open>be_dec\<close>; this is what \<open>htons\<close>, \<open>htonl\<close>, \<open>ntohs\<close> and \<open>ntohl\<close> together
    with \<open>memcpy\<close> do on either host byte order.
\<close>

type_synonym u8 = "8 word"
type_synonym u16 = "16 word"
type_synonym u32 = "32 word"
type_synonym u64 = "64 word"
type_synonym bytes = "u8 list"

datatype 'a ptr = Null | Ptr (deref: 'a)

text \<open>Offsets stay sums with numerals.\<close>

declare add_2_eq_Suc [simp del] add_2_eq_Suc' [simp del]

named_theorems mem_simps \<open>facts that resolve reads and writes of byte objects\<close>
named_theorems wire_simps \<open>facts on the lengths and round trips of encoded integers\<close>

text \<open>The operators \<^verbatim>\<open>&&\<close>, \<^verbatim>\<open>||\<close> and \<^verbatim>\<open>!\<close> of C on computations: the right operand runs only where the left one
  does not decide.\<close>

definition sc_and :: "bool option \<Rightarrow> bool option \<Rightarrow> bool option" where
  "sc_and a b = do { x \<leftarrow> a; if x then b else Some False }"

definition sc_or :: "bool option \<Rightarrow> bool option \<Rightarrow> bool option" where
  "sc_or a b = do { x \<leftarrow> a; if x then Some True else b }"

definition sc_not :: "bool option \<Rightarrow> bool option" where
  "sc_not a = map_option Not a"

lemma sc_simps [simp]:
  "sc_and (Some False) b = Some False" "sc_and (Some True) b = b"
  "sc_or (Some True) b = Some True" "sc_or (Some False) b = b" "sc_not (Some x) = Some (\<not> x)"
  by (simp_all add: sc_and_def sc_or_def sc_not_def)

lemma sc_Some [simp]:
  "sc_and (Some x) (Some y) = Some (x \<and> y)" "sc_or (Some x) (Some y) = Some (x \<or> y)"
  by (simp_all add: sc_and_def sc_or_def)

section \<open>Words\<close>

lemma unat_u8 [simp]: "unat (x :: u8) < 256"
  using unsigned_less [of x, where 'a = nat] by simp

lemma unat_u16 [simp]: "unat (x :: u16) < 65536"
  using unsigned_less [of x, where 'a = nat] by simp

lemma unat_u32_less: "unat (x :: u32) < 4294967296"
  using unsigned_less [of x, where 'a = nat] by simp

lemma unat_of_nat_u32: "n < 4294967296 \<Longrightarrow> unat (of_nat n :: u32) = n"
  by (simp add: unsigned_of_nat take_bit_nat_eq_self)

lemma unat_u8_u16 [simp]: "unat (ucast (x :: u8) :: u16) = unat x"
  by (simp add: unsigned_ucast_eq take_bit_nat_eq_self less_trans [OF unat_u8])

lemma mask_255: "(255 :: 'a::len word) = mask 8"
  by (simp add: mask_eq_exp_minus_1)

section \<open>Byte objects\<close>

definition rd8 :: "bytes \<Rightarrow> nat \<Rightarrow> u8 option" where
  "rd8 b i = (if i < length b then Some (b ! i) else None)"

definition rd_bytes :: "bytes \<Rightarrow> nat \<Rightarrow> nat \<Rightarrow> bytes option" where
  "rd_bytes b off n = (if off + n \<le> length b then Some (take n (drop off b)) else None)"

definition wr_bytes :: "bytes \<Rightarrow> nat \<Rightarrow> bytes \<Rightarrow> bytes option" where
  "wr_bytes b off xs =
     (if off + length xs \<le> length b then Some (take off b @ xs @ drop (off + length xs) b) else None)"

definition memset :: "bytes \<Rightarrow> nat \<Rightarrow> u8 \<Rightarrow> nat \<Rightarrow> bytes option" where
  "memset b off v n = wr_bytes b off (replicate n v)"

text \<open>An element of an array, and the length of a zero-terminated string.\<close>

definition nth_opt :: "'a list \<Rightarrow> nat \<Rightarrow> 'a option" where
  "nth_opt xs i = (if i < length xs then Some (xs ! i) else None)"

definition strlen :: "bytes \<Rightarrow> nat option" where
  "strlen s = (if 0 \<in> set s then Some (length (takeWhile (\<lambda>c. c \<noteq> 0) s)) else None)"

definition ascii :: "string \<Rightarrow> bytes" where
  "ascii s = map of_char s"

lemma length_ascii [simp]: "length (ascii s) = length s"
  by (simp add: ascii_def)

lemma rd8_Some [mem_simps]: "i < length b \<Longrightarrow> rd8 b i = Some (b ! i)"
  by (simp add: rd8_def)

lemma rd8_None [mem_simps]: "\<not> i < length b \<Longrightarrow> rd8 b i = None"
  by (simp add: rd8_def)

lemma rd_bytes_Some [mem_simps]:
  "off + n \<le> length b \<Longrightarrow> rd_bytes b off n = Some (take n (drop off b))"
  by (simp add: rd_bytes_def)

lemma wr_bytes_Some [mem_simps]:
  "off + length xs \<le> length b \<Longrightarrow>
     wr_bytes b off xs = Some (take off b @ xs @ drop (off + length xs) b)"
  by (simp add: wr_bytes_def)

lemma wr_bytes_None [mem_simps]: "\<not> off + length xs \<le> length b \<Longrightarrow> wr_bytes b off xs = None"
  by (simp add: wr_bytes_def)

lemma wr_bytes_length: "wr_bytes b off xs = Some b' \<Longrightarrow> length b' = length b"
  by (auto simp: wr_bytes_def split: if_splits)

lemma wr_bytes_eq_Some:
  "wr_bytes b off xs = Some b' \<longleftrightarrow>
     off + length xs \<le> length b \<and> b' = take off b @ xs @ drop (off + length xs) b"
  by (auto simp: wr_bytes_def)

text \<open>What a write leaves alone: everything before it, everything after it.\<close>

lemma wr_bytes_take:
  "wr_bytes b off xs = Some b' \<Longrightarrow> n \<le> off \<Longrightarrow> take n b' = take n b"
  by (auto simp: wr_bytes_def min_absorb1 split: if_splits)

lemma wr_bytes_drop:
  assumes "wr_bytes b off xs = Some b'" and "off + length xs \<le> n"
  shows "drop n b' = drop n b"
proof -
  from assms(1) have b': "b' = take off b @ xs @ drop (off + length xs) b"
    and len: "off + length xs \<le> length b"
    by (auto simp: wr_bytes_eq_Some)
  have "n - off - length xs + (off + length xs) = n" using assms(2) by simp
  then show ?thesis using assms(2) len by (simp add: b')
qed

lemma wr_bytes_read:
  "wr_bytes b off xs = Some b' \<Longrightarrow> take (length xs) (drop off b') = xs"
  by (auto simp: wr_bytes_eq_Some)

section \<open>Integers in network byte order\<close>

definition be_enc :: "nat \<Rightarrow> 'a::len word \<Rightarrow> bytes" where
  "be_enc n w = map (\<lambda>i. ucast (drop_bit (8 * i) w)) (rev [0..<n])"

definition be_dec :: "bytes \<Rightarrow> 'a::len word" where
  "be_dec bs = foldl (\<lambda>acc b. push_bit 8 acc OR ucast b) 0 bs"

lemma length_be_enc [simp, wire_simps]: "length (be_enc n w) = n"
  by (simp add: be_enc_def)

lemma be_dec_snoc: "be_dec (bs @ [b]) = push_bit 8 (be_dec bs) OR ucast b"
  by (simp add: be_dec_def)

lemma be_enc_nth: "i < n \<Longrightarrow> be_enc n w ! i = ucast (drop_bit (8 * (n - 1 - i)) w)"
  by (simp add: be_enc_def rev_nth)

lemma bit_be_dec:
  "bit (be_dec bs :: 'a::len word) i \<longleftrightarrow>
     i < LENGTH('a) \<and> i < 8 * length bs \<and> bit (bs ! (length bs - 1 - i div 8)) (i mod 8)"
proof (induction bs arbitrary: i rule: rev_induct)
  case Nil
  then show ?case by (simp add: be_dec_def)
next
  case (snoc b bs)
  show ?case
  proof (cases "i < 8")
    case True
    then show ?thesis
      by (auto simp: be_dec_snoc bit_simps)
  next
    case False
    then have d: "i div 8 = Suc ((i - 8) div 8)" and m: "i mod 8 = (i - 8) mod 8"
      by (auto simp: le_div_geq le_mod_geq)
    have nb: "\<not> bit b i" using False by (auto dest: bit_imp_le_length)
    have len: "i - 8 < 8 * length bs \<longleftrightarrow> i < 8 * length (bs @ [b])"
      using False by auto
    have nth: "i < 8 * length (bs @ [b]) \<Longrightarrow>
        (bs @ [b]) ! (length (bs @ [b]) - 1 - i div 8) = bs ! (length bs - 1 - (i - 8) div 8)"
      using False by (auto simp: nth_append d)
    show ?thesis
      using False nb len nth m snoc.IH [of "i - 8"]
      by (auto simp: be_dec_snoc bit_simps)
  qed
qed

lemma be_dec_enc [simp, wire_simps]:
  assumes "LENGTH('a::len) \<le> 8 * n"
  shows "be_dec (be_enc n (w :: 'a word)) = w"
proof (rule bit_word_eqI)
  fix i assume i: "i < LENGTH('a)"
  then have "i < 8 * n" using assms by simp
  then have "i div 8 < n" by auto
  then have "n - 1 - (n - 1 - i div 8) = i div 8" by simp
  with i \<open>i < 8 * n\<close> \<open>i div 8 < n\<close>
  show "bit (be_dec (be_enc n w) :: 'a word) i = bit w i"
    by (simp add: bit_be_dec be_enc_nth bit_simps)
qed

lemma be_enc_dec [wire_simps]:
  assumes "length bs = n" and "8 * n \<le> LENGTH('a::len)"
  shows "be_enc n (be_dec bs :: 'a word) = bs"
proof (rule nth_equalityI)
  show "length (be_enc n (be_dec bs :: 'a word)) = length bs" using assms by simp
next
  fix i assume "i < length (be_enc n (be_dec bs :: 'a word))"
  then have i: "i < n" by simp
  show "be_enc n (be_dec bs :: 'a word) ! i = bs ! i"
  proof (rule bit_word_eqI)
    fix j assume j: "j < LENGTH(8)"
    then have "8 * (n - 1 - i) + j < 8 * n" using i by simp
    moreover have "(8 * (n - 1 - i) + j) div 8 = n - 1 - i" using j by simp
    moreover have "(8 * (n - 1 - i) + j) mod 8 = j" using j by simp
    ultimately show "bit (be_enc n (be_dec bs :: 'a word) ! i) j = bit (bs ! i) j"
      using i j assms by (simp add: be_enc_nth bit_simps bit_be_dec)
  qed
qed

end
