(* ===== verification/Stun_Types.thy ===== *)
theory Stun_Types
  imports Nice_Prelude
begin

text \<open>
  The data of the STUN library: the constants of \<^verbatim>\<open>stun/constants.h\<close>, the enumerations and the
  message structure of \<^verbatim>\<open>stun/stunmessage.h\<close>, the agent structure of \<^verbatim>\<open>stun/stunagent.h\<close> and
  the socket addresses the library reads and writes.

  An enumeration whose C values coincide for several names (for example \<open>STUN_REFRESH\<close> and
  \<open>STUN_SEND\<close>) keeps one constructor per name together with a function to its code, since the
  program compares codes.  The agent a message points to is only ever read through that
  pointer for its compatibility mode, its usage flags and its known attributes, which no operation changes after
  \<open>stun_agent_init\<close>; this part of the agent is the record \<open>StunAgentCfg\<close>, and the agent itself
  extends it with the state that operations do change.
\<close>

section \<open>Constants\<close>

definition STUN_MESSAGE_TYPE_POS :: nat where "STUN_MESSAGE_TYPE_POS = 0"
definition STUN_MESSAGE_TYPE_LEN :: nat where "STUN_MESSAGE_TYPE_LEN = 2"
definition STUN_MESSAGE_LENGTH_POS :: nat where
  "STUN_MESSAGE_LENGTH_POS = STUN_MESSAGE_TYPE_POS + STUN_MESSAGE_TYPE_LEN"
definition STUN_MESSAGE_LENGTH_LEN :: nat where "STUN_MESSAGE_LENGTH_LEN = 2"
definition STUN_MESSAGE_TRANS_ID_POS :: nat where
  "STUN_MESSAGE_TRANS_ID_POS = STUN_MESSAGE_LENGTH_POS + STUN_MESSAGE_LENGTH_LEN"
definition STUN_MESSAGE_TRANS_ID_LEN :: nat where "STUN_MESSAGE_TRANS_ID_LEN = 16"
definition STUN_MESSAGE_ATTRIBUTES_POS :: nat where
  "STUN_MESSAGE_ATTRIBUTES_POS = STUN_MESSAGE_TRANS_ID_POS + STUN_MESSAGE_TRANS_ID_LEN"
definition STUN_MESSAGE_HEADER_LENGTH :: nat where
  "STUN_MESSAGE_HEADER_LENGTH = STUN_MESSAGE_ATTRIBUTES_POS"
definition STUN_ATTRIBUTE_TYPE_POS :: nat where "STUN_ATTRIBUTE_TYPE_POS = 0"
definition STUN_ATTRIBUTE_TYPE_LEN :: nat where "STUN_ATTRIBUTE_TYPE_LEN = 2"
definition STUN_ATTRIBUTE_LENGTH_POS :: nat where
  "STUN_ATTRIBUTE_LENGTH_POS = STUN_ATTRIBUTE_TYPE_POS + STUN_ATTRIBUTE_TYPE_LEN"
definition STUN_ATTRIBUTE_LENGTH_LEN :: nat where "STUN_ATTRIBUTE_LENGTH_LEN = 2"
definition STUN_ATTRIBUTE_VALUE_POS :: nat where
  "STUN_ATTRIBUTE_VALUE_POS = STUN_ATTRIBUTE_LENGTH_POS + STUN_ATTRIBUTE_LENGTH_LEN"
definition STUN_ATTRIBUTE_HEADER_LENGTH :: nat where
  "STUN_ATTRIBUTE_HEADER_LENGTH = STUN_ATTRIBUTE_VALUE_POS"
definition STUN_AGENT_MAX_SAVED_IDS :: nat where "STUN_AGENT_MAX_SAVED_IDS = 200"
definition STUN_AGENT_MAX_UNKNOWN_ATTRIBUTES :: nat where "STUN_AGENT_MAX_UNKNOWN_ATTRIBUTES = 256"
definition STUN_MAGIC_COOKIE :: u32 where "STUN_MAGIC_COOKIE = 0x2112A442"
definition TURN_MAGIC_COOKIE :: u32 where "TURN_MAGIC_COOKIE = 0x72c64bc6"

lemma stun_pos_defs:
  "STUN_MESSAGE_TYPE_POS = 0" "STUN_MESSAGE_TYPE_LEN = 2" "STUN_MESSAGE_LENGTH_POS = 2"
  "STUN_MESSAGE_LENGTH_LEN = 2" "STUN_MESSAGE_TRANS_ID_POS = 4" "STUN_MESSAGE_TRANS_ID_LEN = 16"
  "STUN_MESSAGE_ATTRIBUTES_POS = 20" "STUN_MESSAGE_HEADER_LENGTH = 20"
  "STUN_ATTRIBUTE_TYPE_POS = 0" "STUN_ATTRIBUTE_TYPE_LEN = 2" "STUN_ATTRIBUTE_LENGTH_POS = 2"
  "STUN_ATTRIBUTE_LENGTH_LEN = 2" "STUN_ATTRIBUTE_VALUE_POS = 4" "STUN_ATTRIBUTE_HEADER_LENGTH = 4"
  by (simp_all add: STUN_MESSAGE_TYPE_POS_def STUN_MESSAGE_TYPE_LEN_def STUN_MESSAGE_LENGTH_POS_def
      STUN_MESSAGE_LENGTH_LEN_def STUN_MESSAGE_TRANS_ID_POS_def STUN_MESSAGE_TRANS_ID_LEN_def
      STUN_MESSAGE_ATTRIBUTES_POS_def STUN_MESSAGE_HEADER_LENGTH_def STUN_ATTRIBUTE_TYPE_POS_def
      STUN_ATTRIBUTE_TYPE_LEN_def STUN_ATTRIBUTE_LENGTH_POS_def STUN_ATTRIBUTE_LENGTH_LEN_def
      STUN_ATTRIBUTE_VALUE_POS_def STUN_ATTRIBUTE_HEADER_LENGTH_def)

text \<open>Results of \<open>stun_message_validate_buffer_length\<close> that are not lengths.\<close>

definition STUN_MESSAGE_BUFFER_INCOMPLETE :: int where "STUN_MESSAGE_BUFFER_INCOMPLETE = 0"
definition STUN_MESSAGE_BUFFER_INVALID :: int where "STUN_MESSAGE_BUFFER_INVALID = -1"

section \<open>Classes, methods, attributes and error codes\<close>

datatype StunClass = STUN_REQUEST | STUN_INDICATION | STUN_RESPONSE | STUN_ERROR

primrec stun_class_code :: "StunClass \<Rightarrow> u16" where
    "stun_class_code STUN_REQUEST = 0"
  | "stun_class_code STUN_INDICATION = 1"
  | "stun_class_code STUN_RESPONSE = 2"
  | "stun_class_code STUN_ERROR = 3"

datatype StunMethod =
    STUN_BINDING
  | STUN_SHARED_SECRET
  | STUN_ALLOCATE
  | STUN_SET_ACTIVE_DST
  | STUN_REFRESH
  | STUN_SEND
  | STUN_CONNECT
  | STUN_OLD_SET_ACTIVE_DST
  | STUN_IND_SEND
  | STUN_IND_DATA
  | STUN_IND_CONNECT_STATUS
  | STUN_CREATEPERMISSION
  | STUN_CHANNELBIND

primrec stun_method_code :: "StunMethod \<Rightarrow> u16" where
    "stun_method_code STUN_BINDING = 0x001"
  | "stun_method_code STUN_SHARED_SECRET = 0x002"
  | "stun_method_code STUN_ALLOCATE = 0x003"
  | "stun_method_code STUN_SET_ACTIVE_DST = 0x004"
  | "stun_method_code STUN_REFRESH = 0x004"
  | "stun_method_code STUN_SEND = 0x004"
  | "stun_method_code STUN_CONNECT = 0x005"
  | "stun_method_code STUN_OLD_SET_ACTIVE_DST = 0x006"
  | "stun_method_code STUN_IND_SEND = 0x006"
  | "stun_method_code STUN_IND_DATA = 0x007"
  | "stun_method_code STUN_IND_CONNECT_STATUS = 0x008"
  | "stun_method_code STUN_CREATEPERMISSION = 0x008"
  | "stun_method_code STUN_CHANNELBIND = 0x009"

datatype (plugins only: code) StunAttribute =
    STUN_ATTRIBUTE_MAPPED_ADDRESS
  | STUN_ATTRIBUTE_RESPONSE_ADDRESS
  | STUN_ATTRIBUTE_CHANGE_REQUEST
  | STUN_ATTRIBUTE_SOURCE_ADDRESS
  | STUN_ATTRIBUTE_CHANGED_ADDRESS
  | STUN_ATTRIBUTE_USERNAME
  | STUN_ATTRIBUTE_PASSWORD
  | STUN_ATTRIBUTE_MESSAGE_INTEGRITY
  | STUN_ATTRIBUTE_ERROR_CODE
  | STUN_ATTRIBUTE_UNKNOWN_ATTRIBUTES
  | STUN_ATTRIBUTE_REFLECTED_FROM
  | STUN_ATTRIBUTE_CHANNEL_NUMBER
  | STUN_ATTRIBUTE_LIFETIME
  | STUN_ATTRIBUTE_MS_ALTERNATE_SERVER
  | STUN_ATTRIBUTE_MAGIC_COOKIE
  | STUN_ATTRIBUTE_BANDWIDTH
  | STUN_ATTRIBUTE_DESTINATION_ADDRESS
  | STUN_ATTRIBUTE_REMOTE_ADDRESS
  | STUN_ATTRIBUTE_PEER_ADDRESS
  | STUN_ATTRIBUTE_XOR_PEER_ADDRESS
  | STUN_ATTRIBUTE_DATA
  | STUN_ATTRIBUTE_REALM
  | STUN_ATTRIBUTE_NONCE
  | STUN_ATTRIBUTE_RELAY_ADDRESS
  | STUN_ATTRIBUTE_RELAYED_ADDRESS
  | STUN_ATTRIBUTE_XOR_RELAYED_ADDRESS
  | STUN_ATTRIBUTE_REQUESTED_ADDRESS_TYPE
  | STUN_ATTRIBUTE_REQUESTED_PORT_PROPS
  | STUN_ATTRIBUTE_REQUESTED_PROPS
  | STUN_ATTRIBUTE_EVEN_PORT
  | STUN_ATTRIBUTE_REQUESTED_TRANSPORT
  | STUN_ATTRIBUTE_DONT_FRAGMENT
  | STUN_ATTRIBUTE_XOR_MAPPED_ADDRESS
  | STUN_ATTRIBUTE_TIMER_VAL
  | STUN_ATTRIBUTE_REQUESTED_IP
  | STUN_ATTRIBUTE_RESERVATION_TOKEN
  | STUN_ATTRIBUTE_CONNECT_STAT
  | STUN_ATTRIBUTE_PRIORITY
  | STUN_ATTRIBUTE_USE_CANDIDATE
  | STUN_ATTRIBUTE_OPTIONS
  | STUN_ATTRIBUTE_MS_VERSION
  | STUN_ATTRIBUTE_MS_XOR_MAPPED_ADDRESS
  | STUN_ATTRIBUTE_SOFTWARE
  | STUN_ATTRIBUTE_ALTERNATE_SERVER
  | STUN_ATTRIBUTE_FINGERPRINT
  | STUN_ATTRIBUTE_ICE_CONTROLLED
  | STUN_ATTRIBUTE_ICE_CONTROLLING
  | STUN_ATTRIBUTE_MS_SEQUENCE_NUMBER
  | STUN_ATTRIBUTE_CANDIDATE_IDENTIFIER
  | STUN_ATTRIBUTE_MS_IMPLEMENTATION_VERSION
  | STUN_ATTRIBUTE_NOMINATION

primrec stun_attribute_code :: "StunAttribute \<Rightarrow> u16" where
    "stun_attribute_code STUN_ATTRIBUTE_MAPPED_ADDRESS = 0x0001"
  | "stun_attribute_code STUN_ATTRIBUTE_RESPONSE_ADDRESS = 0x0002"
  | "stun_attribute_code STUN_ATTRIBUTE_CHANGE_REQUEST = 0x0003"
  | "stun_attribute_code STUN_ATTRIBUTE_SOURCE_ADDRESS = 0x0004"
  | "stun_attribute_code STUN_ATTRIBUTE_CHANGED_ADDRESS = 0x0005"
  | "stun_attribute_code STUN_ATTRIBUTE_USERNAME = 0x0006"
  | "stun_attribute_code STUN_ATTRIBUTE_PASSWORD = 0x0007"
  | "stun_attribute_code STUN_ATTRIBUTE_MESSAGE_INTEGRITY = 0x0008"
  | "stun_attribute_code STUN_ATTRIBUTE_ERROR_CODE = 0x0009"
  | "stun_attribute_code STUN_ATTRIBUTE_UNKNOWN_ATTRIBUTES = 0x000A"
  | "stun_attribute_code STUN_ATTRIBUTE_REFLECTED_FROM = 0x000B"
  | "stun_attribute_code STUN_ATTRIBUTE_CHANNEL_NUMBER = 0x000C"
  | "stun_attribute_code STUN_ATTRIBUTE_LIFETIME = 0x000D"
  | "stun_attribute_code STUN_ATTRIBUTE_MS_ALTERNATE_SERVER = 0x000E"
  | "stun_attribute_code STUN_ATTRIBUTE_MAGIC_COOKIE = 0x000F"
  | "stun_attribute_code STUN_ATTRIBUTE_BANDWIDTH = 0x0010"
  | "stun_attribute_code STUN_ATTRIBUTE_DESTINATION_ADDRESS = 0x0011"
  | "stun_attribute_code STUN_ATTRIBUTE_REMOTE_ADDRESS = 0x0012"
  | "stun_attribute_code STUN_ATTRIBUTE_PEER_ADDRESS = 0x0012"
  | "stun_attribute_code STUN_ATTRIBUTE_XOR_PEER_ADDRESS = 0x0012"
  | "stun_attribute_code STUN_ATTRIBUTE_DATA = 0x0013"
  | "stun_attribute_code STUN_ATTRIBUTE_REALM = 0x0014"
  | "stun_attribute_code STUN_ATTRIBUTE_NONCE = 0x0015"
  | "stun_attribute_code STUN_ATTRIBUTE_RELAY_ADDRESS = 0x0016"
  | "stun_attribute_code STUN_ATTRIBUTE_RELAYED_ADDRESS = 0x0016"
  | "stun_attribute_code STUN_ATTRIBUTE_XOR_RELAYED_ADDRESS = 0x0016"
  | "stun_attribute_code STUN_ATTRIBUTE_REQUESTED_ADDRESS_TYPE = 0x0017"
  | "stun_attribute_code STUN_ATTRIBUTE_REQUESTED_PORT_PROPS = 0x0018"
  | "stun_attribute_code STUN_ATTRIBUTE_REQUESTED_PROPS = 0x0018"
  | "stun_attribute_code STUN_ATTRIBUTE_EVEN_PORT = 0x0018"
  | "stun_attribute_code STUN_ATTRIBUTE_REQUESTED_TRANSPORT = 0x0019"
  | "stun_attribute_code STUN_ATTRIBUTE_DONT_FRAGMENT = 0x001A"
  | "stun_attribute_code STUN_ATTRIBUTE_XOR_MAPPED_ADDRESS = 0x0020"
  | "stun_attribute_code STUN_ATTRIBUTE_TIMER_VAL = 0x0021"
  | "stun_attribute_code STUN_ATTRIBUTE_REQUESTED_IP = 0x0022"
  | "stun_attribute_code STUN_ATTRIBUTE_RESERVATION_TOKEN = 0x0022"
  | "stun_attribute_code STUN_ATTRIBUTE_CONNECT_STAT = 0x0023"
  | "stun_attribute_code STUN_ATTRIBUTE_PRIORITY = 0x0024"
  | "stun_attribute_code STUN_ATTRIBUTE_USE_CANDIDATE = 0x0025"
  | "stun_attribute_code STUN_ATTRIBUTE_OPTIONS = 0x8001"
  | "stun_attribute_code STUN_ATTRIBUTE_MS_VERSION = 0x8008"
  | "stun_attribute_code STUN_ATTRIBUTE_MS_XOR_MAPPED_ADDRESS = 0x8020"
  | "stun_attribute_code STUN_ATTRIBUTE_SOFTWARE = 0x8022"
  | "stun_attribute_code STUN_ATTRIBUTE_ALTERNATE_SERVER = 0x8023"
  | "stun_attribute_code STUN_ATTRIBUTE_FINGERPRINT = 0x8028"
  | "stun_attribute_code STUN_ATTRIBUTE_ICE_CONTROLLED = 0x8029"
  | "stun_attribute_code STUN_ATTRIBUTE_ICE_CONTROLLING = 0x802A"
  | "stun_attribute_code STUN_ATTRIBUTE_MS_SEQUENCE_NUMBER = 0x8050"
  | "stun_attribute_code STUN_ATTRIBUTE_CANDIDATE_IDENTIFIER = 0x8054"
  | "stun_attribute_code STUN_ATTRIBUTE_MS_IMPLEMENTATION_VERSION = 0x8070"
  | "stun_attribute_code STUN_ATTRIBUTE_NOMINATION = 0xC001"

datatype StunError =
    STUN_ERROR_TRY_ALTERNATE
  | STUN_ERROR_BAD_REQUEST
  | STUN_ERROR_UNAUTHORIZED
  | STUN_ERROR_FORBIDDEN
  | STUN_ERROR_UNKNOWN_ATTRIBUTE
  | STUN_ERROR_ALLOCATION_MISMATCH
  | STUN_ERROR_STALE_NONCE
  | STUN_ERROR_ACT_DST_ALREADY
  | STUN_ERROR_UNSUPPORTED_FAMILY
  | STUN_ERROR_WRONG_CREDENTIALS
  | STUN_ERROR_UNSUPPORTED_TRANSPORT
  | STUN_ERROR_INVALID_IP
  | STUN_ERROR_INVALID_PORT
  | STUN_ERROR_OP_TCP_ONLY
  | STUN_ERROR_CONN_ALREADY
  | STUN_ERROR_ALLOCATION_QUOTA_REACHED
  | STUN_ERROR_ROLE_CONFLICT
  | STUN_ERROR_SERVER_ERROR
  | STUN_ERROR_SERVER_CAPACITY
  | STUN_ERROR_INSUFFICIENT_CAPACITY
  | STUN_ERROR_MAX

primrec stun_error_code :: "StunError \<Rightarrow> nat" where
    "stun_error_code STUN_ERROR_TRY_ALTERNATE = 300"
  | "stun_error_code STUN_ERROR_BAD_REQUEST = 400"
  | "stun_error_code STUN_ERROR_UNAUTHORIZED = 401"
  | "stun_error_code STUN_ERROR_FORBIDDEN = 403"
  | "stun_error_code STUN_ERROR_UNKNOWN_ATTRIBUTE = 420"
  | "stun_error_code STUN_ERROR_ALLOCATION_MISMATCH = 437"
  | "stun_error_code STUN_ERROR_STALE_NONCE = 438"
  | "stun_error_code STUN_ERROR_ACT_DST_ALREADY = 439"
  | "stun_error_code STUN_ERROR_UNSUPPORTED_FAMILY = 440"
  | "stun_error_code STUN_ERROR_WRONG_CREDENTIALS = 441"
  | "stun_error_code STUN_ERROR_UNSUPPORTED_TRANSPORT = 442"
  | "stun_error_code STUN_ERROR_INVALID_IP = 443"
  | "stun_error_code STUN_ERROR_INVALID_PORT = 444"
  | "stun_error_code STUN_ERROR_OP_TCP_ONLY = 445"
  | "stun_error_code STUN_ERROR_CONN_ALREADY = 446"
  | "stun_error_code STUN_ERROR_ALLOCATION_QUOTA_REACHED = 486"
  | "stun_error_code STUN_ERROR_ROLE_CONFLICT = 487"
  | "stun_error_code STUN_ERROR_SERVER_ERROR = 500"
  | "stun_error_code STUN_ERROR_SERVER_CAPACITY = 507"
  | "stun_error_code STUN_ERROR_INSUFFICIENT_CAPACITY = 508"
  | "stun_error_code STUN_ERROR_MAX = 699"

text \<open>The arrays of known mandatory attributes, with the terminating zero of the C arrays.\<close>

definition STUN_ALL_KNOWN_ATTRIBUTES :: "u16 list" where
  "STUN_ALL_KNOWN_ATTRIBUTES = map stun_attribute_code
    [STUN_ATTRIBUTE_MAPPED_ADDRESS,
     STUN_ATTRIBUTE_RESPONSE_ADDRESS,
     STUN_ATTRIBUTE_CHANGE_REQUEST,
     STUN_ATTRIBUTE_SOURCE_ADDRESS,
     STUN_ATTRIBUTE_CHANGED_ADDRESS,
     STUN_ATTRIBUTE_USERNAME,
     STUN_ATTRIBUTE_PASSWORD,
     STUN_ATTRIBUTE_MESSAGE_INTEGRITY,
     STUN_ATTRIBUTE_ERROR_CODE,
     STUN_ATTRIBUTE_UNKNOWN_ATTRIBUTES,
     STUN_ATTRIBUTE_REFLECTED_FROM,
     STUN_ATTRIBUTE_CHANNEL_NUMBER,
     STUN_ATTRIBUTE_LIFETIME,
     STUN_ATTRIBUTE_MAGIC_COOKIE,
     STUN_ATTRIBUTE_BANDWIDTH,
     STUN_ATTRIBUTE_DESTINATION_ADDRESS,
     STUN_ATTRIBUTE_REMOTE_ADDRESS,
     STUN_ATTRIBUTE_PEER_ADDRESS,
     STUN_ATTRIBUTE_XOR_PEER_ADDRESS,
     STUN_ATTRIBUTE_DATA,
     STUN_ATTRIBUTE_REALM,
     STUN_ATTRIBUTE_NONCE,
     STUN_ATTRIBUTE_RELAY_ADDRESS,
     STUN_ATTRIBUTE_RELAYED_ADDRESS,
     STUN_ATTRIBUTE_XOR_RELAYED_ADDRESS,
     STUN_ATTRIBUTE_REQUESTED_ADDRESS_TYPE,
     STUN_ATTRIBUTE_REQUESTED_PORT_PROPS,
     STUN_ATTRIBUTE_REQUESTED_PROPS,
     STUN_ATTRIBUTE_EVEN_PORT,
     STUN_ATTRIBUTE_REQUESTED_TRANSPORT,
     STUN_ATTRIBUTE_DONT_FRAGMENT,
     STUN_ATTRIBUTE_XOR_MAPPED_ADDRESS,
     STUN_ATTRIBUTE_TIMER_VAL,
     STUN_ATTRIBUTE_REQUESTED_IP,
     STUN_ATTRIBUTE_RESERVATION_TOKEN,
     STUN_ATTRIBUTE_CONNECT_STAT,
     STUN_ATTRIBUTE_PRIORITY,
     STUN_ATTRIBUTE_USE_CANDIDATE] @ [0]"

definition STUN_MSOC_KNOWN_ATTRIBUTES :: "u16 list" where
  "STUN_MSOC_KNOWN_ATTRIBUTES = map stun_attribute_code
    [STUN_ATTRIBUTE_MAPPED_ADDRESS,
     STUN_ATTRIBUTE_USERNAME,
     STUN_ATTRIBUTE_MESSAGE_INTEGRITY,
     STUN_ATTRIBUTE_ERROR_CODE,
     STUN_ATTRIBUTE_UNKNOWN_ATTRIBUTES,
     STUN_ATTRIBUTE_LIFETIME,
     STUN_ATTRIBUTE_MS_ALTERNATE_SERVER,
     STUN_ATTRIBUTE_MAGIC_COOKIE,
     STUN_ATTRIBUTE_BANDWIDTH,
     STUN_ATTRIBUTE_DESTINATION_ADDRESS,
     STUN_ATTRIBUTE_REMOTE_ADDRESS,
     STUN_ATTRIBUTE_DATA,
     STUN_ATTRIBUTE_NONCE,
     STUN_ATTRIBUTE_REALM] @ [0]"

datatype StunMessageReturn =
    STUN_MESSAGE_RETURN_SUCCESS
  | STUN_MESSAGE_RETURN_NOT_FOUND
  | STUN_MESSAGE_RETURN_INVALID
  | STUN_MESSAGE_RETURN_NOT_ENOUGH_SPACE
  | STUN_MESSAGE_RETURN_UNSUPPORTED_ADDRESS

section \<open>Agents and messages\<close>

datatype StunCompatibility =
    STUN_COMPATIBILITY_RFC3489
  | STUN_COMPATIBILITY_RFC5389
  | STUN_COMPATIBILITY_MSICE2
  | STUN_COMPATIBILITY_OC2007

datatype StunValidationStatus =
    STUN_VALIDATION_SUCCESS
  | STUN_VALIDATION_NOT_STUN
  | STUN_VALIDATION_INCOMPLETE_STUN
  | STUN_VALIDATION_BAD_REQUEST
  | STUN_VALIDATION_UNAUTHORIZED_BAD_REQUEST
  | STUN_VALIDATION_UNAUTHORIZED
  | STUN_VALIDATION_UNMATCHED_RESPONSE
  | STUN_VALIDATION_UNKNOWN_REQUEST_ATTRIBUTE
  | STUN_VALIDATION_UNKNOWN_ATTRIBUTE
  | STUN_VALIDATION_FORBIDDEN

datatype StunAgentUsageFlags =
    STUN_AGENT_USAGE_SHORT_TERM_CREDENTIALS
  | STUN_AGENT_USAGE_LONG_TERM_CREDENTIALS
  | STUN_AGENT_USAGE_USE_FINGERPRINT
  | STUN_AGENT_USAGE_ADD_SOFTWARE
  | STUN_AGENT_USAGE_IGNORE_CREDENTIALS
  | STUN_AGENT_USAGE_NO_INDICATION_AUTH
  | STUN_AGENT_USAGE_FORCE_VALIDATER
  | STUN_AGENT_USAGE_NO_ALIGNED_ATTRIBUTES
  | STUN_AGENT_USAGE_CONSENT_FRESHNESS

primrec usage_flag_bit :: "StunAgentUsageFlags \<Rightarrow> u32" where
    "usage_flag_bit STUN_AGENT_USAGE_SHORT_TERM_CREDENTIALS = push_bit 0 1"
  | "usage_flag_bit STUN_AGENT_USAGE_LONG_TERM_CREDENTIALS = push_bit 1 1"
  | "usage_flag_bit STUN_AGENT_USAGE_USE_FINGERPRINT = push_bit 2 1"
  | "usage_flag_bit STUN_AGENT_USAGE_ADD_SOFTWARE = push_bit 3 1"
  | "usage_flag_bit STUN_AGENT_USAGE_IGNORE_CREDENTIALS = push_bit 4 1"
  | "usage_flag_bit STUN_AGENT_USAGE_NO_INDICATION_AUTH = push_bit 5 1"
  | "usage_flag_bit STUN_AGENT_USAGE_FORCE_VALIDATER = push_bit 6 1"
  | "usage_flag_bit STUN_AGENT_USAGE_NO_ALIGNED_ATTRIBUTES = push_bit 7 1"
  | "usage_flag_bit STUN_AGENT_USAGE_CONSENT_FRESHNESS = push_bit 8 1"

record StunAgentCfg =
  compatibility :: StunCompatibility
  known_attributes :: "u16 list"
  usage_flags :: u32

definition has_usage :: "'a StunAgentCfg_scheme \<Rightarrow> StunAgentUsageFlags \<Rightarrow> bool" where
  "has_usage a f \<longleftrightarrow> usage_flags a AND usage_flag_bit f \<noteq> 0"

text \<open>
  A key is a pointer together with a length in C; here it is \<open>Null\<close> or the bytes.  A
  transaction identifier is a list of sixteen bytes.
\<close>

record StunAgentSavedIds =
  sid_id :: bytes
  sid_method :: u16
  sid_key :: "bytes ptr"
  sid_long_term_key :: bytes
  sid_long_term_valid :: bool
  sid_valid :: bool

record StunAgent = StunAgentCfg +
  sent_ids :: "StunAgentSavedIds list"
  software_attribute :: "bytes ptr"
  ms_ice2_send_legacy_connchecks :: bool

record StunMessage =
  agent :: "StunAgentCfg ptr"
  buffer :: bytes
  buffer_len :: nat
  msg_key :: "bytes ptr"
  long_term_key :: bytes
  long_term_valid :: bool

section \<open>Socket addresses\<close>

text \<open>
  The two address families the library handles.  Ports and addresses stay in the network
  byte order they have in memory, so they are lists of 2, 4 and 16 bytes.
\<close>

datatype sockaddr =
    Sock_in (sin_port: bytes) (sin_addr: bytes)
  | Sock_in6 (sin6_port: bytes) (sin6_addr: bytes)
  | Sock_other nat

definition sizeof_sockaddr :: nat where "sizeof_sockaddr = 16"
definition sizeof_sockaddr_in :: nat where "sizeof_sockaddr_in = 16"
definition sizeof_sockaddr_in6 :: nat where "sizeof_sockaddr_in6 = 28"
definition sizeof_sockaddr_storage :: nat where "sizeof_sockaddr_storage = 128"

lemmas sizeof_defs =
  sizeof_sockaddr_def sizeof_sockaddr_in_def sizeof_sockaddr_in6_def sizeof_sockaddr_storage_def

fun wf_sockaddr :: "sockaddr \<Rightarrow> bool" where
  "wf_sockaddr (Sock_in p a) \<longleftrightarrow> length p = 2 \<and> length a = 4"
| "wf_sockaddr (Sock_in6 p a) \<longleftrightarrow> length p = 2 \<and> length a = 16"
| "wf_sockaddr (Sock_other f) \<longleftrightarrow> True"

end
