(* ===== verification/Stun_Utils.thy ===== *)
theory Stun_Utils
  imports Stun_Types
begin

unbundle bit_operations_syntax

text \<open>
  The helpers of \<^verbatim>\<open>stun/utils.c\<close>: padding and alignment of attribute lengths, 16-bit reads
  and writes, the packed type field of the message header and the XOR masking of addresses.
\<close>

section \<open>Padding and alignment\<close>

definition stun_padding :: "nat \<Rightarrow> nat" where
  "stun_padding l = (4 - (l AND 3)) AND 3"

text \<open>Clearing the two low bits, \<^verbatim>\<open>& ~3\<close>, is shifting them out and zeros back in.\<close>

definition stun_align :: "nat \<Rightarrow> nat" where
  "stun_align l = push_bit 2 (drop_bit 2 (l + 3))"

lemma nat_and_3: "(n::nat) AND 3 = n mod 4"
  using take_bit_eq_mask [of 2 n] by (simp add: take_bit_eq_mod mask_eq_exp_minus_1)

lemma stun_padding_mod: "stun_padding l = (4 - l mod 4) mod 4"
  by (simp add: stun_padding_def nat_and_3)

lemma stun_align_div: "stun_align l = 4 * ((l + 3) div 4)"
  by (simp add: stun_align_def push_bit_eq_mult drop_bit_eq_div)

lemma less_4_cases: "(r::nat) < 4 \<Longrightarrow> r = 0 \<or> r = 1 \<or> r = 2 \<or> r = 3"
  by linarith

lemma stun_align_padding: "stun_align l = l + stun_padding l"
proof -
  define q r where "q = l div 4" and "r = l mod 4"
  then have l: "l = 4 * q + r" and "r < 4" by simp_all
  have "stun_align l = 4 * q + 4 * ((r + 3) div 4)"
    by (simp add: stun_align_div l add.assoc)
  moreover have "stun_padding l = (4 - r) mod 4"
    by (simp add: stun_padding_mod r_def)
  moreover have "4 * ((r + 3) div 4) = r + (4 - r) mod 4"
    using less_4_cases [OF \<open>r < 4\<close>] by (elim disjE) simp_all
  ultimately show ?thesis using l by simp
qed

lemma stun_padding_less: "stun_padding l < 4"
  by (simp add: stun_padding_mod)

lemma stun_align_ge [simp]: "l \<le> stun_align l"
  by (simp add: stun_align_padding)

lemma stun_align_less: "stun_align l < l + 4"
  using stun_padding_less by (simp add: stun_align_padding)

lemma stun_align_dvd [simp]: "4 dvd stun_align l"
  by (simp add: stun_align_div)

lemma stun_align_id: "4 dvd l \<Longrightarrow> stun_align l = l"
  by (auto simp: stun_align_div dvd_def)

lemma stun_padding_zero_iff: "stun_padding l = 0 \<longleftrightarrow> 4 dvd l"
proof -
  have "l mod 4 < 4" by simp
  then show ?thesis
    using less_4_cases [of "l mod 4"] by (auto simp: stun_padding_mod dvd_eq_mod_eq_0)
qed

section \<open>16-bit reads and writes\<close>

definition stun_getw :: "bytes \<Rightarrow> nat \<Rightarrow> u16 option" where
  "stun_getw b p = do {
     hi \<leftarrow> rd8 b p;
     lo \<leftarrow> rd8 b (p + 1);
     Some (push_bit 8 (ucast hi) OR ucast lo)
   }"

text \<open>The write returns the object and the pointer behind the two bytes.\<close>

definition stun_setw :: "bytes \<Rightarrow> nat \<Rightarrow> u16 \<Rightarrow> (bytes \<times> nat) option" where
  "stun_setw b p value = do {
     b \<leftarrow> wr_bytes b p [ucast (drop_bit 8 value)];
     b \<leftarrow> wr_bytes b (p + 1) [ucast (value AND 0xff)];
     Some (b, p + 2)
   }"

lemma be_dec_two: "(be_dec [hi, lo] :: u16) = push_bit 8 (ucast hi) OR ucast lo"
  by (simp add: be_dec_def)

lemma stun_getw_eq:
  "stun_getw b p = (if p + 2 \<le> length b then Some (be_dec (take 2 (drop p b))) else None)"
proof (cases "p + 2 \<le> length b")
  case True
  then have "take 2 (drop p b) = [b ! p, b ! (p + 1)]"
    by (simp add: numeral_2_eq_2 take_Suc_conv_app_nth)
  with True show ?thesis
    by (simp add: stun_getw_def rd8_def be_dec_two)
next
  case False
  then show ?thesis by (auto simp: stun_getw_def rd8_def Option.bind_def)
qed

lemma be_enc_two: "be_enc 2 (w :: u16) = [ucast (drop_bit 8 w), ucast (w AND 0xff)]"
proof -
  have "(ucast w :: u8) = ucast (w AND 0xff)"
    by (rule bit_word_eqI) (auto simp: bit_simps mask_255)
  then show ?thesis by (simp add: be_enc_def numeral_2_eq_2)
qed

lemma wr_bytes_Cons_fuse:
  "(wr_bytes b p [x] \<bind> (\<lambda>b'. wr_bytes b' (p + 1) [y])) = wr_bytes b p [x, y]"
proof (cases "p + 2 \<le> length b")
  case True
  then show ?thesis by (simp add: wr_bytes_def min_def)
next
  case False
  then show ?thesis by (auto simp: wr_bytes_def)
qed

lemma stun_setw_eq:
  "stun_setw b p v = map_option (\<lambda>b'. (b', p + 2)) (wr_bytes b p (be_enc 2 v))"
  unfolding stun_setw_def be_enc_two wr_bytes_Cons_fuse [symmetric]
  by (simp add: map_conv_bind_option comp_def)

lemma unat_be_dec_two: "unat (be_dec [hi, lo] :: u16) = 256 * unat hi + unat lo"
proof -
  have "(be_dec [hi, lo] :: u16) = push_bit 8 (ucast hi) + ucast lo"
    unfolding be_dec_two
    by (rule disjunctive_add_eq_or [symmetric])
      (auto simp: bit_eq_iff bit_simps dest: bit_imp_le_length)
  moreover have "unat (push_bit 8 (ucast hi :: u16)) = 256 * unat hi"
    using unat_u8 [of hi] by (simp add: push_bit_eq_mult unat_word_ariths)
  moreover have "256 * unat hi + unat lo < 65536"
    using unat_u8 [of hi] unat_u8 [of lo] by linarith
  ultimately show ?thesis by (simp add: unat_word_ariths)
qed

section \<open>The message type field\<close>

definition stun_set_type :: "bytes \<Rightarrow> StunClass \<Rightarrow> u16 \<Rightarrow> bytes option" where
  "stun_set_type h c m = do {
     h \<leftarrow> wr_bytes h 0 [ucast (drop_bit 1 (stun_class_code c) OR (drop_bit 6 m AND 0x3e))];
     wr_bytes h 1 [ucast ((push_bit 4 (stun_class_code c) AND 0x10) OR
                          (push_bit 1 m AND 0xe0) OR (m AND 0x0f))]
   }"

lemma stun_set_type_length: "stun_set_type h c m = Some h' \<Longrightarrow> length h' = length h"
  by (auto simp: stun_set_type_def wr_bytes_length bind_eq_Some_conv)

section \<open>Masking addresses\<close>

definition xor_bytes :: "bytes \<Rightarrow> bytes \<Rightarrow> bytes" where
  "xor_bytes xs ys = map2 (XOR) xs ys"

fun stun_xor_address ::
  "StunMessage \<Rightarrow> sockaddr \<Rightarrow> nat \<Rightarrow> u32 \<Rightarrow> (StunMessageReturn \<times> sockaddr) option" where
  "stun_xor_address msg (Sock_in p a) addrlen magic_cookie =
     (if addrlen < sizeof_sockaddr_in then Some (STUN_MESSAGE_RETURN_INVALID, Sock_in p a)
      else Some (STUN_MESSAGE_RETURN_SUCCESS,
             Sock_in (xor_bytes p (be_enc 2 (ucast (drop_bit 16 magic_cookie) :: u16)))
                     (xor_bytes a (be_enc 4 magic_cookie))))"
| "stun_xor_address msg (Sock_in6 p a) addrlen magic_cookie =
     (if addrlen < sizeof_sockaddr_in6 then Some (STUN_MESSAGE_RETURN_INVALID, Sock_in6 p a)
      else do {
        mask \<leftarrow> rd_bytes (buffer msg) 4 16;
        Some (STUN_MESSAGE_RETURN_SUCCESS,
             Sock_in6 (xor_bytes p (be_enc 2 (ucast (drop_bit 16 magic_cookie) :: u16)))
                      (xor_bytes a mask))
      })"
| "stun_xor_address msg (Sock_other f) addrlen magic_cookie =
     Some (STUN_MESSAGE_RETURN_UNSUPPORTED_ADDRESS, Sock_other f)"

lemma length_xor_bytes [simp]: "length (xor_bytes xs ys) = min (length xs) (length ys)"
  by (simp add: xor_bytes_def)

lemma xor_bytes_involution [simp]:
  "length xs = length ys \<Longrightarrow> xor_bytes (xor_bytes xs ys) ys = xs"
  by (rule nth_equalityI) (simp_all add: xor_bytes_def xor.assoc)

text \<open>
  Masking keeps an address well formed, and masking twice with the same cookie over messages
  that carry the same transaction identifier gives the address back.
\<close>

lemma stun_xor_address_wf:
  "stun_xor_address msg addr addrlen k = Some (r, addr') \<Longrightarrow> wf_sockaddr addr \<Longrightarrow> wf_sockaddr addr'"
  by (cases addr) (auto simp: rd_bytes_def split: if_splits)

lemma stun_xor_address_twice:
  assumes "stun_xor_address msg addr n k = Some (STUN_MESSAGE_RETURN_SUCCESS, addr')"
    and "wf_sockaddr addr"
    and "take 16 (drop 4 (buffer msg')) = take 16 (drop 4 (buffer msg))"
    and "20 \<le> length (buffer msg')"
  shows "stun_xor_address msg' addr' n k = Some (STUN_MESSAGE_RETURN_SUCCESS, addr)"
  using assms by (cases addr) (auto simp: rd_bytes_def split: if_splits)

lemma stun_xor_address_defined:
  "20 \<le> length (buffer msg) \<Longrightarrow> \<exists>r addr'. stun_xor_address msg addr n k = Some (r, addr')"
  by (cases addr) (auto simp: rd_bytes_def)

lemma stun_xor_address_fail:
  "stun_xor_address msg addr n k = Some (r, addr') \<Longrightarrow> r \<noteq> STUN_MESSAGE_RETURN_SUCCESS \<Longrightarrow> addr' = addr"
  by (cases addr) (auto simp: rd_bytes_def split: if_splits)

end
