(* ===== verification/Stun_Message.thy ===== *)
theory Stun_Message
  imports Stun_Utils
begin

unbundle bit_operations_syntax

text \<open>
  The operations of \<^verbatim>\<open>stun/stunmessage.c\<close> on the bytes of a message, in the order of the
  file, with \<open>stun_message_has_cookie\<close> of \<^verbatim>\<open>stun/stun5389.c\<close>, which they call.  An output
  parameter is a cell: it goes in with its value before the call (\<open>None\<close> where it was never
  assigned) and comes back with its value after it.  A pointer into the message buffer is its
  offset there.
\<close>

section \<open>Header\<close>

definition stun_message_init ::
  "StunMessage \<Rightarrow> StunClass \<Rightarrow> u16 \<Rightarrow> bytes \<Rightarrow> (bool \<times> StunMessage) option" where
  "stun_message_init msg c m tid =
     (if buffer_len msg < STUN_MESSAGE_HEADER_LENGTH then Some (False, msg)
      else do {
        b \<leftarrow> memset (buffer msg) 0 0 4;
        b \<leftarrow> stun_set_type b c m;
        i \<leftarrow> rd_bytes tid 0 STUN_MESSAGE_TRANS_ID_LEN;
        b \<leftarrow> wr_bytes b STUN_MESSAGE_TRANS_ID_POS i;
        Some (True, msg\<lparr>buffer := b\<rparr>)
      })"

definition stun_message_length :: "StunMessage \<Rightarrow> u16 option" where
  "stun_message_length msg = do {
     l \<leftarrow> stun_getw (buffer msg) STUN_MESSAGE_LENGTH_POS;
     Some (l + of_nat STUN_MESSAGE_HEADER_LENGTH)
   }"

definition stun_message_id :: "StunMessage \<Rightarrow> bytes option" where
  "stun_message_id msg = rd_bytes (buffer msg) STUN_MESSAGE_TRANS_ID_POS STUN_MESSAGE_TRANS_ID_LEN"

definition stun_message_has_cookie :: "StunMessage \<Rightarrow> bool option" where
  "stun_message_has_cookie msg = do {
     i \<leftarrow> stun_message_id msg;
     Some (take 4 i = be_enc 4 STUN_MAGIC_COOKIE)
   }"

definition class_of_code :: "u16 \<Rightarrow> StunClass" where
  "class_of_code c = (if c = 0 then STUN_REQUEST else if c = 1 then STUN_INDICATION
     else if c = 2 then STUN_RESPONSE else STUN_ERROR)"

definition stun_message_get_method :: "StunMessage \<Rightarrow> u16 option" where
  "stun_message_get_method msg = do {
     t \<leftarrow> stun_getw (buffer msg) 0;
     let t = (if t = 0x0115 then 0x0017 else t);
     Some (drop_bit 2 (t AND 0x3e00) OR drop_bit 1 (t AND 0x00e0) OR (t AND 0x000f))
   }"

definition stun_message_get_class :: "StunMessage \<Rightarrow> StunClass option" where
  "stun_message_get_class msg = do {
     t \<leftarrow> stun_getw (buffer msg) 0;
     let t = (if t = 0x0115 then 0x0017 else t);
     Some (class_of_code (drop_bit 7 (t AND 0x0100) OR drop_bit 4 (t AND 0x0010)))
   }"

section \<open>Finding attributes\<close>

text \<open>In MS-TURN the codes of REALM and NONCE are swapped.\<close>

definition ms_turn_swap :: "StunMessage \<Rightarrow> u16 \<Rightarrow> u16" where
  "ms_turn_swap msg type =
     (case agent msg of
        Null \<Rightarrow> type
      | Ptr a \<Rightarrow>
          if compatibility a = STUN_COMPATIBILITY_OC2007
          then if type = stun_attribute_code STUN_ATTRIBUTE_REALM
               then stun_attribute_code STUN_ATTRIBUTE_NONCE
               else if type = stun_attribute_code STUN_ATTRIBUTE_NONCE
               then stun_attribute_code STUN_ATTRIBUTE_REALM else type
          else type)"

definition msg_unaligned :: "StunMessage \<Rightarrow> bool" where
  "msg_unaligned msg =
     (case agent msg of Null \<Rightarrow> False | Ptr a \<Rightarrow> has_usage a STUN_AGENT_USAGE_NO_ALIGNED_ATTRIBUTES)"

text \<open>The loop of \<open>stun_message_find\<close>: \<open>len\<close> is the message length, \<open>offset\<close> the position.\<close>

function stun_find_loop :: "StunMessage \<Rightarrow> nat \<Rightarrow> u16 \<Rightarrow> nat \<Rightarrow> (nat \<times> u16) ptr option" where
  "stun_find_loop msg len type offset =
     (if offset < len then do {
        atype \<leftarrow> stun_getw (buffer msg) offset;
        alen \<leftarrow> stun_getw (buffer msg) (offset + STUN_ATTRIBUTE_TYPE_LEN);
        if atype = type then Some (Ptr (offset + STUN_ATTRIBUTE_VALUE_POS, alen))
        else if atype = stun_attribute_code STUN_ATTRIBUTE_MESSAGE_INTEGRITY \<and>
                type \<noteq> stun_attribute_code STUN_ATTRIBUTE_FINGERPRINT then Some Null
        else if atype = stun_attribute_code STUN_ATTRIBUTE_FINGERPRINT then Some Null
        else stun_find_loop msg len type (offset + STUN_ATTRIBUTE_VALUE_POS +
               (if msg_unaligned msg then unat alen else stun_align (unat alen)))
      } else Some Null)"
  by pat_completeness auto
termination
  by (relation "measure (\<lambda>(msg, len, type, offset). len - offset)")
    (auto simp: stun_pos_defs)

declare stun_find_loop.simps [simp del]

definition stun_message_find :: "StunMessage \<Rightarrow> u16 \<Rightarrow> (nat \<times> u16) ptr option" where
  "stun_message_find msg type = do {
     len \<leftarrow> stun_message_length msg;
     stun_find_loop msg (unat len) (ms_turn_swap msg type) STUN_MESSAGE_ATTRIBUTES_POS
   }"

definition stun_message_find_flag :: "StunMessage \<Rightarrow> u16 \<Rightarrow> StunMessageReturn option" where
  "stun_message_find_flag msg type = do {
     r \<leftarrow> stun_message_find msg type;
     Some (case r of Null \<Rightarrow> STUN_MESSAGE_RETURN_NOT_FOUND
           | Ptr (p, len) \<Rightarrow> if len = 0 then STUN_MESSAGE_RETURN_SUCCESS else STUN_MESSAGE_RETURN_INVALID)
   }"

definition stun_message_find32 ::
  "StunMessage \<Rightarrow> u16 \<Rightarrow> u32 option \<Rightarrow> (StunMessageReturn \<times> u32 option) option" where
  "stun_message_find32 msg type pval = do {
     r \<leftarrow> stun_message_find msg type;
     (case r of Null \<Rightarrow> Some (STUN_MESSAGE_RETURN_NOT_FOUND, pval)
      | Ptr (p, len) \<Rightarrow>
          if len = 4 then do {
            val \<leftarrow> rd_bytes (buffer msg) p 4;
            Some (STUN_MESSAGE_RETURN_SUCCESS, Some (be_dec val))
          } else Some (STUN_MESSAGE_RETURN_INVALID, pval))
   }"

definition stun_message_find64 ::
  "StunMessage \<Rightarrow> u16 \<Rightarrow> u64 option \<Rightarrow> (StunMessageReturn \<times> u64 option) option" where
  "stun_message_find64 msg type pval = do {
     r \<leftarrow> stun_message_find msg type;
     (case r of Null \<Rightarrow> Some (STUN_MESSAGE_RETURN_NOT_FOUND, pval)
      | Ptr (p, len) \<Rightarrow>
          if len = 8 then do {
            tab \<leftarrow> rd_bytes (buffer msg) p 8;
            Some (STUN_MESSAGE_RETURN_SUCCESS,
                  Some (push_bit 32 (ucast (be_dec (take 4 tab) :: u32)) OR
                        ucast (be_dec (drop 4 tab) :: u32)))
          } else Some (STUN_MESSAGE_RETURN_INVALID, pval))
   }"

definition stun_message_find_string ::
  "StunMessage \<Rightarrow> u16 \<Rightarrow> bytes \<Rightarrow> nat \<Rightarrow> (StunMessageReturn \<times> bytes) option" where
  "stun_message_find_string msg type buf buflen = do {
     r \<leftarrow> stun_message_find msg type;
     (case r of Null \<Rightarrow> Some (STUN_MESSAGE_RETURN_NOT_FOUND, buf)
      | Ptr (p, len) \<Rightarrow>
          if unat len \<ge> buflen then Some (STUN_MESSAGE_RETURN_NOT_ENOUGH_SPACE, buf)
          else do {
            v \<leftarrow> rd_bytes (buffer msg) p (unat len);
            buf \<leftarrow> wr_bytes buf 0 v;
            buf \<leftarrow> wr_bytes buf (unat len) [0];
            Some (STUN_MESSAGE_RETURN_SUCCESS, buf)
          })
   }"

definition stun_message_find_addr ::
  "StunMessage \<Rightarrow> u16 \<Rightarrow> sockaddr \<Rightarrow> nat \<Rightarrow> (StunMessageReturn \<times> sockaddr \<times> nat) option" where
  "stun_message_find_addr msg type addr addrlen = do {
     r \<leftarrow> stun_message_find msg type;
     (case r of Null \<Rightarrow> Some (STUN_MESSAGE_RETURN_NOT_FOUND, addr, addrlen)
      | Ptr (p, len) \<Rightarrow>
          if len < 4 then Some (STUN_MESSAGE_RETURN_INVALID, addr, addrlen)
          else do {
            family \<leftarrow> rd8 (buffer msg) (p + 1);
            if family = 1 then
              if addrlen < sizeof_sockaddr_in \<or> len \<noteq> 8
              then Some (STUN_MESSAGE_RETURN_INVALID, addr, sizeof_sockaddr_in)
              else do {
                port \<leftarrow> rd_bytes (buffer msg) (p + 2) 2;
                a \<leftarrow> rd_bytes (buffer msg) (p + 4) 4;
                Some (STUN_MESSAGE_RETURN_SUCCESS, Sock_in port a, sizeof_sockaddr_in)
              }
            else if family = 2 then
              if addrlen < sizeof_sockaddr_in6 \<or> len \<noteq> 20
              then Some (STUN_MESSAGE_RETURN_INVALID, addr, sizeof_sockaddr_in6)
              else do {
                port \<leftarrow> rd_bytes (buffer msg) (p + 2) 2;
                a \<leftarrow> rd_bytes (buffer msg) (p + 4) 16;
                Some (STUN_MESSAGE_RETURN_SUCCESS, Sock_in6 port a, sizeof_sockaddr_in6)
              }
            else Some (STUN_MESSAGE_RETURN_UNSUPPORTED_ADDRESS, addr, addrlen)
          })
   }"

definition stun_message_find_xor_addr_full ::
  "StunMessage \<Rightarrow> u16 \<Rightarrow> sockaddr \<Rightarrow> nat \<Rightarrow> u32 \<Rightarrow>
     (StunMessageReturn \<times> sockaddr \<times> nat) option" where
  "stun_message_find_xor_addr_full msg type addr addrlen magic_cookie = do {
     (val, addr, addrlen) \<leftarrow> stun_message_find_addr msg type addr addrlen;
     if val \<noteq> STUN_MESSAGE_RETURN_SUCCESS then Some (val, addr, addrlen)
     else do {
       (val, addr) \<leftarrow> stun_xor_address msg addr addrlen magic_cookie;
       Some (val, addr, addrlen)
     }
   }"

definition stun_message_find_xor_addr ::
  "StunMessage \<Rightarrow> u16 \<Rightarrow> sockaddr \<Rightarrow> nat \<Rightarrow> (StunMessageReturn \<times> sockaddr \<times> nat) option" where
  "stun_message_find_xor_addr msg type addr addrlen = do {
     (val, addr, addrlen) \<leftarrow> stun_message_find_addr msg type addr addrlen;
     if val \<noteq> STUN_MESSAGE_RETURN_SUCCESS then Some (val, addr, addrlen)
     else do {
       (val, addr) \<leftarrow> stun_xor_address msg addr addrlen STUN_MAGIC_COOKIE;
       Some (val, addr, addrlen)
     }
   }"

definition stun_message_find_error ::
  "StunMessage \<Rightarrow> int option \<Rightarrow> (StunMessageReturn \<times> int option) option" where
  "stun_message_find_error msg code = do {
     r \<leftarrow> stun_message_find msg (stun_attribute_code STUN_ATTRIBUTE_ERROR_CODE);
     (case r of Null \<Rightarrow> Some (STUN_MESSAGE_RETURN_NOT_FOUND, code)
      | Ptr (p, alen) \<Rightarrow>
          if alen < 4 then Some (STUN_MESSAGE_RETURN_INVALID, code)
          else do {
            c \<leftarrow> rd8 (buffer msg) (p + 2);
            let cls = c AND 0x7;
            number \<leftarrow> rd8 (buffer msg) (p + 3);
            if cls < 3 \<or> cls > 6 \<or> number > 99 then Some (STUN_MESSAGE_RETURN_INVALID, code)
            else Some (STUN_MESSAGE_RETURN_SUCCESS, Some (uint cls * 100 + uint number))
          })
   }"

definition stun_message_has_attribute :: "StunMessage \<Rightarrow> u16 \<Rightarrow> bool option" where
  "stun_message_has_attribute msg type = do {
     r \<leftarrow> stun_message_find msg type;
     Some (r \<noteq> Null)
   }"

definition stun_optional :: "u16 \<Rightarrow> bool" where
  "stun_optional t \<longleftrightarrow> drop_bit 15 t = 1"

section \<open>Appending attributes\<close>

text \<open>
  \<open>stun_message_append\<close> returns a pointer to the room for the value.  The message length is a
  16-bit variable, the sum compared with the buffer length is a \<open>size_t\<close>.
\<close>

definition stun_message_append ::
  "StunMessage \<Rightarrow> u16 \<Rightarrow> nat \<Rightarrow> (nat ptr \<times> StunMessage) option" where
  "stun_message_append msg type len = do {
     mlen \<leftarrow> stun_message_length msg;
     let type = ms_turn_swap msg type;
     if unat mlen + STUN_ATTRIBUTE_HEADER_LENGTH + len > buffer_len msg then Some (Null, msg)
     else do {
       (b, a) \<leftarrow> stun_setw (buffer msg) (unat mlen) type;
       (b, a, mlen) \<leftarrow>
         (if msg_unaligned msg then do {
            (b, a) \<leftarrow> stun_setw b a (of_nat len);
            Some (b, a, mlen)
          } else do {
            cookie \<leftarrow> stun_message_has_cookie (msg\<lparr>buffer := b\<rparr>);
            (b, a) \<leftarrow> stun_setw b a (of_nat (if cookie then len else stun_align len));
            if stun_padding len > 0 then do {
              b \<leftarrow> memset b (a + len) 0 (stun_padding len);
              Some (b, a, mlen + of_nat (stun_padding len))
            } else Some (b, a, mlen)
          });
       let mlen = mlen + of_nat (4 + len);
       (b, e) \<leftarrow> stun_setw b STUN_MESSAGE_LENGTH_POS (mlen - of_nat STUN_MESSAGE_HEADER_LENGTH);
       Some (Ptr a, msg\<lparr>buffer := b\<rparr>)
     }
   }"

definition stun_message_append_bytes ::
  "StunMessage \<Rightarrow> u16 \<Rightarrow> bytes \<Rightarrow> nat \<Rightarrow> (StunMessageReturn \<times> StunMessage) option" where
  "stun_message_append_bytes msg type data len = do {
     (r, msg) \<leftarrow> stun_message_append msg type len;
     (case r of Null \<Rightarrow> Some (STUN_MESSAGE_RETURN_NOT_ENOUGH_SPACE, msg)
      | Ptr p \<Rightarrow>
          if len > 0 then do {
            d \<leftarrow> rd_bytes data 0 len;
            b \<leftarrow> wr_bytes (buffer msg) p d;
            Some (STUN_MESSAGE_RETURN_SUCCESS, msg\<lparr>buffer := b\<rparr>)
          } else Some (STUN_MESSAGE_RETURN_SUCCESS, msg))
   }"

definition stun_message_append_flag ::
  "StunMessage \<Rightarrow> u16 \<Rightarrow> (StunMessageReturn \<times> StunMessage) option" where
  "stun_message_append_flag msg type = stun_message_append_bytes msg type [] 0"

definition stun_message_append32 ::
  "StunMessage \<Rightarrow> u16 \<Rightarrow> u32 \<Rightarrow> (StunMessageReturn \<times> StunMessage) option" where
  "stun_message_append32 msg type v = stun_message_append_bytes msg type (be_enc 4 v) 4"

definition stun_message_append64 ::
  "StunMessage \<Rightarrow> u16 \<Rightarrow> u64 \<Rightarrow> (StunMessageReturn \<times> StunMessage) option" where
  "stun_message_append64 msg type v =
     stun_message_append_bytes msg type
       (be_enc 4 (ucast (drop_bit 32 v) :: u32) @ be_enc 4 (ucast v :: u32)) 8"

definition stun_message_append_string ::
  "StunMessage \<Rightarrow> u16 \<Rightarrow> bytes \<Rightarrow> (StunMessageReturn \<times> StunMessage) option" where
  "stun_message_append_string msg type str = do {
     n \<leftarrow> strlen str;
     stun_message_append_bytes msg type str n
   }"

definition stun_message_append_addr ::
  "StunMessage \<Rightarrow> u16 \<Rightarrow> sockaddr \<Rightarrow> nat \<Rightarrow> (StunMessageReturn \<times> StunMessage) option" where
  "stun_message_append_addr msg type addr addrlen =
     (if addrlen < sizeof_sockaddr then Some (STUN_MESSAGE_RETURN_INVALID, msg)
      else
        (let append = (\<lambda>family port pa alen. do {
               (r, msg) \<leftarrow> stun_message_append msg type (4 + alen);
               (case r of Null \<Rightarrow> Some (STUN_MESSAGE_RETURN_NOT_ENOUGH_SPACE, msg)
                | Ptr p \<Rightarrow> do {
                    b \<leftarrow> wr_bytes (buffer msg) p [0];
                    b \<leftarrow> wr_bytes b (p + 1) [family];
                    b \<leftarrow> wr_bytes b (p + 2) port;
                    b \<leftarrow> wr_bytes b (p + 4) pa;
                    Some (STUN_MESSAGE_RETURN_SUCCESS, msg\<lparr>buffer := b\<rparr>)
                  })
             })
         in case addr of
              Sock_in port pa \<Rightarrow> append 1 port pa 4
            | Sock_in6 port pa \<Rightarrow>
                if addrlen < sizeof_sockaddr_in6 then Some (STUN_MESSAGE_RETURN_INVALID, msg)
                else append 2 port pa 16
            | Sock_other f \<Rightarrow> Some (STUN_MESSAGE_RETURN_UNSUPPORTED_ADDRESS, msg)))"

text \<open>
  The two masking variants copy \<open>addrlen\<close> bytes into a local address; a copy shorter than the
  two bytes of the family leaves the family unset, and reading it is a fault.
\<close>

definition stun_message_append_xor_addr_full ::
  "StunMessage \<Rightarrow> u16 \<Rightarrow> sockaddr \<Rightarrow> nat \<Rightarrow> u32 \<Rightarrow> (StunMessageReturn \<times> StunMessage) option" where
  "stun_message_append_xor_addr_full msg type addr addrlen magic_cookie =
     (let addrlen = (if addrlen > sizeof_sockaddr_storage then sizeof_sockaddr_storage else addrlen)
      in if addrlen < 2 then None
      else do {
        (val, tmpaddr) \<leftarrow> stun_xor_address msg addr addrlen magic_cookie;
        if val \<noteq> STUN_MESSAGE_RETURN_SUCCESS then Some (val, msg)
        else stun_message_append_addr msg type tmpaddr addrlen
      })"

definition stun_message_append_xor_addr ::
  "StunMessage \<Rightarrow> u16 \<Rightarrow> sockaddr \<Rightarrow> nat \<Rightarrow> (StunMessageReturn \<times> StunMessage) option" where
  "stun_message_append_xor_addr msg type addr addrlen =
     (let addrlen = (if addrlen > sizeof_sockaddr_storage then sizeof_sockaddr_storage else addrlen)
      in if addrlen < 2 then None
      else do {
        (val, tmpaddr) \<leftarrow> stun_xor_address msg addr addrlen STUN_MAGIC_COOKIE;
        if val \<noteq> STUN_MESSAGE_RETURN_SUCCESS then Some (val, msg)
        else stun_message_append_addr msg type tmpaddr addrlen
      })"

definition strerror_tab :: "(StunError \<times> string) list" where
  "strerror_tab =
    [(STUN_ERROR_TRY_ALTERNATE, ''Try alternate server''),
     (STUN_ERROR_BAD_REQUEST, ''Bad request''),
     (STUN_ERROR_UNAUTHORIZED, ''Unauthorized''),
     (STUN_ERROR_UNKNOWN_ATTRIBUTE, ''Unknown Attribute''),
     (STUN_ERROR_ALLOCATION_MISMATCH, ''Allocation Mismatch''),
     (STUN_ERROR_STALE_NONCE, ''Stale Nonce''),
     (STUN_ERROR_ACT_DST_ALREADY, ''Active Destination Already Set''),
     (STUN_ERROR_UNSUPPORTED_FAMILY, ''Address Family not Supported''),
     (STUN_ERROR_UNSUPPORTED_TRANSPORT, ''Unsupported Transport Protocol''),
     (STUN_ERROR_INVALID_IP, ''Invalid IP Address''),
     (STUN_ERROR_INVALID_PORT, ''Invalid Port''),
     (STUN_ERROR_OP_TCP_ONLY, ''Operation for TCP Only''),
     (STUN_ERROR_CONN_ALREADY, ''Connection Already Exists''),
     (STUN_ERROR_ALLOCATION_QUOTA_REACHED, ''Allocation Quota Reached''),
     (STUN_ERROR_ROLE_CONFLICT, ''Role conflict''),
     (STUN_ERROR_SERVER_ERROR, ''Server Error''),
     (STUN_ERROR_SERVER_CAPACITY, ''Insufficient Capacity''),
     (STUN_ERROR_INSUFFICIENT_CAPACITY, ''Insufficient Capacity'')]"

definition stun_strerror :: "StunError \<Rightarrow> string" where
  "stun_strerror code =
     (case find (\<lambda>(c, phrase). stun_error_code c = stun_error_code code) strerror_tab of
        None \<Rightarrow> ''Unknown error'' | Some (c, phrase) \<Rightarrow> phrase)"

definition stun_message_append_error ::
  "StunMessage \<Rightarrow> StunError \<Rightarrow> (StunMessageReturn \<times> StunMessage) option" where
  "stun_message_append_error msg code =
     (let str = ascii (stun_strerror code); len = length str in do {
        (r, msg) \<leftarrow> stun_message_append msg (stun_attribute_code STUN_ATTRIBUTE_ERROR_CODE) (4 + len);
        (case r of Null \<Rightarrow> Some (STUN_MESSAGE_RETURN_NOT_ENOUGH_SPACE, msg)
         | Ptr p \<Rightarrow> do {
             b \<leftarrow> memset (buffer msg) p 0 2;
             b \<leftarrow> wr_bytes b (p + 2) [of_nat (stun_error_code code div 100)];
             b \<leftarrow> wr_bytes b (p + 3) [of_nat (stun_error_code code mod 100)];
             b \<leftarrow> wr_bytes b (p + 4) str;
             Some (STUN_MESSAGE_RETURN_SUCCESS, msg\<lparr>buffer := b\<rparr>)
           })
      })"

section \<open>Validating received buffers\<close>

record StunInputVector =
  iv_buffer :: "bytes ptr"
  iv_size :: nat

text \<open>
  The skip loop of the slow path: \<open>i\<close> is the index, \<open>skip\<close> the bytes still to skip.  A negative
  number of buffers means that the array ends with a \<open>Null\<close> buffer.
\<close>

function skip_loop :: "StunInputVector list \<Rightarrow> int \<Rightarrow> nat \<Rightarrow> nat \<Rightarrow> (nat \<times> nat) option" where
  "skip_loop buffers n_buffers i skip =
     (if 0 \<le> n_buffers \<and> \<not> int i < n_buffers then Some (i, skip)
      else if i < length buffers
      then if n_buffers < 0 \<and> iv_buffer (buffers ! i) = Null then Some (i, skip)
           else if iv_size (buffers ! i) \<le> skip
           then skip_loop buffers n_buffers (Suc i) (skip - iv_size (buffers ! i))
           else Some (i, skip)
      else None)"
  by pat_completeness auto
termination
  by (relation "measure (\<lambda>(buffers, n_buffers, i, skip). length buffers - i)") auto

declare skip_loop.simps [simp del]

definition iv_data :: "StunInputVector \<Rightarrow> bytes option" where
  "iv_data v = (case iv_buffer v of Null \<Rightarrow> None | Ptr d \<Rightarrow> Some d)"

definition read_split_length :: "StunInputVector list \<Rightarrow> int \<Rightarrow> nat option" where
  "read_split_length buffers n_buffers = do {
     (i, skip) \<leftarrow> skip_loop buffers n_buffers 0 STUN_MESSAGE_LENGTH_POS;
     v \<leftarrow> nth_opt buffers i;
     d \<leftarrow> iv_data v;
     if iv_size v - skip > 1 then map_option unat (stun_getw d skip)
     else do {
       hi \<leftarrow> rd8 d skip;
       v' \<leftarrow> nth_opt buffers (i + 1);
       d' \<leftarrow> iv_data v';
       lo \<leftarrow> rd8 d' 0;
       Some (push_bit 8 (unat hi) OR unat lo)
     }
   }"

definition stun_message_validate_buffer_length_fast ::
  "StunInputVector list \<Rightarrow> int \<Rightarrow> nat \<Rightarrow> bool \<Rightarrow> int option" where
  "stun_message_validate_buffer_length_fast buffers n_buffers total_length has_padding =
     (if total_length < 1 \<or> n_buffers = 0 then Some STUN_MESSAGE_BUFFER_INVALID
      else do {
        v0 \<leftarrow> nth_opt buffers 0;
        (case iv_buffer v0 of
           Null \<Rightarrow> Some STUN_MESSAGE_BUFFER_INVALID
         | Ptr d0 \<Rightarrow> do {
             first \<leftarrow> rd8 d0 0;
             if drop_bit 6 first \<noteq> 0 then Some STUN_MESSAGE_BUFFER_INVALID
             else if total_length < STUN_MESSAGE_LENGTH_POS + STUN_MESSAGE_LENGTH_LEN
             then Some STUN_MESSAGE_BUFFER_INCOMPLETE
             else do {
               mlen \<leftarrow> (if iv_size v0 \<ge> STUN_MESSAGE_LENGTH_POS + STUN_MESSAGE_LENGTH_LEN
                        then map_option unat (stun_getw d0 STUN_MESSAGE_LENGTH_POS)
                        else read_split_length buffers n_buffers);
               let mlen = mlen + STUN_MESSAGE_HEADER_LENGTH;
               if has_padding \<and> stun_padding mlen \<noteq> 0 then Some STUN_MESSAGE_BUFFER_INVALID
               else if total_length < mlen then Some STUN_MESSAGE_BUFFER_INCOMPLETE
               else Some (int mlen)
             }
           })
      })"

text \<open>The attribute loop; \<open>pos\<close> is the advancing pointer, \<open>len\<close> the bytes left.\<close>

function validate_loop :: "bytes \<Rightarrow> bool \<Rightarrow> nat \<Rightarrow> nat \<Rightarrow> bool option" where
  "validate_loop msg has_padding pos len =
     (if len > 0 then
        if len < 4 then Some False
        else do {
          alen \<leftarrow> stun_getw msg (pos + STUN_ATTRIBUTE_TYPE_LEN);
          let alen = (if has_padding then stun_align (unat alen) else unat alen);
          if len - 4 < alen then Some False
          else validate_loop msg has_padding (pos + (4 + alen)) (len - 4 - alen)
        }
      else Some True)"
  by pat_completeness auto
termination
  by (relation "measure (\<lambda>(msg, has_padding, pos, len). len)") auto

declare validate_loop.simps [simp del]

definition stun_message_validate_buffer_length :: "bytes \<Rightarrow> nat \<Rightarrow> bool \<Rightarrow> int option" where
  "stun_message_validate_buffer_length msg len has_padding = do {
     fast_retval \<leftarrow>
       stun_message_validate_buffer_length_fast [\<lparr>iv_buffer = Ptr msg, iv_size = len\<rparr>] 1 len has_padding;
     if fast_retval \<le> 0 then Some fast_retval
     else do {
       ok \<leftarrow> validate_loop msg has_padding 20 (nat fast_retval - 20);
       Some (if ok then fast_retval else STUN_MESSAGE_BUFFER_INVALID)
     }
   }"

end
