(* ===== verification/Stun_Attr_Spec.thy ===== *)
theory Stun_Attr_Spec
  imports Stun_Message
begin

unbundle bit_operations_syntax

text \<open>
  The abstract view of a message: the list of its attributes, each a type code and the bytes
  of its value.  \<open>parse_attrs\<close> is the grammar of the attribute section, \<open>find_attr\<close> the lookup
  with the ordering rules of RFC 5389 (only FINGERPRINT may follow MESSAGE-INTEGRITY, nothing
  may follow FINGERPRINT).  The lemmas say that the pointer code of
  \<^verbatim>\<open>stun/stunmessage.c\<close> computes on this view: the validation loop accepts exactly the
  buffers the grammar accepts, every find operation is a function of the looked-up value, and
  appending adds one element at the end.
\<close>

section \<open>Attribute lists\<close>

definition attr_size :: "bool \<Rightarrow> nat \<Rightarrow> nat" where
  "attr_size pad n = (if pad then stun_align n else n)"

function parse_attrs :: "bool \<Rightarrow> bytes \<Rightarrow> (u16 \<times> bytes) list option" where
  "parse_attrs pad xs =
     (if xs = [] then Some []
      else if length xs < 4 then None
      else
        (let n = unat (be_dec (take 2 (drop 2 xs)) :: u16); k = attr_size pad n
         in if length xs - 4 < k then None
            else map_option (Cons (be_dec (take 2 xs), take n (drop 4 xs)))
                   (parse_attrs pad (drop (4 + k) xs))))"
  by pat_completeness auto
termination
  by (relation "measure (\<lambda>(pad, xs). length xs)") auto

declare parse_attrs.simps [simp del]

fun find_attr :: "(u16 \<times> bytes) list \<Rightarrow> u16 \<Rightarrow> bytes option" where
  "find_attr [] t = None"
| "find_attr ((a, v) # as) t =
     (if a = t then Some v
      else if a = stun_attribute_code STUN_ATTRIBUTE_MESSAGE_INTEGRITY \<and>
              t \<noteq> stun_attribute_code STUN_ATTRIBUTE_FINGERPRINT then None
      else if a = stun_attribute_code STUN_ATTRIBUTE_FINGERPRINT then None
      else find_attr as t)"

lemma attr_size_ge [simp]: "n \<le> attr_size pad n"
  by (simp add: attr_size_def)

lemma parse_attrs_Nil [simp]: "parse_attrs pad [] = Some []"
  by (simp add: parse_attrs.simps)

lemma parse_attrs_append:
  "parse_attrs pad xs = Some as \<Longrightarrow> parse_attrs pad ys = Some bs \<Longrightarrow>
     parse_attrs pad (xs @ ys) = Some (as @ bs)"
proof (induction pad xs arbitrary: as rule: parse_attrs.induct)
  case (1 pad xs)
  show ?case
  proof (cases "xs = []")
    case True
    with "1.prems" show ?thesis by simp
  next
    case False
    define n where "n = unat (be_dec (take 2 (drop 2 xs)) :: u16)"
    define k where "k = attr_size pad n"
    from "1.prems" False have len: "4 + k \<le> length xs"
      by (auto simp: parse_attrs.simps [of pad xs] n_def k_def Let_def split: if_splits)
    with "1.prems" False obtain as' where rest: "parse_attrs pad (drop (4 + k) xs) = Some as'"
      and as: "as = (be_dec (take 2 xs), take n (drop 4 xs)) # as'"
      by (auto simp: parse_attrs.simps [of pad xs] n_def k_def Let_def split: if_splits)
    have "parse_attrs pad (drop (4 + k) xs @ ys) = Some (as' @ bs)"
      using "1.IH" [OF False _ n_def k_def] len rest "1.prems"(2) by auto
    moreover have "n \<le> k" by (simp add: k_def)
    ultimately show ?thesis
      using False len
      by (subst parse_attrs.simps)
        (auto simp: Let_def as n_def [symmetric] k_def [symmetric])
  qed
qed

definition encode_attr :: "bool \<Rightarrow> u16 \<Rightarrow> bytes \<Rightarrow> bytes" where
  "encode_attr pad t v =
     be_enc 2 t @ be_enc 2 (of_nat (length v) :: u16) @ v @
     replicate (attr_size pad (length v) - length v) 0"

lemma length_encode_attr [simp]: "length (encode_attr pad t v) = 4 + attr_size pad (length v)"
  by (simp add: encode_attr_def)

lemma unat_of_nat_u16 [simp]: "n < 65536 \<Longrightarrow> unat (of_nat n :: u16) = n"
  by (simp add: unat_of_nat take_bit_nat_eq_self)

lemma parse_encode_attr:
  assumes "length v < 65536"
  shows "parse_attrs pad (encode_attr pad t v) = Some [(t, v)]"
proof -
  let ?xs = "encode_attr pad t v"
  have n: "unat (be_dec (take 2 (drop 2 ?xs)) :: u16) = length v"
    using assms by (simp add: encode_attr_def)
  have "take 2 ?xs = be_enc 2 t" and "take (length v) (drop 4 ?xs) = v"
    by (simp_all add: encode_attr_def)
  moreover have "?xs \<noteq> []" by (simp add: encode_attr_def be_enc_two)
  ultimately show ?thesis
    by (subst parse_attrs.simps) (simp add: n Let_def)
qed

section \<open>Validation\<close>

lemma validate_loop_spec:
  "pos + len \<le> length msg \<Longrightarrow>
     validate_loop msg pad pos len = Some (parse_attrs pad (take len (drop pos msg)) \<noteq> None)"
proof (induction msg pad pos len rule: validate_loop.induct)
  case (1 msg pad pos len)
  define xs where "xs = take len (drop pos msg)"
  have lx: "length xs = len" using "1.prems" by (simp add: xs_def)
  consider "len = 0" | "0 < len" "len < 4" | "4 \<le> len" by linarith
  then show ?case
  proof cases
    case 3
    define n where "n = unat (be_dec (take 2 (drop 2 xs)) :: u16)"
    have get: "stun_getw msg (pos + STUN_ATTRIBUTE_TYPE_LEN) = Some (be_dec (take 2 (drop 2 xs)))"
      using 3 "1.prems"
      by (simp add: stun_getw_eq stun_pos_defs xs_def drop_take min_def add.commute)
    show ?thesis
    proof (cases "len - 4 < attr_size pad n")
      case True
      then have "parse_attrs pad xs = None"
        using 3 lx by (subst parse_attrs.simps) (auto simp: n_def Let_def)
      with True 3 get show ?thesis
        by (subst validate_loop.simps) (simp add: xs_def [symmetric] n_def attr_size_def)
    next
      case False
      have ih: "validate_loop msg pad (pos + (4 + attr_size pad n)) (len - 4 - attr_size pad n) =
          Some (parse_attrs pad (take (len - 4 - attr_size pad n)
            (drop (pos + (4 + attr_size pad n)) msg)) \<noteq> None)"
        using "1.IH" [OF _ _ get refl] 3 False "1.prems"
        by (simp add: n_def attr_size_def split: if_splits)
      have "take (len - 4 - attr_size pad n) (drop (pos + (4 + attr_size pad n)) msg) =
          drop (4 + attr_size pad n) xs"
        using False 3 by (simp add: xs_def drop_take add_ac)
      moreover have "parse_attrs pad xs \<noteq> None \<longleftrightarrow>
          parse_attrs pad (drop (4 + attr_size pad n) xs) \<noteq> None"
        using 3 lx False by (subst parse_attrs.simps) (auto simp: n_def Let_def)
      ultimately show ?thesis
        using 3 False get ih
        by (subst validate_loop.simps) (simp add: xs_def [symmetric] n_def attr_size_def)
    qed
  next
    case 2
    then have "parse_attrs pad xs = None"
      using lx by (subst parse_attrs.simps) auto
    with 2 show ?thesis by (subst validate_loop.simps) (simp add: xs_def)
  qed (simp add: validate_loop.simps)
qed

section \<open>Finding\<close>

text \<open>A pointer result of the code stands for a value of the abstract view.\<close>

fun attr_rel :: "bytes \<Rightarrow> nat \<Rightarrow> (nat \<times> u16) ptr \<Rightarrow> bytes option \<Rightarrow> bool" where
  "attr_rel b len Null None \<longleftrightarrow> True"
| "attr_rel b len (Ptr (p, l)) (Some v) \<longleftrightarrow>
     unat l = length v \<and> 24 \<le> p \<and> p + length v \<le> len \<and> take (length v) (drop p b) = v"
| "attr_rel b len _ _ \<longleftrightarrow> False"

lemma attr_rel_None [simp]: "attr_rel b len r None \<longleftrightarrow> r = Null"
  by (cases r) auto

lemma attr_rel_Some:
  "attr_rel b len r (Some v) \<longleftrightarrow> (\<exists>p l. r = Ptr (p, l) \<and> unat l = length v \<and> 24 \<le> p \<and>
     p + length v \<le> len \<and> take (length v) (drop p b) = v)"
  by (cases r) auto

lemma stun_find_loop_spec:
  "parse_attrs (\<not> msg_unaligned msg) (take (len - off) (drop off (buffer msg))) = Some as \<Longrightarrow>
   20 \<le> off \<Longrightarrow> off \<le> len \<Longrightarrow> len \<le> length (buffer msg) \<Longrightarrow>
   \<exists>r. stun_find_loop msg len type off = Some r \<and>
       attr_rel (buffer msg) len r (find_attr as type)"
proof (induction msg len type off arbitrary: as rule: stun_find_loop.induct)
  case (1 msg len type off)
  let ?b = "buffer msg" and ?pad = "\<not> msg_unaligned msg"
  define xs where "xs = take (len - off) (drop off ?b)"
  have lx: "length xs = len - off" using "1.prems" by (simp add: xs_def)
  show ?case
  proof (cases "off < len")
    case False
    then have "xs = []" by (simp add: xs_def)
    then have "as = []" using "1.prems"(1) by (simp add: xs_def [symmetric])
    with False show ?thesis by (simp add: stun_find_loop.simps)
  next
    case True
    define n where "n = unat (be_dec (take 2 (drop 2 xs)) :: u16)"
    define k where "k = attr_size ?pad n"
    define t :: u16 where "t = be_dec (take 2 xs)"
    have ne: "xs \<noteq> []" using True lx by auto
    from "1.prems"(1) ne have len4: "4 + k \<le> length xs"
      by (auto simp: xs_def [symmetric] parse_attrs.simps [of _ xs] n_def k_def Let_def split: if_splits)
    from "1.prems"(1) ne obtain as' where rest: "parse_attrs ?pad (drop (4 + k) xs) = Some as'"
      and as: "as = (t, take n (drop 4 xs)) # as'"
      by (auto simp: xs_def [symmetric] parse_attrs.simps [of _ xs] n_def k_def t_def Let_def split: if_splits)
    have gt: "stun_getw ?b off = Some t"
      using len4 lx "1.prems" by (simp add: stun_getw_eq t_def xs_def min_def)
    have gl: "stun_getw ?b (off + STUN_ATTRIBUTE_TYPE_LEN) = Some (be_dec (take 2 (drop 2 xs)))"
      using len4 lx "1.prems" by (simp add: stun_getw_eq stun_pos_defs xs_def min_def drop_take add.commute)
    have k: "(if msg_unaligned msg then unat (be_dec (take 2 (drop 2 xs)) :: u16)
        else stun_align (unat (be_dec (take 2 (drop 2 xs)) :: u16))) = k"
      by (simp add: k_def attr_size_def n_def)
    have nk: "n \<le> k" by (simp add: k_def)
    have v: "take n (drop (off + 4) ?b) = take n (drop 4 xs)"
      using len4 lx nk by (simp add: xs_def drop_take min_def add.commute)
    have lv: "length (take n (drop 4 xs)) = n" using len4 nk by simp
    have unf: "stun_find_loop msg len type off =
        (if t = type then Some (Ptr (off + 4, be_dec (take 2 (drop 2 xs))))
         else if t = stun_attribute_code STUN_ATTRIBUTE_MESSAGE_INTEGRITY \<and>
                 type \<noteq> stun_attribute_code STUN_ATTRIBUTE_FINGERPRINT then Some Null
         else if t = stun_attribute_code STUN_ATTRIBUTE_FINGERPRINT then Some Null
         else stun_find_loop msg len type (off + 4 + k))"
      using True gt gl by (subst stun_find_loop.simps) (simp add: k stun_pos_defs)
    have next': "take (len - (off + 4 + k)) (drop (off + 4 + k) ?b) = drop (4 + k) xs"
      by (simp add: xs_def drop_take add_ac)
    have IH: "t \<noteq> type \<Longrightarrow>
        \<not> (t = stun_attribute_code STUN_ATTRIBUTE_MESSAGE_INTEGRITY \<and>
           type \<noteq> stun_attribute_code STUN_ATTRIBUTE_FINGERPRINT) \<Longrightarrow>
        t \<noteq> stun_attribute_code STUN_ATTRIBUTE_FINGERPRINT \<Longrightarrow>
        \<exists>r. stun_find_loop msg len type (off + 4 + k) = Some r \<and>
            attr_rel ?b len r (find_attr as' type)"
      using "1.IH" [OF True gt gl] rest next' "1.prems" len4 lx
      by (simp add: k stun_pos_defs)
    have hit: "attr_rel ?b len (Ptr (off + 4, be_dec (take 2 (drop 2 xs)))) (Some (take n (drop 4 xs)))"
      using v lv len4 lx nk "1.prems" by (simp add: n_def)
    show ?thesis
      using unf hit IH by (simp add: as)
  qed
qed

text \<open>The attributes of a message, where its bytes are well formed.\<close>

definition msg_attrs :: "StunMessage \<Rightarrow> (u16 \<times> bytes) list option" where
  "msg_attrs m =
     (case stun_message_length m of
        None \<Rightarrow> None
      | Some n \<Rightarrow>
          if 20 \<le> unat n \<and> unat n \<le> length (buffer m)
          then parse_attrs (\<not> msg_unaligned m) (take (unat n - 20) (drop 20 (buffer m)))
          else None)"

lemma msg_attrs_SomeE:
  assumes "msg_attrs m = Some as"
  obtains n where "stun_message_length m = Some n" and "20 \<le> unat n"
    and "unat n \<le> length (buffer m)"
    and "parse_attrs (\<not> msg_unaligned m) (take (unat n - 20) (drop 20 (buffer m))) = Some as"
  using assms by (auto simp: msg_attrs_def split: option.splits if_splits)

lemma stun_message_find_spec:
  assumes "msg_attrs m = Some as"
  shows "\<exists>r. stun_message_find m type = Some r \<and>
           attr_rel (buffer m) (length (buffer m)) r (find_attr as (ms_turn_swap m type))"
proof -
  from assms obtain n where n: "stun_message_length m = Some n" "20 \<le> unat n"
    "unat n \<le> length (buffer m)"
    "parse_attrs (\<not> msg_unaligned m) (take (unat n - 20) (drop 20 (buffer m))) = Some as"
    by (rule msg_attrs_SomeE)
  from stun_find_loop_spec [OF n(4) _ n(2,3), of "ms_turn_swap m type"]
  obtain r where r: "stun_find_loop m (unat n) (ms_turn_swap m type) 20 = Some r"
    and rel: "attr_rel (buffer m) (unat n) r (find_attr as (ms_turn_swap m type))"
    by auto
  from rel n(3) have "attr_rel (buffer m) (length (buffer m)) r (find_attr as (ms_turn_swap m type))"
    by (cases "find_attr as (ms_turn_swap m type)") (auto simp: attr_rel_Some)
  with r n(1) show ?thesis by (simp add: stun_message_find_def stun_pos_defs)
qed

text \<open>
  Every typed lookup is a function of the value the abstract lookup gives.  The rule
  \<open>find_cases\<close> splits a lookup into its two outcomes.
\<close>

lemma find_cases:
  assumes "msg_attrs m = Some as"
  obtains (absent) "find_attr as (ms_turn_swap m type) = None"
      and "stun_message_find m type = Some Null"
  | (present) v p l where "find_attr as (ms_turn_swap m type) = Some v"
      and "stun_message_find m type = Some (Ptr (p, l))" and "unat l = length v"
      and "24 \<le> p" and "p + length v \<le> length (buffer m)"
      and "take (length v) (drop p (buffer m)) = v"
  using stun_message_find_spec [OF assms, of type] that
  by (cases "find_attr as (ms_turn_swap m type)") (auto simp: attr_rel_Some)

lemma u16_eq_nat: "(l :: u16) = x \<longleftrightarrow> unat l = unat x"
  by (rule word_eq_iff_unsigned)

lemma rd_bytes_sub:
  assumes "take (length v) (drop p b) = v" and "p + length v \<le> length b" and "i + k \<le> length v"
  shows "rd_bytes b (p + i) k = Some (take k (drop i v))"
proof -
  have "take k (drop i (take (length v) (drop p b))) = take k (drop (p + i) b)"
    using assms(3) by (simp add: drop_take min_def add.commute)
  then have "take k (drop (p + i) b) = take k (drop i v)" by (simp only: assms(1))
  with assms(2,3) show ?thesis by (simp add: rd_bytes_def)
qed

lemma rd8_sub:
  assumes "take (length v) (drop p b) = v" and "p + length v \<le> length b" and "i < length v"
  shows "rd8 b (p + i) = Some (v ! i)"
proof -
  have "take (length v) (drop p b) ! i = b ! (p + i)" using assms(2,3) by simp
  then have "b ! (p + i) = v ! i" by (simp only: assms(1))
  with assms(2,3) show ?thesis by (simp add: rd8_def)
qed

lemma stun_message_find_flag_spec:
  assumes "msg_attrs m = Some as"
  shows "stun_message_find_flag m type = Some (case find_attr as (ms_turn_swap m type) of
      None \<Rightarrow> STUN_MESSAGE_RETURN_NOT_FOUND
    | Some v \<Rightarrow> if v = [] then STUN_MESSAGE_RETURN_SUCCESS else STUN_MESSAGE_RETURN_INVALID)"
  using assms
  by (cases rule: find_cases [of m as type]) (auto simp: stun_message_find_flag_def unat_eq_zero)

lemma stun_message_has_attribute_spec:
  assumes "msg_attrs m = Some as"
  shows "stun_message_has_attribute m type = Some (find_attr as (ms_turn_swap m type) \<noteq> None)"
  using assms
  by (cases rule: find_cases [of m as type]) (auto simp: stun_message_has_attribute_def)

lemma stun_message_find32_spec:
  assumes "msg_attrs m = Some as"
  shows "stun_message_find32 m type x = Some (case find_attr as (ms_turn_swap m type) of
      None \<Rightarrow> (STUN_MESSAGE_RETURN_NOT_FOUND, x)
    | Some v \<Rightarrow> if length v = 4 then (STUN_MESSAGE_RETURN_SUCCESS, Some (be_dec v))
                else (STUN_MESSAGE_RETURN_INVALID, x))"
  using assms
proof (cases rule: find_cases [of m as type])
  case absent
  then show ?thesis by (simp add: stun_message_find32_def)
next
  case (present v p l)
  have "length v = 4 \<Longrightarrow> rd_bytes (buffer m) p 4 = Some v"
    using rd_bytes_sub [OF present(6,5), of 0 4] by simp
  with present show ?thesis by (auto simp: stun_message_find32_def u16_eq_nat)
qed

lemma be_dec_split64:
  assumes "length tab = 8"
  shows "push_bit 32 (ucast (be_dec (take 4 tab) :: u32)) OR ucast (be_dec (drop 4 tab) :: u32)
     = (be_dec tab :: u64)"
proof (rule bit_word_eqI)
  fix i assume "i < LENGTH(64)"
  then have i: "i < 64" by simp
  show "bit (push_bit 32 (ucast (be_dec (take 4 tab) :: u32)) OR
             ucast (be_dec (drop 4 tab) :: u32) :: u64) i = bit (be_dec tab :: u64) i"
  proof (cases "i < 32")
    case True
    then have "i div 8 < 4" by auto
    then have "drop 4 tab ! (3 - i div 8) = tab ! (7 - i div 8)" using assms by simp
    with True i assms show ?thesis by (auto simp: bit_simps bit_be_dec)
  next
    case False
    then obtain j where j: "i = j + 32" by (metis add.commute le_Suc_ex not_less)
    then have "j < 32" using i by simp
    then have "j div 8 < 4" by auto
    then have "take 4 tab ! (3 - j div 8) = tab ! (3 - j div 8)" by simp
    moreover have "(j + 32) div 8 = j div 8 + 4" by simp
    moreover have "(j + 32) mod 8 = j mod 8" using mod_mult_self2 [of j 8 4] by simp
    ultimately show ?thesis
      using \<open>j < 32\<close> assms by (simp add: j bit_simps bit_be_dec)
  qed
qed

lemma stun_message_find64_spec:
  assumes "msg_attrs m = Some as"
  shows "stun_message_find64 m type x = Some (case find_attr as (ms_turn_swap m type) of
      None \<Rightarrow> (STUN_MESSAGE_RETURN_NOT_FOUND, x)
    | Some v \<Rightarrow> if length v = 8 then (STUN_MESSAGE_RETURN_SUCCESS, Some (be_dec v))
                else (STUN_MESSAGE_RETURN_INVALID, x))"
  using assms
proof (cases rule: find_cases [of m as type])
  case absent
  then show ?thesis by (simp add: stun_message_find64_def)
next
  case (present v p l)
  have "length v = 8 \<Longrightarrow> rd_bytes (buffer m) p 8 = Some v"
    using rd_bytes_sub [OF present(6,5), of 0 8] by simp
  with present show ?thesis by (auto simp: stun_message_find64_def u16_eq_nat be_dec_split64)
qed

lemma stun_message_find_string_spec:
  assumes "msg_attrs m = Some as" and "buflen \<le> length buf"
  shows "stun_message_find_string m type buf buflen =
    Some (case find_attr as (ms_turn_swap m type) of
      None \<Rightarrow> (STUN_MESSAGE_RETURN_NOT_FOUND, buf)
    | Some v \<Rightarrow> if buflen \<le> length v then (STUN_MESSAGE_RETURN_NOT_ENOUGH_SPACE, buf)
                else (STUN_MESSAGE_RETURN_SUCCESS, v @ [0] @ drop (length v + 1) buf))"
  using assms(1)
proof (cases rule: find_cases [of m as type])
  case absent
  then show ?thesis by (simp add: stun_message_find_string_def)
next
  case (present v p l)
  have "rd_bytes (buffer m) p (length v) = Some v"
    using rd_bytes_sub [OF present(6,5), of 0 "length v"] by simp
  with present assms(2) show ?thesis
    by (auto simp: stun_message_find_string_def wr_bytes_def)
qed

text \<open>The value of an address attribute as the code reads it.\<close>

definition decode_addr ::
  "bytes \<Rightarrow> sockaddr \<Rightarrow> nat \<Rightarrow> StunMessageReturn \<times> sockaddr \<times> nat" where
  "decode_addr v addr addrlen =
     (if length v < 4 then (STUN_MESSAGE_RETURN_INVALID, addr, addrlen)
      else if v ! 1 = 1 then
        if addrlen < sizeof_sockaddr_in \<or> length v \<noteq> 8
        then (STUN_MESSAGE_RETURN_INVALID, addr, sizeof_sockaddr_in)
        else (STUN_MESSAGE_RETURN_SUCCESS,
              Sock_in (take 2 (drop 2 v)) (drop 4 v), sizeof_sockaddr_in)
      else if v ! 1 = 2 then
        if addrlen < sizeof_sockaddr_in6 \<or> length v \<noteq> 20
        then (STUN_MESSAGE_RETURN_INVALID, addr, sizeof_sockaddr_in6)
        else (STUN_MESSAGE_RETURN_SUCCESS,
              Sock_in6 (take 2 (drop 2 v)) (drop 4 v), sizeof_sockaddr_in6)
      else (STUN_MESSAGE_RETURN_UNSUPPORTED_ADDRESS, addr, addrlen))"

lemma stun_message_find_addr_spec:
  assumes "msg_attrs m = Some as"
  shows "stun_message_find_addr m type addr addrlen =
    Some (case find_attr as (ms_turn_swap m type) of
      None \<Rightarrow> (STUN_MESSAGE_RETURN_NOT_FOUND, addr, addrlen)
    | Some v \<Rightarrow> decode_addr v addr addrlen)"
  using assms
proof (cases rule: find_cases [of m as type])
  case absent
  then show ?thesis by (simp add: stun_message_find_addr_def)
next
  case (present v p l)
  have l: "l < 4 \<longleftrightarrow> length v < 4" "l = 8 \<longleftrightarrow> length v = 8" "l = 20 \<longleftrightarrow> length v = 20"
    using present(3) by (simp_all add: word_less_nat_alt u16_eq_nat)
  have "4 \<le> length v \<Longrightarrow> rd8 (buffer m) (p + 1) = Some (v ! 1)"
    using rd8_sub [OF present(6,5), of 1] by simp
  moreover have "4 \<le> length v \<Longrightarrow> rd_bytes (buffer m) (p + 2) 2 = Some (take 2 (drop 2 v))"
    using rd_bytes_sub [OF present(6,5), of 2 2] by simp
  moreover have "length v = 8 \<Longrightarrow> rd_bytes (buffer m) (p + 4) 4 = Some (drop 4 v)"
    using rd_bytes_sub [OF present(6,5), of 4 4] by simp
  moreover have "length v = 20 \<Longrightarrow> rd_bytes (buffer m) (p + 4) 16 = Some (drop 4 v)"
    using rd_bytes_sub [OF present(6,5), of 4 16] by simp
  ultimately show ?thesis
    using present(1,2) l by (simp add: stun_message_find_addr_def decode_addr_def)
qed

lemma decode_addr_wf:
  "decode_addr v addr n = (STUN_MESSAGE_RETURN_SUCCESS, addr', n') \<Longrightarrow> wf_sockaddr addr'"
  by (auto simp: decode_addr_def split: if_splits)

text \<open>The numeric error code a value encodes, if it encodes one.\<close>

definition decode_error :: "bytes \<Rightarrow> int option" where
  "decode_error v =
     (if length v < 4 \<or> (v ! 2) AND 7 < 3 \<or> 6 < (v ! 2) AND 7 \<or> 99 < v ! 3 then None
      else Some (uint ((v ! 2) AND 7) * 100 + uint (v ! 3)))"

lemma stun_message_find_error_spec:
  assumes "msg_attrs m = Some as"
  shows "stun_message_find_error m code =
    Some (case find_attr as (ms_turn_swap m (stun_attribute_code STUN_ATTRIBUTE_ERROR_CODE)) of
      None \<Rightarrow> (STUN_MESSAGE_RETURN_NOT_FOUND, code)
    | Some v \<Rightarrow> (case decode_error v of
          None \<Rightarrow> (STUN_MESSAGE_RETURN_INVALID, code)
        | Some c \<Rightarrow> (STUN_MESSAGE_RETURN_SUCCESS, Some c)))"
  using assms
proof (cases rule: find_cases [of m as "stun_attribute_code STUN_ATTRIBUTE_ERROR_CODE"])
  case absent
  then show ?thesis by (simp add: stun_message_find_error_def)
next
  case (present v p l)
  have "l < 4 \<longleftrightarrow> length v < 4" using present(3) by (simp add: word_less_nat_alt)
  moreover have "4 \<le> length v \<Longrightarrow> rd8 (buffer m) (p + 2) = Some (v ! 2)"
    using rd8_sub [OF present(6,5), of 2] by simp
  moreover have "4 \<le> length v \<Longrightarrow> rd8 (buffer m) (p + 3) = Some (v ! 3)"
    using rd8_sub [OF present(6,5), of 3] by simp
  ultimately show ?thesis
    using present(1,2) by (simp add: stun_message_find_error_def decode_error_def)
qed

lemmas find_specs =
  stun_message_find_flag_spec stun_message_has_attribute_spec stun_message_find32_spec
  stun_message_find64_spec stun_message_find_addr_spec stun_message_find_error_spec

end
