(* ===== verification/Stun_Append_Spec.thy ===== *)
theory Stun_Append_Spec
  imports Stun_Attr_Spec
begin

unbundle bit_operations_syntax

text \<open>
  What the append operations of \<^verbatim>\<open>stun/stunmessage.c\<close> do to the abstract view: where the
  attribute and its padding fit into the buffer, exactly one attribute is added at the end of
  the list and nothing else changes; where it does not fit, the message is returned as it was.
\<close>

section \<open>The buffer after an append\<close>

lemma wr_bytes_segment:
  "length pre = off \<Longrightarrow> length ys = length xs \<Longrightarrow>
     wr_bytes (pre @ ys @ post) off xs = Some (pre @ xs @ post)"
  by (auto simp: wr_bytes_def)

lemma has_cookie_eq:
  "20 \<le> length (buffer m) \<Longrightarrow>
     stun_message_has_cookie m = Some (take 4 (drop 4 (buffer m)) = be_enc 4 STUN_MAGIC_COOKIE)"
  by (simp add: stun_message_has_cookie_def stun_message_id_def rd_bytes_def stun_pos_defs min_def)

text \<open>The length field that an append writes for a value of \<open>len\<close> bytes.\<close>

definition wire_len :: "StunMessage \<Rightarrow> nat \<Rightarrow> nat" where
  "wire_len m len =
     (if msg_unaligned m \<or> stun_message_has_cookie m = Some True then len else stun_align len)"

definition pad_of :: "StunMessage \<Rightarrow> nat \<Rightarrow> nat" where
  "pad_of m len = attr_size (\<not> msg_unaligned m) len - len"

lemma attr_size_pad_of: "attr_size (\<not> msg_unaligned m) len = len + pad_of m len"
  by (simp add: pad_of_def)

lemma stun_message_append_full:
  assumes "stun_message_length m = Some n"
    and "buffer_len m < unat n + 4 + len"
  shows "stun_message_append m type len = Some (Null, m)"
  using assms by (simp add: stun_message_append_def stun_pos_defs)

lemma stun_message_append_buffer:
  assumes n: "stun_message_length m = Some n" and n20: "20 \<le> unat n"
    and fits: "unat n + 4 + len \<le> buffer_len m"
    and B: "buffer m = h @ l @ mid @ x @ y @ body @ z @ rest"
    and lens: "length h = 2" "length l = 2" "length mid = unat n - 4" "length x = 2"
      "length y = 2" "length body = len" "length z = pad_of m len"
  shows "stun_message_append m type len = Some (Ptr (unat n + 4),
     m\<lparr>buffer := h @ be_enc 2 (n + of_nat (4 + (len + pad_of m len)) - 20) @ mid @
        be_enc 2 (ms_turn_swap m type) @ be_enc 2 (of_nat (wire_len m len) :: u16) @
        body @ replicate (pad_of m len) 0 @ rest\<rparr>)"
proof -
  let ?t = "be_enc 2 (ms_turn_swap m type)" and ?w = "be_enc 2 (of_nat (wire_len m len) :: u16)"
  let ?L = "\<lambda>v. be_enc 2 (v :: u16)"
  have s1: "stun_setw (buffer m) (unat n) (ms_turn_swap m type) =
      Some (h @ l @ mid @ ?t @ y @ body @ z @ rest, unat n + 2)"
    using wr_bytes_segment [of "h @ l @ mid" "unat n" x ?t "y @ body @ z @ rest"] lens n20
    by (simp add: stun_setw_eq B)
  have s2: "stun_setw (h @ l @ mid @ ?t @ y @ body @ z @ rest) (unat n + 2) v =
      Some (h @ l @ mid @ ?t @ ?L v @ body @ z @ rest, unat n + 4)" for v
    using wr_bytes_segment [of "h @ l @ mid @ ?t" "unat n + 2" y "?L v" "body @ z @ rest"] lens n20
    by (simp add: stun_setw_eq)
  have s3: "memset (h @ l @ mid @ ?t @ v @ body @ z @ rest) (unat n + 4 + len) 0 (pad_of m len) =
      Some (h @ l @ mid @ ?t @ v @ body @ replicate (pad_of m len) 0 @ rest)"
    if "length v = 2" for v
    using wr_bytes_segment [of "h @ l @ mid @ ?t @ v @ body" "unat n + 4 + len" z
        "replicate (pad_of m len) 0" rest] lens n20 that
    by (simp add: memset_def)
  have s4: "stun_setw (h @ l @ tail) STUN_MESSAGE_LENGTH_POS v = Some (h @ ?L v @ tail, 4)" for v tail
    using wr_bytes_segment [of h 2 l "?L v" tail] lens
    by (simp add: stun_setw_eq stun_pos_defs)
  have id_eq: "take 16 (drop 4 (h @ l @ mid @ tail)) = take 16 mid" for tail
    using lens n20 by simp
  have ck: "stun_message_has_cookie (m\<lparr>buffer := h @ l @ mid @ ?t @ y @ body @ z @ rest\<rparr>) =
      stun_message_has_cookie m"
    using id_eq lens n20
    by (simp add: stun_message_has_cookie_def stun_message_id_def rd_bytes_def stun_pos_defs B)
  have "20 \<le> length (buffer m)" using lens n20 by (simp add: B)
  then obtain c where c: "stun_message_has_cookie m = Some c"
    by (simp add: has_cookie_eq)
  have pad: "\<not> msg_unaligned m \<Longrightarrow> stun_padding len = pad_of m len"
    "msg_unaligned m \<Longrightarrow> pad_of m len = 0"
    by (simp_all add: pad_of_def attr_size_def stun_align_padding)
  have z0: "pad_of m len = 0 \<Longrightarrow> z = []" using lens by simp
  show ?thesis
  proof (cases "msg_unaligned m")
    case True
    then show ?thesis
      using n fits s1 s2 s4 pad(2) z0
      by (simp add: stun_message_append_def stun_pos_defs(1-6,8-14) wire_len_def)
  next
    case False
    then show ?thesis
      using n fits s1 s2 s3 s4 pad(1) z0 ck c
      by (cases "pad_of m len = 0")
        (simp_all add: stun_message_append_def stun_pos_defs wire_len_def algebra_simps)
  qed
qed

section \<open>The view after an append\<close>

text \<open>
  \<open>append_room m len\<close>: an attribute with a value of \<open>len\<close> bytes and its padding fits into the
  buffer, and the new message length fits into the 16 bits of the length variable.
\<close>

definition append_room :: "StunMessage \<Rightarrow> nat \<Rightarrow> bool" where
  "append_room m len \<longleftrightarrow>
     (case stun_message_length m of None \<Rightarrow> False
      | Some n \<Rightarrow> 20 \<le> unat n \<and>
        unat n + 4 + attr_size (\<not> msg_unaligned m) len \<le> length (buffer m) \<and>
        unat n + 4 + len \<le> buffer_len m \<and>
        unat n + 4 + attr_size (\<not> msg_unaligned m) len < 65536)"

text \<open>
  The value that later lookups see: without the magic cookie the code writes the aligned
  length, so the padding belongs to the value.
\<close>

definition appended_value :: "StunMessage \<Rightarrow> bytes \<Rightarrow> bytes" where
  "appended_value m v = v @ replicate (wire_len m (length v) - length v) 0"

definition same_header :: "StunMessage \<Rightarrow> StunMessage \<Rightarrow> bool" where
  "same_header m m' \<longleftrightarrow>
     agent m' = agent m \<and> buffer_len m' = buffer_len m \<and> msg_key m' = msg_key m \<and>
     long_term_key m' = long_term_key m \<and> long_term_valid m' = long_term_valid m \<and>
     length (buffer m') = length (buffer m) \<and>
     take 2 (buffer m') = take 2 (buffer m) \<and>
     take 16 (drop 4 (buffer m')) = take 16 (drop 4 (buffer m))"

lemma same_header_refl [simp]: "same_header m m"
  by (simp add: same_header_def)

lemma same_header_trans: "same_header a b \<Longrightarrow> same_header b c \<Longrightarrow> same_header a c"
  by (simp add: same_header_def)

lemma split_buffer:
  assumes "20 \<le> n" and "n + 4 + len + k \<le> length B"
  obtains h l mid x y body z rest where "B = h @ l @ mid @ x @ y @ body @ z @ rest"
    and "length h = 2" "length l = 2" "length mid = n - 4" "length x = 2" "length y = 2"
      "length body = len" "length z = k"
    and "take 2 B = h" and "take (n - 4) (drop 4 B) = mid" and "drop (n + 4 + len + k) B = rest"
proof -
  define d where "d = (\<lambda>i k. take k (drop i B))"
  have cut: "d i (a + b) = d i a @ d (i + a) b" for i a b
    by (simp add: d_def take_add add.commute)
  have all: "B = d 0 (n + 4 + len + k) @ drop (n + 4 + len + k) B" by (simp add: d_def)
  have "n + 4 + len + k = 2 + (2 + ((n - 4) + (2 + (2 + (len + k)))))" using assms(1) by simp
  then have "d 0 (n + 4 + len + k) = d 0 2 @ d 2 2 @ d 4 (n - 4) @ d n 2 @ d (n + 2) 2 @
      d (n + 4) len @ d (n + 4 + len) k"
    using assms(1) by (simp only: cut) (simp add: add.commute)
  with all have "B = d 0 2 @ d 2 2 @ d 4 (n - 4) @ d n 2 @ d (n + 2) 2 @ d (n + 4) len @
      d (n + 4 + len) k @ drop (n + 4 + len + k) B" by simp
  then show thesis
    by (rule that) (use assms in \<open>simp_all add: d_def\<close>)
qed

lemma unat_add_of_nat: "unat n + k < 65536 \<Longrightarrow> unat ((n :: u16) + of_nat k) = unat n + k"
  by (simp add: unat_word_ariths)

lemma wire_len_cases: "wire_len m len = len \<or> (\<not> msg_unaligned m \<and> wire_len m len = stun_align len)"
  by (auto simp: wire_len_def)

lemma attr_size_wire_len:
  "attr_size (\<not> msg_unaligned m) (wire_len m len) = attr_size (\<not> msg_unaligned m) len"
  using wire_len_cases [of m len] by (auto simp: attr_size_def stun_align_id)

lemma wire_len_bounds: "len \<le> wire_len m len" "wire_len m len \<le> len + pad_of m len"
  using wire_len_cases [of m len] by (auto simp: pad_of_def attr_size_def)

lemma length_appended_value [simp]: "length (appended_value m v) = wire_len m (length v)"
  using wire_len_bounds(1) [where m = m and len = "length v"] by (simp add: appended_value_def)

lemma appended_chunk:
  "be_enc 2 t @ be_enc 2 (of_nat (wire_len m (length v)) :: u16) @ v @
     replicate (pad_of m (length v)) 0 = encode_attr (\<not> msg_unaligned m) t (appended_value m v)"
proof -
  let ?n = "length v" and ?w = "wire_len m (length v)"
  have "pad_of m ?n = (?w - ?n) + (attr_size (\<not> msg_unaligned m) ?w - ?w)"
    unfolding attr_size_wire_len
    using wire_len_bounds [where m = m and len = ?n] by (simp add: attr_size_pad_of)
  then have "replicate (pad_of m ?n) (0 :: u8) =
      replicate (?w - ?n) 0 @ replicate (attr_size (\<not> msg_unaligned m) ?w - ?w) 0"
    by (simp only: replicate_add)
  then show ?thesis by (simp add: encode_attr_def) (simp add: appended_value_def)
qed

lemma append_then_write:
  assumes as: "msg_attrs m = Some as" and room: "append_room m (length v)"
  obtains p m1 b where "stun_message_append m type (length v) = Some (Ptr p, m1)"
    and "wr_bytes (buffer m1) p v = Some b"
    and "msg_attrs (m1\<lparr>buffer := b\<rparr>) = Some (as @ [(ms_turn_swap m type, appended_value m v)])"
    and "same_header m (m1\<lparr>buffer := b\<rparr>)"
proof -
  let ?k = "pad_of m (length v)" and ?pad = "\<not> msg_unaligned m"
  from room obtain n where n: "stun_message_length m = Some n" and n20: "20 \<le> unat n"
    and r1: "unat n + 4 + length v + ?k \<le> length (buffer m)"
    and r2: "unat n + 4 + length v \<le> buffer_len m" and r3: "unat n + 4 + length v + ?k < 65536"
    by (auto simp: append_room_def attr_size_pad_of split: option.splits)
  from n20 r1 obtain h l mid x y body z rest
    where B: "buffer m = h @ l @ mid @ x @ y @ body @ z @ rest"
      and lens: "length h = 2" "length l = 2" "length mid = unat n - 4" "length x = 2"
        "length y = 2" "length body = length v" "length z = ?k"
    by (rule split_buffer)
  define t where "t = ms_turn_swap m type"
  define newlen where "newlen = n + of_nat (4 + (length v + ?k)) - 20"
  define w where "w = be_enc 2 (of_nat (wire_len m (length v)) :: u16)"
  define m1 where "m1 = m\<lparr>buffer := h @ be_enc 2 newlen @ mid @ be_enc 2 t @ w @ body @
      replicate ?k 0 @ rest\<rparr>"
  define b where "b = h @ be_enc 2 newlen @ mid @ be_enc 2 t @ w @ v @ replicate ?k 0 @ rest"
  have app: "stun_message_append m type (length v) = Some (Ptr (unat n + 4), m1)"
    using stun_message_append_buffer [OF n n20 r2 B lens]
    by (simp add: m1_def t_def newlen_def w_def)
  have wr: "wr_bytes (buffer m1) (unat n + 4) v = Some b"
    using wr_bytes_segment [of "h @ be_enc 2 newlen @ mid @ be_enc 2 t @ w" "unat n + 4" body v
        "replicate ?k 0 @ rest"] lens n20
    by (simp add: m1_def b_def w_def)
  let ?m' = "m1\<lparr>buffer := b\<rparr>"
  have "newlen + 20 = n + of_nat (4 + (length v + ?k))" by (simp only: newlen_def diff_add_cancel)
  then have "unat (newlen + 20) = unat n + 4 + length v + ?k"
    using r3 unat_add_of_nat [of n "4 + (length v + ?k)"] by (simp only: add.assoc)
  moreover have len': "stun_message_length ?m' = Some (newlen + 20)"
    using lens n20
    by (simp add: stun_message_length_def stun_getw_eq stun_pos_defs b_def)
  moreover have un: "msg_unaligned ?m' = msg_unaligned m" by (simp add: msg_unaligned_def m1_def)
  moreover have lb: "length b = length (buffer m)" using lens n20 by (simp add: b_def B w_def)
  moreover have "drop 20 b = drop 16 mid @ be_enc 2 t @ w @ v @ replicate ?k 0 @ rest"
    using lens n20 by (simp add: b_def)
  then have "take (unat n + 4 + length v + ?k - 20) (drop 20 b) =
      drop 16 mid @ encode_attr ?pad t (appended_value m v)"
    using lens n20 appended_chunk [of t m v]
    by (simp add: w_def)
  moreover have "take (unat n - 20) (drop 20 (buffer m)) = drop 16 mid"
    using lens n20 by (simp add: B)
  then have "parse_attrs ?pad (drop 16 mid) = Some as"
    using as n by (auto simp: msg_attrs_def split: if_splits)
  then have "parse_attrs ?pad (drop 16 mid @ encode_attr ?pad t (appended_value m v)) =
      Some (as @ [(t, appended_value m v)])"
    using wire_len_bounds(2) [where m = m and len = "length v"] r3
    by (intro parse_attrs_append parse_encode_attr) simp_all
  ultimately have "msg_attrs ?m' = Some (as @ [(t, appended_value m v)])"
    using r1 n20 by (simp add: msg_attrs_def)
  moreover have "same_header m ?m'"
    using lens n20 lb by (simp add: same_header_def m1_def) (simp add: b_def B)
  ultimately show thesis using that [OF app wr] by (simp add: t_def)
qed

section \<open>The append operations\<close>

lemma wr_bytes_fuse:
  "length xs = k \<Longrightarrow>
     (wr_bytes b p xs \<bind> (\<lambda>b'. wr_bytes b' (p + k) ys)) = wr_bytes b p (xs @ ys)"
proof (cases "p + length xs + length ys \<le> length b")
  case True
  assume "length xs = k"
  with True show ?thesis by (auto simp: wr_bytes_def min_def add_ac)
next
  case False
  assume "length xs = k"
  with False show ?thesis by (auto simp: wr_bytes_def)
qed

lemma wr_bytes_fuse_bind:
  "length xs = k \<Longrightarrow>
     (wr_bytes b p xs \<bind> (\<lambda>b'. wr_bytes b' (p + k) ys \<bind> F)) = (wr_bytes b p (xs @ ys) \<bind> F)"
  by (simp add: wr_bytes_fuse [symmetric, of xs k])

lemma wr_bytes_Nil: "wr_bytes b p [] = Some b' \<Longrightarrow> b' = b"
  by (auto simp: wr_bytes_def split: if_splits)

lemma append_bytes_view:
  assumes "msg_attrs m = Some as" and "append_room m (length v)"
  obtains m' where "stun_message_append_bytes m type v (length v) = Some (STUN_MESSAGE_RETURN_SUCCESS, m')"
    and "msg_attrs m' = Some (as @ [(ms_turn_swap m type, appended_value m v)])"
    and "same_header m m'"
proof -
  obtain p m1 b where *: "stun_message_append m type (length v) = Some (Ptr p, m1)"
    "wr_bytes (buffer m1) p v = Some b"
    "msg_attrs (m1\<lparr>buffer := b\<rparr>) = Some (as @ [(ms_turn_swap m type, appended_value m v)])"
    "same_header m (m1\<lparr>buffer := b\<rparr>)"
    using append_then_write [OF assms] by metis
  have "v = [] \<Longrightarrow> m1\<lparr>buffer := b\<rparr> = m1" using *(2) wr_bytes_Nil by fastforce
  with * have "stun_message_append_bytes m type v (length v) =
      Some (STUN_MESSAGE_RETURN_SUCCESS, m1\<lparr>buffer := b\<rparr>)"
    by (simp add: stun_message_append_bytes_def rd_bytes_def)
  then show thesis using *(3,4) by (rule that)
qed

lemma append_bytes_full:
  assumes "stun_message_length m = Some n" and "buffer_len m < unat n + 4 + len"
  shows "stun_message_append_bytes m type v len = Some (STUN_MESSAGE_RETURN_NOT_ENOUGH_SPACE, m)"
  using stun_message_append_full [OF assms] by (simp add: stun_message_append_bytes_def)

text \<open>The value of an address attribute, as \<open>stun_message_append_addr\<close> writes it.\<close>

fun encode_addr :: "sockaddr \<Rightarrow> bytes" where
  "encode_addr (Sock_in port a) = [0, 1] @ port @ a"
| "encode_addr (Sock_in6 port a) = [0, 2] @ port @ a"
| "encode_addr (Sock_other f) = []"

fun addr_len :: "sockaddr \<Rightarrow> nat" where
  "addr_len (Sock_in port a) = sizeof_sockaddr_in"
| "addr_len (Sock_in6 port a) = sizeof_sockaddr_in6"
| "addr_len (Sock_other f) = sizeof_sockaddr"

fun is_inet :: "sockaddr \<Rightarrow> bool" where
  "is_inet (Sock_other f) \<longleftrightarrow> False"
| "is_inet _ \<longleftrightarrow> True"

lemma decode_encode_addr:
  "wf_sockaddr a \<Longrightarrow> is_inet a \<Longrightarrow> addr_len a \<le> n \<Longrightarrow>
     decode_addr (encode_addr a) old n = (STUN_MESSAGE_RETURN_SUCCESS, a, addr_len a)"
  by (cases a) (auto simp: decode_addr_def sizeof_defs)

lemma length_encode_addr:
  "wf_sockaddr a \<Longrightarrow> is_inet a \<Longrightarrow> length (encode_addr a) = (case a of Sock_in p x \<Rightarrow> 8 | _ \<Rightarrow> 20)"
  by (cases a) auto

lemma appended_value_aligned: "4 dvd length v \<Longrightarrow> appended_value m v = v"
  by (simp add: appended_value_def wire_len_def stun_align_id)

lemma append_addr_view:
  assumes "msg_attrs m = Some as" and "wf_sockaddr a" and "is_inet a" and "addr_len a \<le> n"
    and "append_room m (length (encode_addr a))"
  obtains m' where "stun_message_append_addr m type a n = Some (STUN_MESSAGE_RETURN_SUCCESS, m')"
    and "msg_attrs m' = Some (as @ [(ms_turn_swap m type, encode_addr a)])"
    and "same_header m m'"
proof -
  obtain p m1 b where *: "stun_message_append m type (length (encode_addr a)) = Some (Ptr p, m1)"
    "wr_bytes (buffer m1) p (encode_addr a) = Some b"
    "msg_attrs (m1\<lparr>buffer := b\<rparr>) = Some (as @ [(ms_turn_swap m type, appended_value m (encode_addr a))])"
    "same_header m (m1\<lparr>buffer := b\<rparr>)"
    using append_then_write [OF assms(1,5)] by metis
  have "4 dvd length (encode_addr a)" using assms(2,3) by (cases a) auto
  then have av: "appended_value m (encode_addr a) = encode_addr a" by (rule appended_value_aligned)
  have fuse: "(do { b \<leftarrow> wr_bytes B p [0]; b \<leftarrow> wr_bytes b (p + 1) [f];
                   b \<leftarrow> wr_bytes b (p + 2) port; b \<leftarrow> wr_bytes b (p + 4) pa; F b }) =
      (wr_bytes B p ([0, f] @ port @ pa) \<bind> F)"
    if "length port = 2" for B f port pa and F :: "bytes \<Rightarrow> (StunMessageReturn \<times> StunMessage) option"
    using that
    by (simp add: wr_bytes_fuse_bind [of "[0]" 1] wr_bytes_fuse_bind [of "[0, f]" 2]
        wr_bytes_fuse_bind [of "0 # f # port" 4] del: One_nat_def)
  have "stun_message_append_addr m type a n = Some (STUN_MESSAGE_RETURN_SUCCESS, m1\<lparr>buffer := b\<rparr>)"
    using * assms(2-4) by (cases a) (auto simp: stun_message_append_addr_def fuse [simplified] sizeof_defs)
  then show thesis using *(3,4) av by (simp add: that)
qed

end
