(* ===== verification/Stun_Typed_Attr.thy ===== *)
theory Stun_Typed_Attr
  imports Stun_Append_Spec
begin

unbundle bit_operations_syntax

text \<open>
  The contract shared by the pairs of append and find operations: an append of a value that
  fits adds one attribute that the matching find decodes to the same value, and it disturbs no
  other lookup.  The contract is the locale \<open>typed_attr\<close>; the operations of
  \<^verbatim>\<open>stun/stunmessage.c\<close> on 32-bit and 64-bit integers, flags, strings, addresses and masked
  addresses are its interpretations.
\<close>

section \<open>Lookups in a list that grows at the end\<close>

text \<open>An attribute list that neither MESSAGE-INTEGRITY nor FINGERPRINT closes.\<close>

definition open_attrs :: "(u16 \<times> bytes) list \<Rightarrow> bool" where
  "open_attrs as \<longleftrightarrow>
     stun_attribute_code STUN_ATTRIBUTE_MESSAGE_INTEGRITY \<notin> fst ` set as \<and>
     stun_attribute_code STUN_ATTRIBUTE_FINGERPRINT \<notin> fst ` set as"

lemma open_attrs_Nil [simp]: "open_attrs []"
  by (simp add: open_attrs_def)

lemma open_attrs_Cons: "open_attrs ((t, v) # as) \<longleftrightarrow>
    t \<noteq> stun_attribute_code STUN_ATTRIBUTE_MESSAGE_INTEGRITY \<and>
    t \<noteq> stun_attribute_code STUN_ATTRIBUTE_FINGERPRINT \<and> open_attrs as"
  by (auto simp: open_attrs_def)

lemma find_attr_snoc_other: "t \<noteq> a \<Longrightarrow> find_attr (as @ [(a, v)]) t = find_attr as t"
  by (induction as t rule: find_attr.induct) auto

lemma find_attr_snoc_kept: "find_attr as t = Some w \<Longrightarrow> find_attr (as @ bs) t = Some w"
  by (induction as t rule: find_attr.induct) (auto split: if_splits)

lemma find_attr_snoc_new:
  "open_attrs as \<Longrightarrow> find_attr as t = None \<Longrightarrow> find_attr (as @ [(t, v)]) t = Some v"
  by (induction as t rule: find_attr.induct) (auto simp: open_attrs_Cons split: if_splits)

lemma ms_turn_swap_inj [simp]: "ms_turn_swap m t = ms_turn_swap m t' \<longleftrightarrow> t = t'"
  by (auto simp: ms_turn_swap_def split: ptr.splits)

lemma same_headerD:
  assumes "same_header m m'"
  shows "ms_turn_swap m' = ms_turn_swap m" and "msg_unaligned m' = msg_unaligned m"
    and "20 \<le> length (buffer m) \<Longrightarrow> stun_message_has_cookie m' = stun_message_has_cookie m"
    and "20 \<le> length (buffer m) \<Longrightarrow> wire_len m' = wire_len m"
proof -
  show 1: "ms_turn_swap m' = ms_turn_swap m" and 2: "msg_unaligned m' = msg_unaligned m"
    using assms by (auto simp: same_header_def ms_turn_swap_def msg_unaligned_def fun_eq_iff)
  show 3: "20 \<le> length (buffer m) \<Longrightarrow> stun_message_has_cookie m' = stun_message_has_cookie m"
    using assms by (simp add: same_header_def stun_message_has_cookie_def stun_message_id_def
        rd_bytes_def stun_pos_defs)
  show "20 \<le> length (buffer m) \<Longrightarrow> wire_len m' = wire_len m"
    using 2 3 by (auto simp: wire_len_def fun_eq_iff)
qed

lemma msg_attrs_length_ge: "msg_attrs m = Some as \<Longrightarrow> 20 \<le> length (buffer m)"
  by (auto elim!: msg_attrs_SomeE)

section \<open>The contract\<close>

locale typed_attr =
  fixes put :: "StunMessage \<Rightarrow> u16 \<Rightarrow> 'v \<Rightarrow> (StunMessageReturn \<times> StunMessage) option"
    and get :: "StunMessage \<Rightarrow> u16 \<Rightarrow> (StunMessageReturn \<times> 'v option) option"
    and enc :: "StunMessage \<Rightarrow> 'v \<Rightarrow> bytes"
    and ok :: "StunMessage \<Rightarrow> 'v \<Rightarrow> bool"
  assumes put_adds: "msg_attrs m = Some as \<Longrightarrow> ok m v \<Longrightarrow> append_room m (length (enc m v)) \<Longrightarrow>
      \<exists>m'. put m t v = Some (STUN_MESSAGE_RETURN_SUCCESS, m') \<and> same_header m m' \<and>
        msg_attrs m' = Some (as @ [(ms_turn_swap m t, appended_value m (enc m v))])"
    and get_reads: "msg_attrs m' = Some as \<Longrightarrow> same_header m m' \<Longrightarrow> ok m v \<Longrightarrow>
      find_attr as (ms_turn_swap m t) = Some (appended_value m (enc m v)) \<Longrightarrow>
      get m' t = Some (STUN_MESSAGE_RETURN_SUCCESS, Some v)"
begin

lemma put_get:
  assumes "msg_attrs m = Some as" "ok m v" "append_room m (length (enc m v))"
    and "open_attrs as" "find_attr as (ms_turn_swap m t) = None"
  obtains m' where "put m t v = Some (STUN_MESSAGE_RETURN_SUCCESS, m')" and "same_header m m'"
    and "get m' t = Some (STUN_MESSAGE_RETURN_SUCCESS, Some v)"
proof -
  from put_adds [OF assms(1-3)] obtain m' where m': "put m t v = Some (STUN_MESSAGE_RETURN_SUCCESS, m')"
    "same_header m m'" "msg_attrs m' = Some (as @ [(ms_turn_swap m t, appended_value m (enc m v))])"
    by blast
  show thesis
    by (rule that [OF m'(1,2) get_reads [OF m'(3,2) assms(2)]])
      (rule find_attr_snoc_new [OF assms(4,5)])
qed

lemma put_frame:
  assumes "msg_attrs m = Some as" "ok m v" "append_room m (length (enc m v))" and "t' \<noteq> t"
  obtains m' as' where "put m t v = Some (STUN_MESSAGE_RETURN_SUCCESS, m')" and "same_header m m'"
    and "msg_attrs m' = Some as'"
    and "find_attr as' (ms_turn_swap m' t') = find_attr as (ms_turn_swap m t')"
proof -
  from put_adds [OF assms(1-3)] obtain m' where m': "put m t v = Some (STUN_MESSAGE_RETURN_SUCCESS, m')"
    "same_header m m'" "msg_attrs m' = Some (as @ [(ms_turn_swap m t, appended_value m (enc m v))])"
    by blast
  with assms(4) show thesis
    by (intro that [OF m'(1-3)]) (simp add: same_headerD find_attr_snoc_other)
qed

lemma put_put_get:
  assumes "msg_attrs m = Some as" "ok m v" "append_room m (length (enc m v))"
    and "open_attrs as" "find_attr as (ms_turn_swap m t) = None"
    and "\<And>m1. put m t v = Some (STUN_MESSAGE_RETURN_SUCCESS, m1) \<Longrightarrow>
           ok m1 w \<and> append_room m1 (length (enc m1 w))"
  obtains m1 m2 where "put m t v = Some (STUN_MESSAGE_RETURN_SUCCESS, m1)"
    and "put m1 u w = Some (STUN_MESSAGE_RETURN_SUCCESS, m2)"
    and "get m2 t = Some (STUN_MESSAGE_RETURN_SUCCESS, Some v)"
proof -
  from put_adds [OF assms(1-3)] obtain m1 where m1: "put m t v = Some (STUN_MESSAGE_RETURN_SUCCESS, m1)"
    "same_header m m1" "msg_attrs m1 = Some (as @ [(ms_turn_swap m t, appended_value m (enc m v))])"
    by blast
  from assms(6) [OF m1(1)] put_adds [OF m1(3), of w u]
  obtain m2 bs where m2: "put m1 u w = Some (STUN_MESSAGE_RETURN_SUCCESS, m2)" "same_header m1 m2"
    "msg_attrs m2 = Some ((as @ [(ms_turn_swap m t, appended_value m (enc m v))]) @ bs)"
    by blast
  show thesis
    by (rule that [OF m1(1) m2(1) get_reads [OF m2(3) same_header_trans [OF m1(2) m2(2)] assms(2)]])
      (rule find_attr_snoc_kept [OF find_attr_snoc_new [OF assms(4,5)]])
qed

end

section \<open>The operations that implement it\<close>

lemma be_enc_split64: "be_enc 4 (ucast (drop_bit 32 v) :: u32) @ be_enc 4 (ucast (v :: u64) :: u32) = be_enc 8 v"
proof (rule nth_equalityI)
  fix i assume "i < length (be_enc 4 (ucast (drop_bit 32 v) :: u32) @ be_enc 4 (ucast v :: u32))"
  then have i: "i < 8" by simp
  show "(be_enc 4 (ucast (drop_bit 32 v) :: u32) @ be_enc 4 (ucast v :: u32)) ! i = be_enc 8 v ! i"
  proof (cases "i < 4")
    case True
    then have "8 * (3 - i) + 32 = 8 * (7 - i)" by simp
    with True show ?thesis
      by (intro bit_word_eqI) (auto simp: nth_append be_enc_nth bit_simps add.commute add.left_commute)
  next
    case False
    with i have "7 - i = 3 - (i - 4)" by simp
    with False i show ?thesis
      by (intro bit_word_eqI) (auto simp: nth_append be_enc_nth bit_simps)
  qed
qed simp

lemma append_bytes_adds:
  assumes "msg_attrs m = Some as" and "append_room m (length v)"
  shows "\<exists>m'. stun_message_append_bytes m t v (length v) = Some (STUN_MESSAGE_RETURN_SUCCESS, m') \<and>
     same_header m m' \<and> msg_attrs m' = Some (as @ [(ms_turn_swap m t, appended_value m v)])"
  using append_bytes_view [OF assms, of t] by metis

lemma append_bytes_adds_n:
  assumes "length v = n" and "msg_attrs m = Some as" and "append_room m n"
  shows "\<exists>m'. stun_message_append_bytes m t v n = Some (STUN_MESSAGE_RETURN_SUCCESS, m') \<and>
     same_header m m' \<and> msg_attrs m' = Some (as @ [(ms_turn_swap m t, appended_value m v)])"
  using append_bytes_adds [of m as v t] assms by simp

interpretation attr32: typed_attr stun_message_append32 "\<lambda>m t. stun_message_find32 m t None"
    "\<lambda>m. be_enc 4" "\<lambda>m v. True"
proof unfold_locales
  fix m as t and v :: u32
  assume "msg_attrs m = Some as" "append_room m (length (be_enc 4 v))"
  then show "\<exists>m'. stun_message_append32 m t v = Some (STUN_MESSAGE_RETURN_SUCCESS, m') \<and> same_header m m' \<and>
        msg_attrs m' = Some (as @ [(ms_turn_swap m t, appended_value m (be_enc 4 v))])"
    unfolding stun_message_append32_def by (intro append_bytes_adds_n) simp_all
next
  fix m m' as t and v :: u32
  assume "msg_attrs m' = Some as" "same_header m m'"
    "find_attr as (ms_turn_swap m t) = Some (appended_value m (be_enc 4 v))"
  then show "stun_message_find32 m' t None = Some (STUN_MESSAGE_RETURN_SUCCESS, Some v)"
    by (simp add: stun_message_find32_spec same_headerD appended_value_aligned)
qed

interpretation attr64: typed_attr stun_message_append64 "\<lambda>m t. stun_message_find64 m t None"
    "\<lambda>m. be_enc 8" "\<lambda>m v. True"
proof unfold_locales
  fix m as t and v :: u64
  assume "msg_attrs m = Some as" "append_room m (length (be_enc 8 v))"
  then show "\<exists>m'. stun_message_append64 m t v = Some (STUN_MESSAGE_RETURN_SUCCESS, m') \<and> same_header m m' \<and>
        msg_attrs m' = Some (as @ [(ms_turn_swap m t, appended_value m (be_enc 8 v))])"
    unfolding stun_message_append64_def be_enc_split64 by (intro append_bytes_adds_n) simp_all
next
  fix m m' as t and v :: u64
  assume "msg_attrs m' = Some as" "same_header m m'"
    "find_attr as (ms_turn_swap m t) = Some (appended_value m (be_enc 8 v))"
  then show "stun_message_find64 m' t None = Some (STUN_MESSAGE_RETURN_SUCCESS, Some v)"
    by (simp add: stun_message_find64_spec same_headerD appended_value_aligned)
qed

text \<open>A flag carries no value; finding it reports only its presence.\<close>

interpretation attr_flag: typed_attr "\<lambda>m t (u :: unit). stun_message_append_flag m t"
    "\<lambda>m t. map_option (\<lambda>r. (r, Some ())) (stun_message_find_flag m t)" "\<lambda>m u. []" "\<lambda>m u. True"
proof unfold_locales
  fix m as t and v :: unit
  assume "msg_attrs m = Some as" "append_room m (length ([] :: bytes))"
  then show "\<exists>m'. stun_message_append_flag m t = Some (STUN_MESSAGE_RETURN_SUCCESS, m') \<and> same_header m m' \<and>
        msg_attrs m' = Some (as @ [(ms_turn_swap m t, appended_value m [])])"
    unfolding stun_message_append_flag_def by (intro append_bytes_adds_n) simp_all
next
  fix m m' as t and v :: unit
  assume "msg_attrs m' = Some as" "same_header m m'"
    "find_attr as (ms_turn_swap m t) = Some (appended_value m [])"
  then show "map_option (\<lambda>r. (r, Some ())) (stun_message_find_flag m' t) =
      Some (STUN_MESSAGE_RETURN_SUCCESS, Some v)"
    by (simp add: stun_message_find_flag_spec same_headerD appended_value_aligned)
qed

text \<open>
  A string is a run of non-zero bytes with a terminating zero.  Zero bytes of padding that the
  aligned length field of RFC 3489 adds to the value end the string where the caller's string
  ended.
\<close>

definition get_string :: "nat \<Rightarrow> StunMessage \<Rightarrow> u16 \<Rightarrow> (StunMessageReturn \<times> bytes option) option" where
  "get_string n m t = do {
     (r, buf) \<leftarrow> stun_message_find_string m t (replicate n 0) n;
     len \<leftarrow> strlen buf;
     Some (r, Some (take len buf))
   }"

lemma takeWhile_nonzero: "0 \<notin> set v \<Longrightarrow> takeWhile (\<lambda>c. c \<noteq> 0) (v @ (0 :: u8) # w) = v"
  by (induction v) auto

lemma strlen_append: "0 \<notin> set v \<Longrightarrow> strlen (v @ 0 # w) = Some (length v)"
  by (simp add: strlen_def takeWhile_nonzero)

lemma strlen_find_string:
  "0 \<notin> set v \<Longrightarrow> strlen (v @ replicate k 0 @ 0 # w) = Some (length v)"
  using strlen_append [of v "replicate (k - 1) 0 @ 0 # w"] strlen_append [of v w]
  by (cases k) simp_all

lemma append_bytes_prefix:
  "stun_message_append_bytes m t (v @ w) (length v) = stun_message_append_bytes m t v (length v)"
proof -
  have "rd_bytes (v @ w) 0 (length v) = rd_bytes v 0 (length v)" by (simp add: rd_bytes_def)
  then show ?thesis unfolding stun_message_append_bytes_def by (simp only:)
qed

interpretation attr_string: typed_attr "\<lambda>m t v. stun_message_append_string m t (v @ [0])"
    "get_string n" "\<lambda>m v. v" "\<lambda>m v. 0 \<notin> set v \<and> wire_len m (length v) < n" for n
proof unfold_locales
  fix m as t and v :: bytes
  assume "msg_attrs m = Some as" "append_room m (length v)" "0 \<notin> set v \<and> wire_len m (length v) < n"
  then show "\<exists>m'. stun_message_append_string m t (v @ [0]) = Some (STUN_MESSAGE_RETURN_SUCCESS, m') \<and>
      same_header m m' \<and> msg_attrs m' = Some (as @ [(ms_turn_swap m t, appended_value m v)])"
    using append_bytes_adds [of m as v t]
    by (simp add: stun_message_append_string_def strlen_append append_bytes_prefix)
next
  fix m m' as t and v :: bytes
  assume m': "msg_attrs m' = Some as" "same_header m m'"
    and ok: "0 \<notin> set v \<and> wire_len m (length v) < n"
    and f: "find_attr as (ms_turn_swap m t) = Some (appended_value m v)"
  then show "get_string n m' t = Some (STUN_MESSAGE_RETURN_SUCCESS, Some v)"
    by (simp add: get_string_def stun_message_find_string_spec same_headerD)
      (simp add: appended_value_def strlen_find_string wire_len_bounds)
qed

section \<open>Addresses\<close>

lemma find_addr_reads:
  assumes "msg_attrs m = Some as" "wf_sockaddr a" "is_inet a" "addr_len a \<le> n"
    and "find_attr as (ms_turn_swap m t) = Some (encode_addr a)"
  shows "stun_message_find_addr m t old n = Some (STUN_MESSAGE_RETURN_SUCCESS, a, addr_len a)"
  using assms by (simp add: stun_message_find_addr_spec decode_encode_addr)

lemma encode_addr_aligned: "wf_sockaddr a \<Longrightarrow> is_inet a \<Longrightarrow> 4 dvd length (encode_addr a)"
  by (cases a) auto

interpretation attr_addr: typed_attr "\<lambda>m t a. stun_message_append_addr m t a (addr_len a)"
    "\<lambda>m t. map_option (\<lambda>(r, a, n). (r, Some a))
       (stun_message_find_addr m t old sizeof_sockaddr_storage)"
    "\<lambda>m. encode_addr" "\<lambda>m a. wf_sockaddr a \<and> is_inet a" for old
proof unfold_locales
  fix m as t a
  assume a: "msg_attrs m = Some as" "append_room m (length (encode_addr a))" "wf_sockaddr a \<and> is_inet a"
  then have "appended_value m (encode_addr a) = encode_addr a"
    by (simp add: appended_value_aligned encode_addr_aligned)
  then show "\<exists>m'. stun_message_append_addr m t a (addr_len a) = Some (STUN_MESSAGE_RETURN_SUCCESS, m') \<and>
      same_header m m' \<and>
      msg_attrs m' = Some (as @ [(ms_turn_swap m t, appended_value m (encode_addr a))])"
    using append_addr_view [of m as a "addr_len a" t] a by (metis order_refl)
next
  fix m m' as t a
  assume "msg_attrs m' = Some as" "same_header m m'" "wf_sockaddr a \<and> is_inet a"
    "find_attr as (ms_turn_swap m t) = Some (appended_value m (encode_addr a))"
  moreover have "addr_len a \<le> sizeof_sockaddr_storage" by (cases a) (auto simp: sizeof_defs)
  ultimately show "map_option (\<lambda>(r, a, n). (r, Some a))
      (stun_message_find_addr m' t old sizeof_sockaddr_storage) = Some (STUN_MESSAGE_RETURN_SUCCESS, Some a)"
    using find_addr_reads [of m' as a]
    by (simp add: same_headerD appended_value_aligned encode_addr_aligned)
qed

text \<open>The mask of an address, and what is on the wire for a masked address.\<close>

definition mask_addr :: "StunMessage \<Rightarrow> u32 \<Rightarrow> sockaddr \<Rightarrow> sockaddr" where
  "mask_addr m k a = (case stun_xor_address m a (addr_len a) k of Some (r, a') \<Rightarrow> a' | None \<Rightarrow> a)"

lemma mask_addr_shape:
  assumes "20 \<le> length (buffer m)" "wf_sockaddr a" "is_inet a"
  shows "stun_xor_address m a (addr_len a) k = Some (STUN_MESSAGE_RETURN_SUCCESS, mask_addr m k a)"
    and "wf_sockaddr (mask_addr m k a)" and "is_inet (mask_addr m k a)"
    and "addr_len (mask_addr m k a) = addr_len a"
  using assms by (cases a; simp add: mask_addr_def sizeof_defs rd_bytes_def)+

interpretation attr_xor_addr: typed_attr "\<lambda>m t a. stun_message_append_xor_addr_full m t a (addr_len a) k"
    "\<lambda>m t. map_option (\<lambda>(r, a, n). (r, Some a))
       (stun_message_find_xor_addr_full m t old sizeof_sockaddr_storage k)"
    "\<lambda>m a. encode_addr (mask_addr m k a)" "\<lambda>m a. wf_sockaddr a \<and> is_inet a" for old k
proof unfold_locales
  fix m as t a
  assume a: "msg_attrs m = Some as" "append_room m (length (encode_addr (mask_addr m k a)))"
    "wf_sockaddr a \<and> is_inet a"
  note s = mask_addr_shape [OF msg_attrs_length_ge [OF a(1)], of a k]
  have n: "2 \<le> addr_len a" "addr_len a \<le> sizeof_sockaddr_storage"
    by (cases a; simp add: sizeof_defs)+
  from a s have "\<exists>m'. stun_message_append_addr m t (mask_addr m k a) (addr_len a) =
        Some (STUN_MESSAGE_RETURN_SUCCESS, m') \<and> same_header m m' \<and>
      msg_attrs m' = Some (as @ [(ms_turn_swap m t, appended_value m (encode_addr (mask_addr m k a)))])"
    using attr_addr.put_adds [of m as "mask_addr m k a" t] by simp
  then show "\<exists>m'. stun_message_append_xor_addr_full m t a (addr_len a) k =
        Some (STUN_MESSAGE_RETURN_SUCCESS, m') \<and> same_header m m' \<and>
      msg_attrs m' = Some (as @ [(ms_turn_swap m t, appended_value m (encode_addr (mask_addr m k a)))])"
    using a(3) s n by (simp add: stun_message_append_xor_addr_full_def)
next
  fix m m' as t a
  assume a: "msg_attrs m' = Some as" "same_header m m'" "wf_sockaddr a \<and> is_inet a"
    "find_attr as (ms_turn_swap m t) = Some (appended_value m (encode_addr (mask_addr m k a)))"
  have len: "20 \<le> length (buffer m)" "20 \<le> length (buffer m')"
    using msg_attrs_length_ge [OF a(1)] a(2) by (simp_all add: same_header_def)
  note s = mask_addr_shape [OF len(1), of a k]
  from a s have "find_attr as (ms_turn_swap m' t) = Some (encode_addr (mask_addr m k a))"
    by (simp add: same_headerD appended_value_aligned encode_addr_aligned)
  moreover have "addr_len a \<le> sizeof_sockaddr_storage" by (cases a) (auto simp: sizeof_defs)
  ultimately have "stun_message_find_addr m' t old sizeof_sockaddr_storage =
      Some (STUN_MESSAGE_RETURN_SUCCESS, mask_addr m k a, addr_len a)"
    using find_addr_reads [of m' as "mask_addr m k a"] a s by simp
  moreover have "stun_xor_address m' (mask_addr m k a) (addr_len a) k = Some (STUN_MESSAGE_RETURN_SUCCESS, a)"
    using stun_xor_address_twice [OF s(1)] a len by (simp add: same_header_def)
  ultimately show "map_option (\<lambda>(r, a, n). (r, Some a))
      (stun_message_find_xor_addr_full m' t old sizeof_sockaddr_storage k) =
      Some (STUN_MESSAGE_RETURN_SUCCESS, Some a)"
    by (simp add: stun_message_find_xor_addr_full_def)
qed

text \<open>The two operations without a cookie argument use the magic cookie of RFC 5389.\<close>

lemma xor_addr_magic:
  "stun_message_append_xor_addr m t a n = stun_message_append_xor_addr_full m t a n STUN_MAGIC_COOKIE"
  "stun_message_find_xor_addr m t a n = stun_message_find_xor_addr_full m t a n STUN_MAGIC_COOKIE"
  by (simp_all add: stun_message_append_xor_addr_def stun_message_append_xor_addr_full_def
      stun_message_find_xor_addr_def stun_message_find_xor_addr_full_def)

section \<open>Error codes\<close>

definition encode_error :: "StunError \<Rightarrow> bytes" where
  "encode_error code =
     [0, 0, of_nat (stun_error_code code div 100), of_nat (stun_error_code code mod 100)] @
     ascii (stun_strerror code)"

lemma length_encode_error: "length (encode_error code) = 4 + length (stun_strerror code)"
  by (simp add: encode_error_def)

lemma append_error_adds:
  assumes "msg_attrs m = Some as" and "append_room m (length (encode_error code))"
  shows "\<exists>m'. stun_message_append_error m code = Some (STUN_MESSAGE_RETURN_SUCCESS, m') \<and>
     same_header m m' \<and>
     msg_attrs m' = Some (as @ [(ms_turn_swap m (stun_attribute_code STUN_ATTRIBUTE_ERROR_CODE),
                                 appended_value m (encode_error code))])"
proof -
  let ?t = "stun_attribute_code STUN_ATTRIBUTE_ERROR_CODE" and ?s = "ascii (stun_strerror code)"
  define c1 c2 :: u8 where "c1 = of_nat (stun_error_code code div 100)"
    and "c2 = of_nat (stun_error_code code mod 100)"
  obtain p m1 b where *: "stun_message_append m ?t (length (encode_error code)) = Some (Ptr p, m1)"
    "wr_bytes (buffer m1) p (encode_error code) = Some b"
    "msg_attrs (m1\<lparr>buffer := b\<rparr>) = Some (as @ [(ms_turn_swap m ?t, appended_value m (encode_error code))])"
    "same_header m (m1\<lparr>buffer := b\<rparr>)"
    using append_then_write [OF assms] by metis
  have two: "replicate 2 0 = [0 :: u8, 0]" by (simp add: numeral_2_eq_2)
  have fuse: "(do { b \<leftarrow> memset B p 0 2; b \<leftarrow> wr_bytes b (p + 2) [c1];
                   b \<leftarrow> wr_bytes b (p + 3) [c2]; b \<leftarrow> wr_bytes b (p + 4) ?s; F b }) =
      (wr_bytes B p (encode_error code) \<bind> F)"
    for B and F :: "bytes \<Rightarrow> (StunMessageReturn \<times> StunMessage) option"
    by (simp add: memset_def two encode_error_def c1_def [symmetric] c2_def [symmetric]
        wr_bytes_fuse_bind [of "[0, 0]" 2] wr_bytes_fuse_bind [of "[0, 0, x]" 3 for x]
        wr_bytes_fuse_bind [of "[0, 0, x, y]" 4 for x y])
  have "stun_message_append m ?t (4 + length ?s) = Some (Ptr p, m1)"
    using *(1) by (simp add: length_encode_error)
  then have "stun_message_append_error m code = Some (STUN_MESSAGE_RETURN_SUCCESS, m1\<lparr>buffer := b\<rparr>)"
    using *(2) by (simp add: stun_message_append_error_def fuse
        c1_def [symmetric] c2_def [symmetric] del: length_ascii)
  with *(3,4) show ?thesis by blast
qed

lemma decode_encode_error:
  "decode_error (appended_value m (encode_error code)) = Some (int (stun_error_code code))"
  by (cases code) (simp_all add: decode_error_def encode_error_def appended_value_def nth_append)

end
