(* ===== verification/Stun_Header_Spec.thy ===== *)
theory Stun_Header_Spec
  imports Stun_Typed_Attr
begin

unbundle bit_operations_syntax

text \<open>
  The header of a message: the packed type field, the transaction identifier and the length,
  as \<open>stun_message_init\<close> writes them and the accessors read them back, and the checks of a
  received buffer, contiguous or split over several pieces.
\<close>

section \<open>The type field\<close>

definition type_field :: "StunClass \<Rightarrow> u16 \<Rightarrow> u16" where
  "type_field c m = be_dec
     [ucast (drop_bit 1 (stun_class_code c) OR (drop_bit 6 m AND 0x3e)),
      ucast ((push_bit 4 (stun_class_code c) AND 0x10) OR (push_bit 1 m AND 0xe0) OR (m AND 0x0f))]"

lemma less_16_cases:
  assumes "(i::nat) < 16"
  obtains q r where "i = 4 * q + r" and "q = 0 \<or> q = 1 \<or> q = 2 \<or> q = 3"
    and "r = 0 \<or> r = 1 \<or> r = 2 \<or> r = 3"
proof (rule that)
  show "i = 4 * (i div 4) + i mod 4" by simp
  show "i div 4 = 0 \<or> i div 4 = 1 \<or> i div 4 = 2 \<or> i div 4 = 3"
    using assms by (intro less_4_cases) (simp add: less_mult_imp_div_less)
  show "i mod 4 = 0 \<or> i mod 4 = 1 \<or> i mod 4 = 2 \<or> i mod 4 = 3"
    by (intro less_4_cases) simp
qed

lemma bit_type_field:
  assumes "i < 16"
  shows "bit (type_field c m) i \<longleftrightarrow>
    (if i < 4 then bit m i else if i = 4 then bit (stun_class_code c) 0
     else if i < 8 then bit m (i - 1) else if i = 8 then bit (stun_class_code c) 1
     else i < 14 \<and> bit m (i - 2))"
  by (rule less_16_cases [OF assms]; elim disjE; cases c; simp add: type_field_def bit_be_dec bit_simps bit_numeral_rec
      mult.commute [of m 2])


lemma method_high_bits:
  assumes "(m :: u16) < 0x1000" and "12 \<le> i"
  shows "\<not> bit m i"
proof
  assume "bit m i"
  then have "odd (unat m div 2 ^ i)" by (simp add: bit_nat_iff bit_unsigned_iff flip: bit_iff_odd)
  moreover have "unat m < 2 ^ 12" using assms(1) by (simp add: word_less_nat_alt)
  then have "unat m < 2 ^ i" using assms(2) by (meson less_le_trans one_le_numeral power_increasing)
  ultimately show False by simp
qed

lemma type_field_0115: "m < 0x1000 \<Longrightarrow> type_field c m = 0x0115 \<longleftrightarrow> c = STUN_ERROR \<and> m = 5"
proof
  assume m: "m < 0x1000" and eq: "type_field c m = 0x0115"
  have b: "bit (type_field c m) i = bit (0x0115 :: u16) i" for i by (simp add: eq)
  note hi = method_high_bits [OF m]
  have "m = 5"
  proof (rule bit_word_eqI)
    fix i assume "i < LENGTH(16)"
    then have "i < 16" by simp
    show "bit m i = bit (5 :: u16) i"
      using hi b [of 0] b [of 1] b [of 2] b [of 3] b [of 5] b [of 6]
        b [of 7] b [of 9] b [of 10] b [of 11] b [of 12] b [of 13]
      by - (rule less_16_cases [OF \<open>i < 16\<close>]; elim disjE; simp add: bit_type_field bit_numeral_rec)
  qed
  moreover have "c = STUN_ERROR"
    using b [of 4] b [of 8] by (cases c) (simp_all add: bit_type_field bit_numeral_rec bit_1_iff)
  ultimately show "c = STUN_ERROR \<and> m = 5" by simp
next
  assume "c = STUN_ERROR \<and> m = 5"
  then show "type_field c m = 0x0115" by (simp add: type_field_def be_dec_def)
qed

lemma type_field_method:
  assumes "m < 0x1000" and "t = type_field c m"
  shows "drop_bit 2 (t AND 0x3e00) OR drop_bit 1 (t AND 0x00e0) OR (t AND 0x000f) = m"
proof (rule bit_word_eqI)
  fix i assume "i < LENGTH(16)"
  then have "i < 16" by simp
  note hi = method_high_bits [OF assms(1)]
  show "bit (drop_bit 2 (t AND 0x3e00) OR drop_bit 1 (t AND 0x00e0) OR (t AND 0x000f)) i = bit m i"
    using hi
    by - (rule less_16_cases [OF \<open>i < 16\<close>]; elim disjE; simp add: assms(2) bit_simps bit_type_field bit_numeral_rec)
qed

lemma type_field_class:
  "class_of_code (drop_bit 7 (type_field c m AND 0x0100) OR drop_bit 4 (type_field c m AND 0x0010)) = c"
proof -
  have "drop_bit 7 (type_field c m AND 0x0100) OR drop_bit 4 (type_field c m AND 0x0010) = stun_class_code c"
    (is "?w = _")
  proof (rule bit_word_eqI)
    fix i assume "i < LENGTH(16)"
    then have "i < 16" by simp
    show "bit ?w i = bit (stun_class_code c) i"
      by (rule less_16_cases [OF \<open>i < 16\<close>]; elim disjE; cases c; simp add: bit_simps bit_type_field bit_numeral_rec)
  qed
  then show ?thesis by (cases c) (simp_all add: class_of_code_def)
qed

section \<open>A fresh message\<close>

lemma stun_message_init_buffer:
  assumes "20 \<le> buffer_len msg" and "20 \<le> length (buffer msg)" and "16 \<le> length tid"
  shows "stun_message_init msg c m tid = Some (True,
    msg\<lparr>buffer := be_enc 2 (type_field c m) @ [0, 0] @ take 16 tid @ drop 20 (buffer msg)\<rparr>)"
proof -
  define x0 x1 :: u8 where "x0 = ucast (drop_bit 1 (stun_class_code c) OR (drop_bit 6 m AND 0x3e))"
    and "x1 = ucast ((push_bit 4 (stun_class_code c) AND 0x10) OR (push_bit 1 m AND 0xe0) OR (m AND 0x0f))"
  have tf: "be_enc 2 (type_field c m) = [x0, x1]"
    by (simp add: type_field_def x0_def x1_def be_enc_dec)
  obtain a r where B: "buffer msg = a @ r" and a: "length a = 20"
    by (metis append_take_drop_id assms(2) length_take min_absorb2)
  obtain a0 a1 a2 a3 i where A: "a = [a0, a1] @ [a2, a3] @ i" and i: "length i = 16"
    using a by (auto simp: numeral_eq_Suc length_Suc_conv)
  have s1: "memset (buffer msg) 0 0 4 = Some ([0, 0] @ [0, 0] @ i @ r)"
    by (simp add: memset_def wr_bytes_def B A numeral_eq_Suc)
  have s2: "stun_set_type ([0, 0] @ [0, 0] @ i @ r) c m = Some ([x0, x1] @ [0, 0] @ i @ r)"
    unfolding stun_set_type_def x0_def [symmetric] x1_def [symmetric] by (simp add: wr_bytes_def)
  have s3: "wr_bytes ([x0, x1] @ [0, 0] @ i @ r) 4 (take 16 tid) =
      Some ([x0, x1] @ [0, 0] @ take 16 tid @ r)"
    using wr_bytes_segment [of "[x0, x1] @ [0, 0]" 4 i "take 16 tid" r] i assms(3) by simp
  have r: "drop 20 (buffer msg) = r" using a by (simp add: B)
  show ?thesis
    using assms s1 s2 s3 unfolding tf r
    by (simp add: stun_message_init_def stun_pos_defs rd_bytes_def)
qed

lemma stun_message_init_short:
  "buffer_len msg < 20 \<Longrightarrow> stun_message_init msg c m tid = Some (False, msg)"
  by (simp add: stun_message_init_def stun_pos_defs)

lemma take_type_field: "take 2 (be_enc 2 (type_field c m) @ xs) = be_enc 2 (type_field c m)"
  by simp

lemma init_accessors:
  assumes "buffer msg = be_enc 2 (type_field c m) @ [0, 0] @ i @ r" and "length i = 16"
  shows "stun_message_length msg = Some 20" and "stun_message_id msg = Some i"
    and "msg_attrs msg = Some []"
    and "m < 0x1000 \<Longrightarrow> stun_message_get_class msg =
           Some (if c = STUN_ERROR \<and> m = 5 then STUN_INDICATION else c)"
    and "m < 0x1000 \<Longrightarrow> stun_message_get_method msg = Some (if c = STUN_ERROR \<and> m = 5 then 7 else m)"
proof -
  show l: "stun_message_length msg = Some 20"
    using assms by (simp add: stun_message_length_def stun_getw_eq stun_pos_defs be_dec_def)
  show "stun_message_id msg = Some i"
    using assms by (simp add: stun_message_id_def rd_bytes_def stun_pos_defs)
  show "msg_attrs msg = Some []" using assms l by (simp add: msg_attrs_def)
  have t: "stun_getw (buffer msg) 0 = Some (type_field c m)"
    using assms by (simp add: stun_getw_eq)
  assume m: "m < 0x1000"
  then show "stun_message_get_class msg =
      Some (if c = STUN_ERROR \<and> m = 5 then STUN_INDICATION else c)"
    using type_field_class [of c m] type_field_0115 [of m c]
    by (auto simp: stun_message_get_class_def t class_of_code_def)
  from m show "stun_message_get_method msg = Some (if c = STUN_ERROR \<and> m = 5 then 7 else m)"
    using type_field_method [of m "type_field c m" c] type_field_0115 [of m c]
    by (auto simp: stun_message_get_method_def t)
qed

section \<open>Received buffers\<close>

lemma drop_bit_6_u8: "drop_bit 6 (x :: u8) = 0 \<longleftrightarrow> x < 64"
proof -
  have "drop_bit 6 x = 0 \<longleftrightarrow> unat (drop_bit 6 x) = 0" by (simp add: unsigned_eq_0_iff)
  also have "\<dots> \<longleftrightarrow> unat x div 64 = 0" by (simp add: drop_bit_eq_div unat_div)
  finally show ?thesis by (simp add: word_less_nat_alt div_eq_0_iff)
qed

lemma unat_getw: "p + 2 \<le> length b \<Longrightarrow> stun_getw b p = Some (be_dec (take 2 (drop p b)))"
  by (simp add: stun_getw_eq)

text \<open>What the checks of a buffer come to.\<close>

definition fast_spec :: "bytes \<Rightarrow> nat \<Rightarrow> bool \<Rightarrow> int" where
  "fast_spec msg len pad =
     (if len = 0 \<or> \<not> msg ! 0 < 64 then STUN_MESSAGE_BUFFER_INVALID
      else if len < 4 then STUN_MESSAGE_BUFFER_INCOMPLETE
      else
        (let n = 20 + unat (be_dec (take 2 (drop 2 msg)) :: u16)
         in if pad \<and> \<not> 4 dvd n then STUN_MESSAGE_BUFFER_INVALID
            else if len < n then STUN_MESSAGE_BUFFER_INCOMPLETE else int n))"

lemma validate_fast_flat:
  assumes "len \<le> length msg"
  shows "stun_message_validate_buffer_length_fast [\<lparr>iv_buffer = Ptr msg, iv_size = len\<rparr>] 1 len pad =
     Some (fast_spec msg len pad)"
  using assms
  by (auto simp: stun_message_validate_buffer_length_fast_def fast_spec_def nth_opt_def rd8_def
      drop_bit_6_u8 stun_pos_defs stun_getw_eq stun_padding_zero_iff Let_def add.commute)

lemma fast_spec_pos:
  assumes "0 < fast_spec msg len pad"
  obtains n where "n = 20 + unat (be_dec (take 2 (drop 2 msg)) :: u16)" and "n \<le> len"
    and "fast_spec msg len pad = int n" and "4 \<le> len"
  using assms that
  by (auto simp: fast_spec_def Let_def STUN_MESSAGE_BUFFER_INVALID_def
      STUN_MESSAGE_BUFFER_INCOMPLETE_def split: if_splits)

lemma validate_buffer_length_eq:
  assumes "len \<le> length msg"
  shows "stun_message_validate_buffer_length msg len pad =
     Some (let r = fast_spec msg len pad
           in if 0 < r \<and> parse_attrs pad (take (nat r - 20) (drop 20 msg)) = None
              then STUN_MESSAGE_BUFFER_INVALID else r)"
proof (cases "0 < fast_spec msg len pad")
  case True
  then obtain n where n: "n = 20 + unat (be_dec (take 2 (drop 2 msg)) :: u16)" "n \<le> len"
    "fast_spec msg len pad = int n" "4 \<le> len"
    by (rule fast_spec_pos)
  then have "validate_loop msg pad 20 (n - 20) = Some (parse_attrs pad (take (n - 20) (drop 20 msg)) \<noteq> None)"
    using assms by (intro validate_loop_spec) simp
  moreover have "20 \<le> n" using n(1) by simp
  ultimately show ?thesis using n(3) assms True
    by (simp add: stun_message_validate_buffer_length_def validate_fast_flat)
next
  case False
  then show ?thesis
    using assms by (simp add: stun_message_validate_buffer_length_def validate_fast_flat)
qed

lemma validate_buffer_length_pos:
  assumes "len \<le> length msg" and "stun_message_validate_buffer_length msg len pad = Some (int n)"
    and "0 < n"
  shows "n = 20 + unat (be_dec (take 2 (drop 2 msg)) :: u16)" and "n \<le> len"
    and "parse_attrs pad (take (n - 20) (drop 20 msg)) \<noteq> None"
proof -
  have r: "fast_spec msg len pad = int n"
    and p: "parse_attrs pad (take (n - 20) (drop 20 msg)) \<noteq> None"
    using assms(2,3) unfolding validate_buffer_length_eq [OF assms(1)]
    by (auto simp: Let_def STUN_MESSAGE_BUFFER_INVALID_def split: if_splits)
  have "0 < fast_spec msg len pad" using r assms(3) by simp
  then obtain k where "k = 20 + unat (be_dec (take 2 (drop 2 msg)) :: u16)" "k \<le> len"
    "fast_spec msg len pad = int k" "4 \<le> len"
    by (rule fast_spec_pos)
  with r show "n = 20 + unat (be_dec (take 2 (drop 2 msg)) :: u16)" "n \<le> len"
    by (simp_all only: of_nat_eq_iff)
  show "parse_attrs pad (take (n - 20) (drop 20 msg)) \<noteq> None" by (rule p)
qed

section \<open>Split buffers\<close>

text \<open>The input vector of a message that arrives in the pieces \<open>ds\<close>.\<close>

definition iv_of :: "bytes \<Rightarrow> StunInputVector" where
  "iv_of d = \<lparr>iv_buffer = Ptr d, iv_size = length d\<rparr>"

lemma iv_of_sel [simp]: "iv_buffer (iv_of d) = Ptr d" "iv_size (iv_of d) = length d"
  by (simp_all add: iv_of_def)

lemma skip_loop_spec:
  assumes "n = int (length ds) \<or> n < 0" and "k < length (concat (drop i ds))"
  shows "\<exists>j s. skip_loop (map iv_of ds @ tail) n i k = Some (j, s) \<and> j < length ds \<and>
    s < length (ds ! j) \<and> drop k (concat (drop i ds)) = drop s (ds ! j) @ concat (drop (j + 1) ds)"
  using assms(2)
proof (induction "length ds - i" arbitrary: i k)
  case 0
  then show ?case by simp
next
  case (Suc x)
  then have i: "i < length ds" by simp
  have cat: "concat (drop i ds) = ds ! i @ concat (drop (Suc i) ds)"
    using i by (simp flip: Cons_nth_drop_Suc)
  have nth: "(map iv_of ds @ tail) ! i = iv_of (ds ! i)" using i by (simp add: nth_append)
  have step: "skip_loop (map iv_of ds @ tail) n i k =
      (if length (ds ! i) \<le> k then skip_loop (map iv_of ds @ tail) n (Suc i) (k - length (ds ! i))
       else Some (i, k))"
    using i assms(1) nth by (subst skip_loop.simps) auto
  show ?case
  proof (cases "length (ds ! i) \<le> k")
    case True
    have "k - length (ds ! i) < length (concat (drop (Suc i) ds))"
      using Suc.prems True by (simp add: cat)
    then show ?thesis
      using Suc.hyps(1) [of "Suc i" "k - length (ds ! i)"] Suc.hyps(2) True step by (simp add: cat)
  next
    case False
    then show ?thesis using i step by (simp add: cat)
  qed
qed

lemma concat_nonempty_hd:
  "\<forall>d \<in> set ds. d \<noteq> [] \<Longrightarrow> concat ds \<noteq> [] \<Longrightarrow> ds \<noteq> [] \<and> hd ds \<noteq> [] \<and> concat ds ! 0 = ds ! 0 ! 0"
  by (cases ds) (auto simp: nth_append)

lemma or_byte: "push_bit 8 (unat (x :: u8)) OR unat (y :: u8) = 256 * unat x + unat y"
proof -
  have "push_bit 8 (unat x) OR unat y = push_bit 8 (unat x) + unat y"
    by (rule disjunctive_add_eq_or [symmetric])
      (auto simp: bit_eq_iff bit_simps dest: bit_imp_le_length)
  then show ?thesis by (simp add: push_bit_eq_mult)
qed

lemma read_split_length_spec:
  assumes "n = int (length ds) \<or> n < 0" and ne: "\<forall>d \<in> set ds. d \<noteq> []"
    and len: "4 \<le> length (concat ds)"
  shows "read_split_length (map iv_of ds @ tail) n = Some (unat (be_dec (take 2 (drop 2 (concat ds))) :: u16))"
proof -
  obtain j s where js: "skip_loop (map iv_of ds @ tail) n 0 2 = Some (j, s)" "j < length ds"
    "s < length (ds ! j)" and cut: "drop 2 (concat ds) = drop s (ds ! j) @ concat (drop (j + 1) ds)"
    using skip_loop_spec [OF assms(1), of 2 0 tail] len by auto
  have nth: "nth_opt (map iv_of ds @ tail) i = Some (iv_of (ds ! i))" if "i < length ds" for i
    using that by (simp add: nth_opt_def nth_append)
  note rs = read_split_length_def stun_pos_defs js(1) nth [OF js(2)] iv_data_def
  show ?thesis
  proof (cases "1 < length (ds ! j) - s")
    case True
    then show ?thesis by (simp add: rs cut stun_getw_eq)
  next
    case False
    with js(3) have last: "drop s (ds ! j) = [ds ! j ! s]"
      by (simp add: Cons_nth_drop_Suc [symmetric])
    let ?rest = "drop (j + 1) ds"
    have "length (drop 2 (concat ds)) \<ge> 2" using len by simp
    then have "0 < length (concat ?rest)" unfolding cut last by (simp del: length_greater_0_conv)
    then have "concat ?rest \<noteq> []" by (rule length_greater_0_conv [THEN iffD1])
    moreover have "\<forall>d \<in> set ?rest. d \<noteq> []" using ne by (auto dest: in_set_dropD)
    ultimately have r: "?rest \<noteq> []" "hd ?rest \<noteq> []" "concat ?rest ! 0 = ?rest ! 0 ! 0"
      using concat_nonempty_hd by blast+
    then have j1: "j + 1 < length ds" by simp
    then have r0: "?rest ! 0 = ds ! (j + 1)" and hd: "ds ! (j + 1) \<noteq> []" using r by (simp_all add: hd_drop_conv_nth)
    have "take 2 (drop 2 (concat ds)) = [ds ! j ! s, ds ! (j + 1) ! 0]"
      using \<open>concat ?rest \<noteq> []\<close> r(3) unfolding cut last r0
      by (cases "concat ?rest") (simp_all add: numeral_2_eq_2)
    then have "unat (be_dec (take 2 (drop 2 (concat ds))) :: u16) = 256 * unat (ds ! j ! s) + unat (ds ! (j + 1) ! 0)"
      by (simp only: unat_be_dec_two)
    moreover have "push_bit 8 (unat (ds ! j ! s)) OR unat (ds ! (j + 1) ! 0) =
        256 * unat (ds ! j ! s) + unat (ds ! (j + 1) ! 0)"
      by (rule or_byte)
    ultimately show ?thesis using False js(3) nth [OF j1] hd
      by (simp add: rs rd8_def)
  qed
qed

lemma validate_fast_split:
  assumes "n = int (length ds) \<or> n < 0" and ne: "\<forall>d \<in> set ds. d \<noteq> []" and "ds \<noteq> []"
    and "len \<le> length (concat ds)"
  shows "stun_message_validate_buffer_length_fast (map iv_of ds @ tail) n len pad =
     Some (fast_spec (concat ds) len pad)"
proof -
  obtain d ds' where ds: "ds = d # ds'" and d: "d \<noteq> []" using assms(2,3) by (cases ds) auto
  have n: "n \<noteq> 0" using assms(1) ds by auto
  have c0: "concat ds ! 0 = d ! 0" using d by (simp add: ds nth_append)
  have big: "take 2 (drop 2 (concat ds)) = take 2 (drop 2 d)" if "4 \<le> length d"
    using that by (simp add: ds)
  note rl = read_split_length_spec [OF assms(1,2), of tail]
  show ?thesis
    using n d c0 big rl assms(4)
    by (auto simp: stun_message_validate_buffer_length_fast_def fast_spec_def nth_opt_def rd8_def
        drop_bit_6_u8 stun_pos_defs stun_getw_eq stun_padding_zero_iff Let_def add.commute ds)
qed

end
