(* ===== verification/Stun_Message_Props.thy ===== *)
theory Stun_Message_Props
  imports Stun_Header_Spec
begin

unbundle bit_operations_syntax

text \<open>
  The correctness properties of the message layer (\<^verbatim>\<open>stun/stunmessage.c\<close> and
  \<^verbatim>\<open>stun/utils.c\<close>), each with an instance on concrete bytes.
\<close>

section \<open>Example messages\<close>

definition example_msg :: StunMessage where
  "example_msg = \<lparr>agent = Null,
     buffer = [0, 1, 0, 0, 0x21, 0x12, 0xA4, 0x42] @ replicate 12 7 @ replicate 80 0,
     buffer_len = 100, msg_key = Null, long_term_key = replicate 16 0, long_term_valid = False\<rparr>"

definition example_bytes :: bytes where
  "example_bytes = [0, 1, 0, 12, 0x21, 0x12, 0xA4, 0x42] @ replicate 12 7 @
     [0, 6, 0, 2, 65, 66, 0, 0] @ [0, 0x25, 0, 0]"

lemma example_msg_facts:
  "msg_attrs example_msg = Some []" "append_room example_msg 4" "append_room example_msg 8"
  "append_room example_msg 20" "append_room example_msg 15" "append_room example_msg 3"
  by code_simp+

section \<open>Received buffers\<close>

lemma unat_u16_wrap:
  assumes "65536 \<le> unat (f :: u16) + 20"
  shows "unat (f + 20) < 20"
proof -
  have "unat (f + 20) = (unat f + 20) mod 65536" by (simp add: unat_word_ariths)
  also have "\<dots> = (unat f + 20 - 65536) mod 65536" using assms by (rule le_mod_geq)
  also have "\<dots> \<le> unat f + 20 - 65536" by (rule mod_less_eq_dividend)
  finally show ?thesis using unat_u16 [of f] by linarith
qed

text \<open>C16.  The check of a received buffer never reads outside it, and its answer is exact: a
  positive answer is the announced length of a buffer whose first two bits are clear, which is
  complete, and whose attribute section the grammar \<open>parse_attrs\<close> accepts; otherwise the
  answer is the invalid or the incomplete marker according to the first check that fails.\<close>

theorem validate_buffer_length_exact:
  assumes "len \<le> length msg"
  shows "stun_message_validate_buffer_length msg len pad = Some
    (if len = 0 \<or> \<not> msg ! 0 < 64 then STUN_MESSAGE_BUFFER_INVALID
     else if len < 4 then STUN_MESSAGE_BUFFER_INCOMPLETE
     else
       (let n = 20 + unat (be_dec (take 2 (drop 2 msg)) :: u16)
        in if pad \<and> \<not> 4 dvd n then STUN_MESSAGE_BUFFER_INVALID
           else if len < n then STUN_MESSAGE_BUFFER_INCOMPLETE
           else if parse_attrs pad (take (n - 20) (drop 20 msg)) = None
           then STUN_MESSAGE_BUFFER_INVALID else int n))"
proof -
  define n where "n = 20 + unat (be_dec (take 2 (drop 2 msg)) :: u16)"
  then have "0 < n" by simp
  then show ?thesis
    unfolding validate_buffer_length_eq [OF assms] fast_spec_def n_def [symmetric]
    by (auto simp: Let_def STUN_MESSAGE_BUFFER_INVALID_def STUN_MESSAGE_BUFFER_INCOMPLETE_def)
qed

theorem validate_buffer_length_exact_witness:
  "stun_message_validate_buffer_length example_bytes 32 True = Some 32"
proof -
  have "(32 :: nat) \<le> length example_bytes" by code_simp
  from validate_buffer_length_exact [OF this, of True] show ?thesis by code_simp
qed

text \<open>C17.  Every buffer that the check accepts is safe to search: looking up any attribute type
  in a message over it, for an agent with the same alignment rule, returns without reading
  outside the accepted bytes, and a pointer it returns delimits a value inside them.\<close>

theorem accepted_buffer_search_safe:
  assumes "len \<le> length (buffer m)" and "pad = (\<not> msg_unaligned m)"
    and "stun_message_validate_buffer_length (buffer m) len pad = Some (int n)" and "0 < n"
  shows "\<exists>r. stun_message_find (m\<lparr>buffer := take n (buffer m)\<rparr>) type = Some r \<and>
    (\<forall>p l. r = Ptr (p, l) \<longrightarrow> 24 \<le> p \<and> p + unat l \<le> n)"
proof -
  let ?m = "m\<lparr>buffer := take n (buffer m)\<rparr>" and ?f = "be_dec (take 2 (drop 2 (buffer m))) :: u16"
  note n = validate_buffer_length_pos [OF assms(1,3,4)]
  have ml: "stun_message_length ?m = Some (?f + 20)"
    using n assms(1) by (simp add: stun_message_length_def stun_getw_eq stun_pos_defs take_drop)
  have un: "msg_unaligned ?m = msg_unaligned m" by (simp add: msg_unaligned_def)
  show ?thesis
  proof (cases "n < 65536")
    case True
    then have "unat (?f + 20) = n" using n(1) unat_add_of_nat [of ?f 20] by simp
    then have "msg_attrs ?m \<noteq> None"
      using n assms(1,2) ml un by (simp add: msg_attrs_def drop_take)
    then obtain as where "msg_attrs ?m = Some as" by blast
    from stun_message_find_spec [OF this, of type] obtain r where
      r: "stun_message_find ?m type = Some r"
      "attr_rel (take n (buffer m)) (length (take n (buffer m))) r (find_attr as (ms_turn_swap ?m type))"
      by auto
    moreover have "length (take n (buffer m)) = n" using n(2) assms(1) by simp
    ultimately show ?thesis
      by (cases "find_attr as (ms_turn_swap ?m type)") (auto simp: attr_rel_Some)
  next
    case False
    then have "unat (?f + 20) < 20" using n(1) by (intro unat_u16_wrap) simp
    then show ?thesis
      by (simp add: stun_message_find_def ml stun_pos_defs stun_find_loop.simps)
  qed
qed

theorem accepted_buffer_search_safe_witness:
  "\<exists>r. stun_message_find (example_msg\<lparr>buffer := take 32 example_bytes\<rparr>) 0x25 = Some r \<and>
    (\<forall>p l. r = Ptr (p, l) \<longrightarrow> 24 \<le> p \<and> p + unat l \<le> 32)"
proof -
  let ?m = "example_msg\<lparr>buffer := example_bytes\<rparr>"
  have "(32 :: nat) \<le> length (buffer ?m)" by code_simp
  moreover have "True = (\<not> msg_unaligned ?m)" by code_simp
  moreover have "stun_message_validate_buffer_length (buffer ?m) 32 True = Some (int 32)" by code_simp
  ultimately show ?thesis
    using accepted_buffer_search_safe [of 32 ?m True 32 "0x25"] by simp
qed

text \<open>C21.  The check of a buffer that arrives in several non-empty pieces agrees with the check
  of the joined pieces, for a counted and for a null-terminated array of pieces.\<close>

theorem validate_fast_split_exact:
  assumes "n = int (length ds) \<or> n < 0" and "\<forall>d \<in> set ds. d \<noteq> []" and "ds \<noteq> []"
    and "len \<le> length (concat ds)"
  shows "stun_message_validate_buffer_length_fast (map iv_of ds @ tail) n len pad =
    stun_message_validate_buffer_length_fast [\<lparr>iv_buffer = Ptr (concat ds), iv_size = len\<rparr>] 1 len pad"
  using validate_fast_split [OF assms] validate_fast_flat [OF assms(4)] by simp

theorem validate_fast_split_exact_witness:
  "stun_message_validate_buffer_length_fast
     (map iv_of [take 3 example_bytes, drop 3 example_bytes] @ [\<lparr>iv_buffer = Null, iv_size = 0\<rparr>])
     (-1) 32 True = Some 32"
proof -
  let ?ds = "[take 3 example_bytes, drop 3 example_bytes]"
  have "(-1 :: int) = int (length ?ds) \<or> (-1 :: int) < 0" by simp
  moreover have "\<forall>d \<in> set ?ds. d \<noteq> []" by code_simp
  moreover have "?ds \<noteq> []" by simp
  moreover have "(32 :: nat) \<le> length (concat ?ds)" by code_simp
  ultimately have "stun_message_validate_buffer_length_fast
      (map iv_of ?ds @ [\<lparr>iv_buffer = Null, iv_size = 0\<rparr>]) (-1) 32 True =
    stun_message_validate_buffer_length_fast [\<lparr>iv_buffer = Ptr (concat ?ds), iv_size = 32\<rparr>] 1 32 True"
    by (rule validate_fast_split_exact)
  moreover have "stun_message_validate_buffer_length_fast
      [\<lparr>iv_buffer = Ptr (concat ?ds), iv_size = 32\<rparr>] 1 32 True = Some 32" by code_simp
  ultimately show ?thesis by simp
qed

section \<open>Appending and finding\<close>

text \<open>C18.  Appending a value that fits refines appending to the list of attributes: the call
  succeeds, exactly one attribute is added at the end, and the type field, the transaction
  identifier and every other field of the message are as before.\<close>

theorem append_bytes_refines_snoc:
  assumes "msg_attrs m = Some as" and "append_room m (length v)"
  shows "\<exists>m'. stun_message_append_bytes m t v (length v) = Some (STUN_MESSAGE_RETURN_SUCCESS, m') \<and>
    same_header m m' \<and> msg_attrs m' = Some (as @ [(ms_turn_swap m t, appended_value m v)])"
  by (rule append_bytes_adds [OF assms])

theorem append_bytes_refines_snoc_witness:
  "\<exists>m'. stun_message_append_bytes example_msg 6 [1, 2, 3] 3 = Some (STUN_MESSAGE_RETURN_SUCCESS, m') \<and>
    same_header example_msg m' \<and> msg_attrs m' = Some [(6, [1, 2, 3])]"
proof -
  have "append_room example_msg (length [1, 2, 3 :: u8])" by code_simp
  note append_bytes_refines_snoc [OF example_msg_facts(1) this, of 6]
  moreover have "ms_turn_swap example_msg 6 = 6" "appended_value example_msg [1, 2, 3] = [1, 2, 3]"
    by code_simp+
  ultimately show ?thesis by (simp add: numeral_3_eq_3)
qed

text \<open>C22.  A 64-bit value that is appended under a type the message does not carry yet is what
  the 64-bit lookup returns.\<close>

theorem append64_find64:
  assumes "msg_attrs m = Some as" and "append_room m 8" and "open_attrs as"
    and "find_attr as (ms_turn_swap m t) = None"
  shows "\<exists>m'. stun_message_append64 m t v = Some (STUN_MESSAGE_RETURN_SUCCESS, m') \<and>
    stun_message_find64 m' t None = Some (STUN_MESSAGE_RETURN_SUCCESS, Some v)"
  using attr64.put_get [of m as v t] assms by (metis length_be_enc)

theorem append64_find64_witness:
  "\<exists>m'. stun_message_append64 example_msg 0x8029 0x1122334455667788 = Some (STUN_MESSAGE_RETURN_SUCCESS, m') \<and>
    stun_message_find64 m' 0x8029 None = Some (STUN_MESSAGE_RETURN_SUCCESS, Some 0x1122334455667788)"
  by (rule append64_find64 [OF example_msg_facts(1,3)]) simp_all

text \<open>C23.  A socket address of either family that is masked and appended is read back unmasked,
  whatever the cookie, under a type the message does not carry yet.\<close>

theorem append_xor_addr_find_xor_addr:
  assumes "msg_attrs m = Some as" and "wf_sockaddr a" and "is_inet a" and "append_room m 20"
    and "append_room m 8" and "open_attrs as" and "find_attr as (ms_turn_swap m t) = None"
  shows "\<exists>m' n. stun_message_append_xor_addr_full m t a (addr_len a) k = Some (STUN_MESSAGE_RETURN_SUCCESS, m') \<and>
    stun_message_find_xor_addr_full m' t old sizeof_sockaddr_storage k =
      Some (STUN_MESSAGE_RETURN_SUCCESS, a, n)"
proof -
  note s = mask_addr_shape [OF msg_attrs_length_ge [OF assms(1)] assms(2,3), of k]
  have "append_room m (length (encode_addr (mask_addr m k a)))"
    using length_encode_addr [OF s(2,3)] assms(4,5) by (auto split: sockaddr.splits)
  with assms obtain m' where
    "stun_message_append_xor_addr_full m t a (addr_len a) k = Some (STUN_MESSAGE_RETURN_SUCCESS, m')"
    "map_option (\<lambda>(r, a, n). (r, Some a))
       (stun_message_find_xor_addr_full m' t old sizeof_sockaddr_storage k) =
     Some (STUN_MESSAGE_RETURN_SUCCESS, Some a)"
    using attr_xor_addr.put_get [of m as a k t old] by metis
  then show ?thesis by auto
qed

theorem append_xor_addr_find_xor_addr_witness:
  "\<exists>m' n. stun_message_append_xor_addr_full example_msg 0x20 (Sock_in [0x0d, 0x96] [192, 168, 0, 1]) 16
      STUN_MAGIC_COOKIE = Some (STUN_MESSAGE_RETURN_SUCCESS, m') \<and>
    stun_message_find_xor_addr_full m' 0x20 (Sock_other 0) sizeof_sockaddr_storage STUN_MAGIC_COOKIE =
      Some (STUN_MESSAGE_RETURN_SUCCESS, Sock_in [0x0d, 0x96] [192, 168, 0, 1], n)"
proof -
  have "addr_len (Sock_in [0x0d, 0x96] [192, 168, 0, 1]) = 16" by code_simp
  then show ?thesis
    using append_xor_addr_find_xor_addr [OF example_msg_facts(1), of "Sock_in [0x0d, 0x96] [192, 168, 0, 1]"
        "0x20" STUN_MAGIC_COOKIE "Sock_other 0"] example_msg_facts
    by simp
qed

text \<open>A string that is appended is read back by the string lookup, also where the message
  has no magic cookie and the length on the wire counts the padding.\<close>

theorem append_string_find_string:
  assumes "msg_attrs m = Some as" and "append_room m (length v)" and "open_attrs as"
    and "find_attr as (ms_turn_swap m t) = None" and "0 \<notin> set v" and "length v + 3 < n"
  shows "\<exists>m' buf. stun_message_append_string m t (v @ [0]) = Some (STUN_MESSAGE_RETURN_SUCCESS, m') \<and>
    stun_message_find_string m' t (replicate n 0) n = Some (STUN_MESSAGE_RETURN_SUCCESS, buf) \<and>
    strlen buf = Some (length v) \<and> take (length v) buf = v"
proof -
  have "wire_len m (length v) < n"
    using wire_len_cases [of m "length v"] stun_align_less [of "length v"] assms(6) by auto
  with assms obtain m' where m': "stun_message_append_string m t (v @ [0]) = Some (STUN_MESSAGE_RETURN_SUCCESS, m')"
    "get_string n m' t = Some (STUN_MESSAGE_RETURN_SUCCESS, Some v)"
    using attr_string.put_get [of m as v n t] by metis
  from m'(2) obtain buf len where
    "stun_message_find_string m' t (replicate n 0) n = Some (STUN_MESSAGE_RETURN_SUCCESS, buf)"
    "strlen buf = Some len" "take len buf = v"
    by (auto simp: get_string_def bind_eq_Some_conv)
  moreover from this have "length v = len"
    using length_takeWhile_le [of "\<lambda>c. c \<noteq> 0" buf] by (auto simp: strlen_def split: if_splits)
  ultimately show ?thesis using m'(1) by auto
qed

theorem append_string_find_string_witness:
  "\<exists>m' buf. stun_message_append_string example_msg 6 ([102, 111, 111] @ [0]) =
      Some (STUN_MESSAGE_RETURN_SUCCESS, m') \<and>
    stun_message_find_string m' 6 (replicate 64 0) 64 = Some (STUN_MESSAGE_RETURN_SUCCESS, buf) \<and>
    strlen buf = Some 3 \<and> take 3 buf = [102, 111, 111]"
proof -
  have "append_room example_msg (length [102, 111, 111 :: u8])" by code_simp
  from append_string_find_string [OF example_msg_facts(1) this, of 6 64] show ?thesis
    by (simp add: numeral_3_eq_3)
qed

text \<open>C24.  Every error code of the library that is appended to a message without an
  ERROR-CODE attribute is read back as its number, whatever its phrase and padding.\<close>

theorem append_error_find_error:
  assumes "msg_attrs m = Some as" and "append_room m (4 + length (stun_strerror code))"
    and "open_attrs as"
    and "find_attr as (ms_turn_swap m (stun_attribute_code STUN_ATTRIBUTE_ERROR_CODE)) = None"
  shows "\<exists>m'. stun_message_append_error m code = Some (STUN_MESSAGE_RETURN_SUCCESS, m') \<and>
    stun_message_find_error m' c = Some (STUN_MESSAGE_RETURN_SUCCESS, Some (int (stun_error_code code)))"
proof -
  from append_error_adds [OF assms(1), of code] assms(2) obtain m' where
    m': "stun_message_append_error m code = Some (STUN_MESSAGE_RETURN_SUCCESS, m')" "same_header m m'"
    "msg_attrs m' = Some (as @ [(ms_turn_swap m (stun_attribute_code STUN_ATTRIBUTE_ERROR_CODE),
       appended_value m (encode_error code))])"
    by (auto simp: length_encode_error)
  with find_attr_snoc_new [OF assms(3,4)] show ?thesis
    by (simp add: stun_message_find_error_spec same_headerD decode_encode_error)
qed

theorem append_error_find_error_witness:
  "\<exists>m'. stun_message_append_error example_msg STUN_ERROR_BAD_REQUEST = Some (STUN_MESSAGE_RETURN_SUCCESS, m') \<and>
    stun_message_find_error m' None = Some (STUN_MESSAGE_RETURN_SUCCESS, Some 400)"
proof -
  have "append_room example_msg (4 + length (stun_strerror STUN_ERROR_BAD_REQUEST))" by code_simp
  from append_error_find_error [OF example_msg_facts(1) this, of None] show ?thesis by simp
qed

section \<open>Bounds of an append\<close>

lemma stun_align_le: "len \<le> k \<Longrightarrow> 4 dvd k \<Longrightarrow> stun_align len \<le> k"
  by (auto simp: stun_align_div elim!: dvdE)

lemma append_within_defined:
  assumes "stun_message_length m = Some n" and "20 \<le> unat n"
    and "unat n + 4 + attr_size (\<not> msg_unaligned m) len \<le> length (buffer m)"
  shows "\<exists>r. stun_message_append m t len = Some r"
proof (cases "unat n + 4 + len \<le> buffer_len m")
  case True
  from assms(3) have "unat n + 4 + len + pad_of m len \<le> length (buffer m)"
    by (simp add: attr_size_pad_of)
  with assms(2) obtain h l mid x y body z rest
    where B: "buffer m = h @ l @ mid @ x @ y @ body @ z @ rest"
      and lens: "length h = 2" "length l = 2" "length mid = unat n - 4" "length x = 2"
        "length y = 2" "length body = len" "length z = pad_of m len"
    by (rule split_buffer)
  show ?thesis using stun_message_append_buffer [OF assms(1,2) True B lens] by blast
next
  case False
  then show ?thesis using stun_message_append_full [OF assms(1), of len t] by simp
qed

text \<open>C25.  Where the size of the buffer and the length of the message are multiples of four, no
  append writes outside the buffer, whatever the length of the value.\<close>

theorem append_aligned_safe:
  assumes "stun_message_length m = Some n" and "20 \<le> unat n" and "4 dvd unat n"
    and "buffer_len m = length (buffer m)" and "4 dvd length (buffer m)"
  shows "\<exists>r m'. stun_message_append m t len = Some (r, m')"
proof (cases "unat n + 4 + len \<le> buffer_len m")
  case True
  have "4 dvd length (buffer m) - (unat n + 4)" using assms(3,5) by (simp add: dvd_diff_nat)
  moreover have "len \<le> length (buffer m) - (unat n + 4)" using True assms(4) by simp
  ultimately have "stun_align len \<le> length (buffer m) - (unat n + 4)" by (rule stun_align_le [rotated])
  then have "unat n + 4 + attr_size (\<not> msg_unaligned m) len \<le> length (buffer m)"
    using True assms(4) by (auto simp: attr_size_def)
  from append_within_defined [OF assms(1,2) this] show ?thesis by auto
next
  case False
  then show ?thesis using stun_message_append_full [OF assms(1), of len t] by simp
qed

theorem append_aligned_safe_witness: "\<exists>r m'. stun_message_append example_msg 6 75 = Some (r, m')"
proof -
  have "stun_message_length example_msg = Some 20" by code_simp
  moreover have "(20 :: nat) \<le> unat (20 :: u16)" "4 dvd unat (20 :: u16)" by simp_all
  moreover have "buffer_len example_msg = length (buffer example_msg)" by code_simp
  moreover have "4 dvd length (buffer example_msg)" by code_simp
  ultimately show ?thesis by (rule append_aligned_safe)
qed

text \<open>C26.  The room check of an append does not count the padding: where the value itself just
  fits into the buffer and its length is not a multiple of four, the padding is written behind
  the end of the buffer.\<close>

theorem append_padding_overflow:
  assumes "stun_message_length m = Some n" and "20 \<le> unat n" and "\<not> msg_unaligned m"
    and "buffer_len m = length (buffer m)" and "length (buffer m) = unat n + 4 + len" and "\<not> 4 dvd len"
  shows "stun_message_append m t len = None"
proof -
  have pad: "0 < stun_padding len" using assms(6) stun_padding_zero_iff [of len] by simp
  let ?b1 = "take (unat n) (buffer m) @ be_enc 2 (ms_turn_swap m t) @ drop (unat n + 2) (buffer m)"
  have s1: "stun_setw (buffer m) (unat n) (ms_turn_swap m t) = Some (?b1, unat n + 2)"
    using assms(5) by (simp add: stun_setw_eq wr_bytes_def)
  have l1: "length ?b1 = length (buffer m)" using assms(5) by simp
  then obtain c where c: "stun_message_has_cookie (m\<lparr>buffer := ?b1\<rparr>) = Some c"
    using assms(2,5) has_cookie_eq [of "m\<lparr>buffer := ?b1\<rparr>"] by simp
  have s2: "\<exists>b2. stun_setw ?b1 (unat n + 2) v = Some (b2, unat n + 4) \<and> length b2 = length (buffer m)" for v
    using assms(5) l1 by (simp add: stun_setw_eq wr_bytes_def)
  have s3: "memset b (unat n + 4 + len) 0 (stun_padding len) = None" if "length b = length (buffer m)" for b
    using that assms(5) pad by (simp add: memset_def wr_bytes_def)
  show ?thesis
    using assms(1,3-5) s1 c s2 [of "of_nat (if c then len else stun_align len)"] s3 pad
    by (auto simp: stun_message_append_def stun_pos_defs)
qed

theorem append_padding_overflow_witness:
  "stun_message_append (example_msg\<lparr>buffer := take 25 (buffer example_msg), buffer_len := 25\<rparr>) 6 1 = None"
proof -
  let ?m = "example_msg\<lparr>buffer := take 25 (buffer example_msg), buffer_len := 25\<rparr>"
  have "stun_message_length ?m = Some 20" "\<not> msg_unaligned ?m" "buffer_len ?m = length (buffer ?m)"
    "length (buffer ?m) = unat (20 :: u16) + 4 + 1"
    by code_simp+
  then show ?thesis by (intro append_padding_overflow [of ?m 20]) simp_all
qed

section \<open>The header\<close>

text \<open>A message that is initialised with a class, a method below 4096 and a transaction
  identifier has an empty attribute list, and the accessors return what was written, except
  for an error response to CONNECT: its type is the code that the accessors take for the
  DATA indication of older TURN servers.\<close>

theorem init_read_back:
  assumes "20 \<le> buffer_len msg" and "buffer_len msg \<le> length (buffer msg)" and "length tid = 16"
    and "m < 0x1000"
  shows "\<exists>msg'. stun_message_init msg c m tid = Some (True, msg') \<and> msg_attrs msg' = Some [] \<and>
    stun_message_length msg' = Some 20 \<and> stun_message_id msg' = Some tid \<and>
    stun_message_get_class msg' = Some (if c = STUN_ERROR \<and> m = 5 then STUN_INDICATION else c) \<and>
    stun_message_get_method msg' = Some (if c = STUN_ERROR \<and> m = 5 then 7 else m)"
  using assms stun_message_init_buffer [of msg tid c m]
    init_accessors [of "msg\<lparr>buffer := be_enc 2 (type_field c m) @ [0, 0] @ tid @ drop 20 (buffer msg)\<rparr>" c m tid]
  by simp

theorem init_read_back_witness:
  "\<exists>msg'. stun_message_init example_msg STUN_RESPONSE 3 (replicate 16 9) = Some (True, msg') \<and>
    msg_attrs msg' = Some [] \<and> stun_message_length msg' = Some 20 \<and>
    stun_message_id msg' = Some (replicate 16 9) \<and>
    stun_message_get_class msg' = Some STUN_RESPONSE \<and> stun_message_get_method msg' = Some 3"
proof -
  have "20 \<le> buffer_len example_msg" "buffer_len example_msg \<le> length (buffer example_msg)" by code_simp+
  moreover have "length (replicate 16 (9 :: u8)) = 16" "(3 :: u16) < 0x1000" by simp_all
  ultimately show ?thesis using init_read_back [of example_msg "replicate 16 9" 3 STUN_RESPONSE] by simp
qed

text \<open>The phrase table covers every error code of the library except 403, 441 and the
  marker 699; these three get the generic phrase.\<close>

theorem strerror_generic_exactly:
  "stun_strerror code = ''Unknown error'' \<longleftrightarrow>
     code \<in> {STUN_ERROR_FORBIDDEN, STUN_ERROR_WRONG_CREDENTIALS, STUN_ERROR_MAX}"
  by (cases code) (simp_all add: stun_strerror_def strerror_tab_def)

end
