(* ===== verification/Stun_Crc32.thy ===== *)
theory Stun_Crc32
  imports Stun_Message_Props
begin

unbundle bit_operations_syntax

text \<open>
  The checksum of \<^verbatim>\<open>stun/stuncrc32.c\<close> and the operations of \<^verbatim>\<open>stun/stun5389.c\<close>: the
  FINGERPRINT value and the SOFTWARE attribute.  The table-driven checksum is proved equal to
  the bit-by-bit division by the CRC-32 polynomial.
\<close>

section \<open>The checksum\<close>

record crc_data =
  crc_buf :: bytes
  crc_len :: nat

definition crc32_tab :: "u32 list" where
  "crc32_tab =
    [0x00000000, 0x77073096, 0xee0e612c, 0x990951ba, 0x076dc419, 0x706af48f,
     0xe963a535, 0x9e6495a3, 0x0edb8832, 0x79dcb8a4, 0xe0d5e91e, 0x97d2d988,
     0x09b64c2b, 0x7eb17cbd, 0xe7b82d07, 0x90bf1d91, 0x1db71064, 0x6ab020f2,
     0xf3b97148, 0x84be41de, 0x1adad47d, 0x6ddde4eb, 0xf4d4b551, 0x83d385c7,
     0x136c9856, 0x646ba8c0, 0xfd62f97a, 0x8a65c9ec, 0x14015c4f, 0x63066cd9,
     0xfa0f3d63, 0x8d080df5, 0x3b6e20c8, 0x4c69105e, 0xd56041e4, 0xa2677172,
     0x3c03e4d1, 0x4b04d447, 0xd20d85fd, 0xa50ab56b, 0x35b5a8fa, 0x42b2986c,
     0xdbbbc9d6, 0xacbcf940, 0x32d86ce3, 0x45df5c75, 0xdcd60dcf, 0xabd13d59,
     0x26d930ac, 0x51de003a, 0xc8d75180, 0xbfd06116, 0x21b4f4b5, 0x56b3c423,
     0xcfba9599, 0xb8bda50f, 0x2802b89e, 0x5f058808, 0xc60cd9b2, 0xb10be924,
     0x2f6f7c87, 0x58684c11, 0xc1611dab, 0xb6662d3d, 0x76dc4190, 0x01db7106,
     0x98d220bc, 0xefd5102a, 0x71b18589, 0x06b6b51f, 0x9fbfe4a5, 0xe8b8d433,
     0x7807c9a2, 0x0f00f934, 0x9609a88e, 0xe10e9818, 0x7f6a0dbb, 0x086d3d2d,
     0x91646c97, 0xe6635c01, 0x6b6b51f4, 0x1c6c6162, 0x856530d8, 0xf262004e,
     0x6c0695ed, 0x1b01a57b, 0x8208f4c1, 0xf50fc457, 0x65b0d9c6, 0x12b7e950,
     0x8bbeb8ea, 0xfcb9887c, 0x62dd1ddf, 0x15da2d49, 0x8cd37cf3, 0xfbd44c65,
     0x4db26158, 0x3ab551ce, 0xa3bc0074, 0xd4bb30e2, 0x4adfa541, 0x3dd895d7,
     0xa4d1c46d, 0xd3d6f4fb, 0x4369e96a, 0x346ed9fc, 0xad678846, 0xda60b8d0,
     0x44042d73, 0x33031de5, 0xaa0a4c5f, 0xdd0d7cc9, 0x5005713c, 0x270241aa,
     0xbe0b1010, 0xc90c2086, 0x5768b525, 0x206f85b3, 0xb966d409, 0xce61e49f,
     0x5edef90e, 0x29d9c998, 0xb0d09822, 0xc7d7a8b4, 0x59b33d17, 0x2eb40d81,
     0xb7bd5c3b, 0xc0ba6cad, 0xedb88320, 0x9abfb3b6, 0x03b6e20c, 0x74b1d29a,
     0xead54739, 0x9dd277af, 0x04db2615, 0x73dc1683, 0xe3630b12, 0x94643b84,
     0x0d6d6a3e, 0x7a6a5aa8, 0xe40ecf0b, 0x9309ff9d, 0x0a00ae27, 0x7d079eb1,
     0xf00f9344, 0x8708a3d2, 0x1e01f268, 0x6906c2fe, 0xf762575d, 0x806567cb,
     0x196c3671, 0x6e6b06e7, 0xfed41b76, 0x89d32be0, 0x10da7a5a, 0x67dd4acc,
     0xf9b9df6f, 0x8ebeeff9, 0x17b7be43, 0x60b08ed5, 0xd6d6a3e8, 0xa1d1937e,
     0x38d8c2c4, 0x4fdff252, 0xd1bb67f1, 0xa6bc5767, 0x3fb506dd, 0x48b2364b,
     0xd80d2bda, 0xaf0a1b4c, 0x36034af6, 0x41047a60, 0xdf60efc3, 0xa867df55,
     0x316e8eef, 0x4669be79, 0xcb61b38c, 0xbc66831a, 0x256fd2a0, 0x5268e236,
     0xcc0c7795, 0xbb0b4703, 0x220216b9, 0x5505262f, 0xc5ba3bbe, 0xb2bd0b28,
     0x2bb45a92, 0x5cb36a04, 0xc2d7ffa7, 0xb5d0cf31, 0x2cd99e8b, 0x5bdeae1d,
     0x9b64c2b0, 0xec63f226, 0x756aa39c, 0x026d930a, 0x9c0906a9, 0xeb0e363f,
     0x72076785, 0x05005713, 0x95bf4a82, 0xe2b87a14, 0x7bb12bae, 0x0cb61b38,
     0x92d28e9b, 0xe5d5be0d, 0x7cdcefb7, 0x0bdbdf21, 0x86d3d2d4, 0xf1d4e242,
     0x68ddb3f8, 0x1fda836e, 0x81be16cd, 0xf6b9265b, 0x6fb077e1, 0x18b74777,
     0x88085ae6, 0xff0f6a70, 0x66063bca, 0x11010b5c, 0x8f659eff, 0xf862ae69,
     0x616bffd3, 0x166ccf45, 0xa00ae278, 0xd70dd2ee, 0x4e048354, 0x3903b3c2,
     0xa7672661, 0xd06016f7, 0x4969474d, 0x3e6e77db, 0xaed16a4a, 0xd9d65adc,
     0x40df0b66, 0x37d83bf0, 0xa9bcae53, 0xdebb9ec5, 0x47b2cf7f, 0x30b5ffe9,
     0xbdbdf21c, 0xcabac28a, 0x53b39330, 0x24b4a3a6, 0xbad03605, 0xcdd70693,
     0x54de5729, 0x23d967bf, 0xb3667a2e, 0xc4614ab8, 0x5d681b02, 0x2a6f2b94,
     0xb40bbe37, 0xc30c8ea1, 0x5a05df1b, 0x2d02ef8d]"

text \<open>One turn of the inner loop, the inner loop over the bytes of a piece and the outer loop.\<close>

definition crc32_step :: "bool \<Rightarrow> u32 \<Rightarrow> u8 \<Rightarrow> u32 option" where
  "crc32_step typo crc p = do {
     lkp \<leftarrow> nth_opt crc32_tab (unat ((crc XOR ucast p) AND 0xFF));
     let lkp = (if lkp = 0x8bbeb8ea \<and> typo then 0x8bbe8ea else lkp);
     Some (lkp XOR drop_bit 8 crc)
   }"

fun crc32_bytes :: "bool \<Rightarrow> u32 \<Rightarrow> bytes \<Rightarrow> u32 option" where
  "crc32_bytes typo crc [] = Some crc"
| "crc32_bytes typo crc (p # ps) = do {
     crc \<leftarrow> crc32_step typo crc p;
     crc32_bytes typo crc ps
   }"

fun crc32_pieces :: "bool \<Rightarrow> u32 \<Rightarrow> crc_data list \<Rightarrow> u32 option" where
  "crc32_pieces typo crc [] = Some crc"
| "crc32_pieces typo crc (d # ds) = do {
     ps \<leftarrow> rd_bytes (crc_buf d) 0 (crc_len d);
     crc \<leftarrow> crc32_bytes typo crc ps;
     crc32_pieces typo crc ds
   }"

definition stun_crc32 :: "crc_data list \<Rightarrow> bool \<Rightarrow> u32 option" where
  "stun_crc32 data wlm2009_stupid_crc32_typo = do {
     crc \<leftarrow> crc32_pieces wlm2009_stupid_crc32_typo 0xffffffff data;
     Some (crc XOR 0xffffffff)
   }"

section \<open>The bit-by-bit checksum\<close>

definition crc_bit :: "u32 \<Rightarrow> u32" where
  "crc_bit c = (if bit c 0 then drop_bit 1 c XOR 0xedb88320 else drop_bit 1 c)"

definition crc_byte :: "u32 \<Rightarrow> u8 \<Rightarrow> u32" where
  "crc_byte c p = (crc_bit ^^ 8) (c XOR ucast p)"

definition crc32_reference :: "bytes \<Rightarrow> u32" where
  "crc32_reference ps = foldl crc_byte 0xffffffff ps XOR 0xffffffff"

lemma crc_bit_xor: "crc_bit (x XOR y) = crc_bit x XOR crc_bit y"
  by (rule bit_word_eqI) (auto simp: crc_bit_def bit_simps)

lemma crc_bits_xor: "(crc_bit ^^ n) (x XOR y) = (crc_bit ^^ n) x XOR (crc_bit ^^ n) y"
  by (induction n) (simp_all add: crc_bit_xor)

lemma crc_bits_shift: "n \<le> 8 \<Longrightarrow> (crc_bit ^^ n) (push_bit 8 (drop_bit 8 x)) = push_bit (8 - n) (drop_bit 8 x)"
proof (induction n)
  case (Suc n)
  then have "(crc_bit ^^ Suc n) (push_bit 8 (drop_bit 8 x)) = crc_bit (push_bit (8 - n) (drop_bit 8 x))"
    by simp
  also have "\<dots> = drop_bit 1 (push_bit (8 - n) (drop_bit 8 x))"
    using Suc.prems by (simp add: crc_bit_def bit_push_bit_iff)
  also have "\<dots> = push_bit (8 - Suc n) (drop_bit 8 x)"
    using Suc.prems by (intro bit_word_eqI) (auto simp: bit_simps Suc_diff_Suc dest: bit_imp_le_length)
  finally show ?case .
qed simp

text \<open>
  The table holds the eight-fold step of every byte.  An entry at an even index steps to the
  entry at half the index, an entry at an odd index differs from the one before it by the entry
  of 1, and the step is injective.
\<close>

lemma crc_bit_inj: "crc_bit x = crc_bit y \<Longrightarrow> x = y"
proof -
  assume "crc_bit x = crc_bit y"
  then have z: "crc_bit (x XOR y) = 0" by (simp add: crc_bit_xor)
  define d where "d = x XOR y"
  have top: "\<not> bit (drop_bit 1 d) 31" by (simp add: bit_simps) (auto dest: bit_imp_le_length)
  have low: "\<not> bit d 0"
  proof
    assume "bit d 0"
    with z have "drop_bit 1 d XOR 0xedb88320 = 0" by (simp add: d_def crc_bit_def)
    then have "\<not> bit (drop_bit 1 d XOR 0xedb88320) 31" by simp
    with top show False by (simp add: bit_xor_iff bit_numeral_rec)
  qed
  have "d = 0"
  proof (rule bit_word_eqI)
    fix i assume "i < LENGTH(32)"
    have "drop_bit 1 d = 0" using z low by (simp add: d_def crc_bit_def)
    then have "\<not> bit (drop_bit 1 d) (i - 1)" by simp
    with low show "bit d i = bit (0 :: u32) i" by (cases i) (simp_all add: bit_simps)
  qed
  moreover have "x = d XOR y" by (simp add: d_def xor.assoc)
  ultimately show "x = y" by simp
qed

fun pairs :: "'a list \<Rightarrow> ('a \<times> 'a) list" where
  "pairs (a # b # xs) = (a, b) # pairs xs"
| "pairs _ = []"

lemma nth_pairs: "2 * k + 1 < length xs \<Longrightarrow> k < length (pairs xs) \<and> pairs xs ! k = (xs ! (2 * k), xs ! (2 * k + 1))"
proof (induction xs arbitrary: k rule: pairs.induct)
  case (1 a b xs)
  then show ?case by (cases k) auto
qed auto

lemma crc_bit_numeral:
  "crc_bit 0 = 0"
  "crc_bit (numeral n) =
     (if bit (numeral n :: u32) 0 then drop_bit 1 (numeral n) XOR 0xedb88320 else drop_bit 1 (numeral n))"
  by (simp_all add: crc_bit_def)

lemma length_crc32_tab: "length crc32_tab = 256"
  by (simp add: crc32_tab_def)

lemma crc32_tab_pairs:
  "map (\<lambda>(a, b). crc_bit a) (pairs crc32_tab) = take 128 crc32_tab"
  "list_all (\<lambda>(a, b). b = a XOR 0x77073096) (pairs crc32_tab)"
  by (simp_all add: crc32_tab_def crc_bit_numeral)

lemma crc_bit_double: "k < 128 \<Longrightarrow> crc_bit (of_nat (2 * k)) = of_nat k"
proof -
  assume k: "k < 128"
  have "drop_bit 1 (of_nat (2 * k) :: u32) = of_nat k"
    using k by (intro unsigned_word_eqI [where 'a = nat]) (simp add: drop_bit_eq_div unat_div unat_word_ariths unat_of_nat)
  then show ?thesis by (simp add: crc_bit_def bit_0)
qed

lemma crc_bits_one: "(crc_bit ^^ 8) 1 = 0x77073096"
proof -
  have "crc_bit 1 = 0xedb88320" by (simp add: crc_bit_def)
  moreover have "(crc_bit ^^ 8) 1 =
      crc_bit (crc_bit (crc_bit (crc_bit (crc_bit (crc_bit (crc_bit (crc_bit 1)))))))"
    by (simp add: numeral_eq_Suc)
  ultimately show ?thesis by (simp add: crc_bit_numeral)
qed

lemma of_nat_double_xor: "(of_nat (2 * k + 1) :: u32) = of_nat (2 * k) XOR 1"
proof -
  have "(2 * of_nat k :: u32) XOR 1 = 2 * of_nat k + 1"
    by (simp add: xor_one_eq)
  then show ?thesis by (simp add: add.commute)
qed

lemma crc32_tab_nth: "i < 256 \<Longrightarrow> crc32_tab ! i = (crc_bit ^^ 8) (of_nat i)"
proof (induction i rule: less_induct)
  case (less i)
  define k where "k = i div 2"
  have k: "2 * k + 1 < length crc32_tab" using less.prems unfolding k_def length_crc32_tab by presburger
  note p = nth_pairs [OF k]
  have even: "crc_bit (crc32_tab ! (2 * k)) = crc32_tab ! k"
    using arg_cong [OF crc32_tab_pairs(1), of "\<lambda>xs. xs ! k"] p k by (simp add: length_crc32_tab)
  have odd: "crc32_tab ! (2 * k + 1) = crc32_tab ! (2 * k) XOR 0x77073096"
    using crc32_tab_pairs(2) p by (auto simp: list_all_length)
  have T2k: "crc32_tab ! (2 * k) = (crc_bit ^^ 8) (of_nat (2 * k))"
  proof (cases "k = 0")
    case True
    then show ?thesis by (simp add: crc32_tab_def numeral_eq_Suc crc_bit_numeral)
  next
    case False
    then have "k < i" by (simp add: k_def)
    then have "crc_bit (crc32_tab ! (2 * k)) = (crc_bit ^^ 8) (crc_bit (of_nat (2 * k)))"
      using even less k by (simp add: crc_bit_double length_crc32_tab del: of_nat_mult)
    also have "\<dots> = crc_bit ((crc_bit ^^ 8) (of_nat (2 * k)))" by (simp only: funpow_swap1)
    finally show ?thesis by (rule crc_bit_inj)
  qed
  have "(crc_bit ^^ 8) 1 = 0x77073096" by (rule crc_bits_one)
  moreover have "(of_nat (2 * k + 1) :: u32) = of_nat (2 * k) XOR 1"
    by (rule of_nat_double_xor)
  ultimately have "crc32_tab ! (2 * k + 1) = (crc_bit ^^ 8) (of_nat (2 * k + 1))"
    using odd T2k by (simp add: crc_bits_xor)
  moreover have "i = 2 * k \<or> i = 2 * k + 1" by (auto simp: k_def)
  ultimately show ?case using T2k by auto
qed

lemma unat_low_byte: "unat ((x :: u32) AND 0xFF) < 256"
proof -
  have "x AND 0xFF = take_bit 8 x" by (simp add: mask_255 take_bit_eq_mask)
  then show ?thesis by (simp add: unsigned_take_bit_eq take_bit_nat_def)
qed

lemma crc32_step_bits: "crc32_step False crc p = Some (crc_byte crc p)"
proof -
  define x where "x = crc XOR (ucast p :: u32)"
  have u: "unat (x AND 0xFF) < 256" by (rule unat_low_byte)
  have split: "x = (x AND 0xFF) XOR push_bit 8 (drop_bit 8 x)"
    by (rule bit_word_eqI) (auto simp: mask_255 bit_simps)
  have hi: "drop_bit 8 x = drop_bit 8 crc"
    by (rule bit_word_eqI) (auto simp: x_def bit_simps dest: bit_imp_le_length)
  have "crc_byte crc p = (crc_bit ^^ 8) (x AND 0xFF) XOR drop_bit 8 crc"
    unfolding crc_byte_def x_def [symmetric]
    by (subst split) (simp add: crc_bits_xor crc_bits_shift hi)
  also have "(crc_bit ^^ 8) (x AND 0xFF) = crc32_tab ! unat (x AND 0xFF)"
    using crc32_tab_nth [OF u] by simp
  finally show ?thesis using u by (simp add: crc32_step_def nth_opt_def length_crc32_tab x_def)
qed

lemma crc32_bytes_bits: "crc32_bytes False crc ps = Some (foldl crc_byte crc ps)"
  by (induction ps arbitrary: crc) (simp_all add: crc32_step_bits)

lemma crc32_pieces_bits:
  "\<forall>d \<in> set ds. crc_len d \<le> length (crc_buf d) \<Longrightarrow>
     crc32_pieces False crc ds = Some (foldl crc_byte crc (concat (map (\<lambda>d. take (crc_len d) (crc_buf d)) ds)))"
  by (induction ds arbitrary: crc) (simp_all add: crc32_bytes_bits rd_bytes_def)

text \<open>C20.  The checksum computed with the table of 256 entries over a list of pieces is the
  bit-by-bit CRC-32 of the concatenated pieces.\<close>

theorem crc32_table_reference:
  assumes "\<forall>d \<in> set ds. crc_len d \<le> length (crc_buf d)"
  shows "stun_crc32 ds False =
    Some (crc32_reference (concat (map (\<lambda>d. take (crc_len d) (crc_buf d)) ds)))"
  using assms by (simp add: stun_crc32_def crc32_pieces_bits crc32_reference_def)

theorem crc32_table_reference_witness:
  "stun_crc32 [\<lparr>crc_buf = [49, 50, 51, 52, 53], crc_len = 4\<rparr>, \<lparr>crc_buf = [53, 54, 55, 56, 57], crc_len = 5\<rparr>] False =
     Some (crc32_reference [49, 50, 51, 52, 53, 54, 55, 56, 57])"
  by (subst crc32_table_reference) simp_all

end
