(* ===== verification/Stun_Hmac.thy ===== *)
theory Stun_Hmac
  imports Stun_Message_Props
begin

unbundle bit_operations_syntax

text \<open>
  The operations of \<^verbatim>\<open>stun/stunhmac.c\<close>: what is fed to HMAC-SHA1 for MESSAGE-INTEGRITY and
  to MD5 for long-term credentials.  The two hash functions belong to a cryptographic library
  outside the sources (GnuTLS or OpenSSL); with the package name that the build defines they are
  the fields of \<open>StunEnv\<close>, an argument of the operations that use them.
\<close>

record StunEnv =
  hmac_sha1 :: "bytes \<Rightarrow> bytes \<Rightarrow> bytes"
  md5_hash :: "bytes \<Rightarrow> bytes"
  package_string :: bytes

text \<open>The documented sizes of the digests.\<close>

definition wf_env :: "StunEnv \<Rightarrow> bool" where
  "wf_env env \<longleftrightarrow> (\<forall>k d. length (hmac_sha1 env k d) = 20) \<and> (\<forall>d. length (md5_hash env d) = 16)"

section \<open>MESSAGE-INTEGRITY\<close>

definition stun_sha1 :: "StunEnv \<Rightarrow> bytes \<Rightarrow> nat \<Rightarrow> nat \<Rightarrow> bytes \<Rightarrow> bool \<Rightarrow> bytes option" where
  "stun_sha1 env msg len msg_len key padding =
     (let fakelen = be_enc 2 (of_nat msg_len :: u16) in
      if len < 44 then None
      else do {
        head \<leftarrow> rd_bytes msg 0 2;
        body \<leftarrow> rd_bytes msg 4 (len - 28);
        let pad = (if padding \<and> (len - 24) mod 64 > 0 then replicate (64 - (len - 24) mod 64) 0 else []);
        Some (hmac_sha1 env key (head @ fakelen @ body @ pad))
      })"

section \<open>Long-term credentials\<close>

text \<open>
  The two loops of \<open>priv_trim_var\<close>.  The code decrements the length, a \<open>size_t\<close>, without a
  check; it is an integer here, and \<open>ptr[*var_len-1]\<close> is the byte at the position
  \<open>ptr + var_len - 1\<close> of the object, a fault where there is no such position.
\<close>

function trim_front :: "bytes \<Rightarrow> nat \<Rightarrow> int \<Rightarrow> (nat \<times> int) option" where
  "trim_front var ptr var_len =
     (if ptr < length var
      then if var ! ptr = 0x22 then trim_front var (ptr + 1) (var_len - 1) else Some (ptr, var_len)
      else None)"
  by pat_completeness auto
termination
  by (relation "measure (\<lambda>(var, ptr, var_len). length var - ptr)") auto

function trim_back :: "bytes \<Rightarrow> nat \<Rightarrow> int \<Rightarrow> int option" where
  "trim_back var ptr var_len =
     (let pos = int ptr + var_len - 1
      in if 0 \<le> pos \<and> pos < int (length var)
         then if var ! nat pos = 0x22 \<or> var ! nat pos = 0
              then trim_back var ptr (var_len - 1) else Some var_len
         else None)"
  by pat_completeness auto
termination
  by (relation "measure (\<lambda>(var, ptr, var_len). nat (int ptr + var_len))") auto

declare trim_front.simps [simp del] trim_back.simps [simp del]

definition priv_trim_var :: "bytes \<Rightarrow> nat \<Rightarrow> (nat \<times> nat) option" where
  "priv_trim_var var var_len = do {
     (ptr, n) \<leftarrow> trim_front var 0 (int var_len);
     n \<leftarrow> trim_back var ptr n;
     Some (ptr, nat n)
   }"

definition stun_hash_creds ::
  "StunEnv \<Rightarrow> bytes \<Rightarrow> nat \<Rightarrow> bytes \<Rightarrow> nat \<Rightarrow> bytes \<Rightarrow> nat \<Rightarrow> bytes option" where
  "stun_hash_creds env realm realm_len username username_len password password_len = do {
     (u, username_len) \<leftarrow> priv_trim_var username username_len;
     (p, password_len) \<leftarrow> priv_trim_var password password_len;
     (r, realm_len) \<leftarrow> priv_trim_var realm realm_len;
     username_trimmed \<leftarrow> rd_bytes username u username_len;
     realm_trimmed \<leftarrow> rd_bytes realm r realm_len;
     password_trimmed \<leftarrow> rd_bytes password p password_len;
     Some (md5_hash env (username_trimmed @ [0x3a] @ realm_trimmed @ [0x3a] @ password_trimmed))
   }"

section \<open>Trimming\<close>

definition quote_or_nul :: "u8 \<Rightarrow> bool" where
  "quote_or_nul c \<longleftrightarrow> c = 0x22 \<or> c = 0"

text \<open>A string whose content, between quotes and trailing zeros, is \<open>core\<close>.\<close>

definition trimmable :: "bytes \<Rightarrow> bool" where
  "trimmable core \<longleftrightarrow> core \<noteq> [] \<and> hd core \<noteq> 0x22 \<and> \<not> quote_or_nul (last core)"

lemma trim_front_quotes:
  "core \<noteq> [] \<Longrightarrow> hd core \<noteq> 0x22 \<Longrightarrow> ptr \<le> a \<Longrightarrow>
     trim_front (replicate a 0x22 @ core) ptr n = Some (a, n - int (a - ptr))"
proof (induction "a - ptr" arbitrary: ptr n)
  case 0
  then show ?case by (subst trim_front.simps) (auto simp: nth_append hd_conv_nth)
next
  case (Suc d)
  then have "trim_front (replicate a 0x22 @ core) ptr n =
      trim_front (replicate a 0x22 @ core) (ptr + 1) (n - 1)"
    by (subst trim_front.simps) (simp add: nth_append)
  also have "\<dots> = Some (a, n - 1 - int (a - (ptr + 1)))" using Suc by (intro Suc.hyps) auto
  finally show ?case using Suc by simp
qed

lemma trim_back_tail:
  "trimmable core \<Longrightarrow> list_all quote_or_nul tl1 \<Longrightarrow> var = pre @ core @ tl1 @ rest \<Longrightarrow> ptr = length pre \<Longrightarrow>
     trim_back var ptr (int (length core + length tl1)) = Some (int (length core))"
proof (induction tl1 arbitrary: rest rule: rev_induct)
  case Nil
  have "length core > 0" using Nil by (simp add: trimmable_def)
  then have "nat (int ptr + int (length core) - 1) = length pre + (length core - 1)"
    using Nil(4) by linarith
  moreover have "var ! (length pre + (length core - 1)) = last core"
    using Nil \<open>length core > 0\<close> by (simp add: nth_append last_conv_nth)
  ultimately show ?case
    using Nil \<open>length core > 0\<close> by (subst trim_back.simps)
      (auto simp: trimmable_def quote_or_nul_def Let_def intro: add_nonneg_pos)
next
  case (snoc x xs)
  let ?n = "int (length core + length (xs @ [x]))"
  have "nat (int ptr + ?n - 1) = length (pre @ core @ xs)" using snoc.prems by simp
  moreover have "var ! length (pre @ core @ xs) = x" using snoc.prems by (simp add: nth_append)
  ultimately have "trim_back var ptr ?n = trim_back var ptr (?n - 1)"
    using snoc.prems by (subst trim_back.simps) (simp add: quote_or_nul_def Let_def)
  also have "?n - 1 = int (length core + length xs)" by simp
  finally show ?case using snoc.IH [of "x # rest"] snoc.prems by simp
qed

lemma priv_trim_var_spec:
  assumes "trimmable core" and "list_all quote_or_nul tl1"
    and "var = replicate a 0x22 @ core @ tl1 @ rest" and "n = a + length core + length tl1"
  shows "priv_trim_var var n = Some (a, length core)"
proof -
  have "trim_front var 0 (int n) = Some (a, int (length core + length tl1))"
    using trim_front_quotes [of "core @ tl1 @ rest" 0 a "int n"] assms by (simp add: trimmable_def)
  moreover have "trim_back var a (int (length core + length tl1)) = Some (int (length core))"
    by (rule trim_back_tail [OF assms(1,2,3)]) simp
  ultimately show ?thesis by (simp add: priv_trim_var_def)
qed

text \<open>A string with no content: both loops run past it.\<close>

lemma trim_back_fault:
  "ptr \<le> length var \<Longrightarrow> n \<le> 0 \<Longrightarrow> list_all quote_or_nul (take ptr var) \<Longrightarrow> trim_back var ptr n = None"
proof (induction "nat (int ptr + n)" arbitrary: n)
  case 0
  then show ?case by (subst trim_back.simps) (simp add: Let_def)
next
  case (Suc d)
  then have pos: "0 \<le> int ptr + n - 1" "nat (int ptr + n - 1) < ptr" by auto
  then have "quote_or_nul (take ptr var ! nat (int ptr + n - 1))"
    using Suc.prems by (auto simp: list_all_length)
  then have "quote_or_nul (var ! nat (int ptr + n - 1))" using pos by simp
  then have "trim_back var ptr n = trim_back var ptr (n - 1)"
    using pos Suc.prems by (subst trim_back.simps) (auto simp: quote_or_nul_def Let_def)
  also have "\<dots> = None" using Suc by (intro Suc.hyps) auto
  finally show ?case .
qed

lemma priv_trim_var_fault: "priv_trim_var (replicate a 0x22 @ [0]) a = None"
proof -
  have "trim_front (replicate a 0x22 @ [0]) 0 (int a) = Some (a, 0)"
    using trim_front_quotes [of "[0]" 0 a "int a"] by simp
  moreover have "trim_back (replicate a 0x22 @ [0]) a 0 = None"
    by (rule trim_back_fault) (simp_all add: list_all_length quote_or_nul_def)
  ultimately show ?thesis by (simp add: priv_trim_var_def)
qed

text \<open>C27.  The long-term key is the MD5 digest of user name, realm and password joined by colons,
  each without the quotes around it and the zeros behind it.\<close>

theorem hash_creds_trims:
  assumes "trimmable r" and "trimmable u" and "trimmable p"
    and "list_all quote_or_nul r'" and "list_all quote_or_nul u'" and "list_all quote_or_nul p'"
  shows "stun_hash_creds env
      (replicate a 0x22 @ r @ r') (a + length r + length r')
      (replicate b 0x22 @ u @ u') (b + length u + length u')
      (replicate c 0x22 @ p @ p') (c + length p + length p') =
    Some (md5_hash env (u @ [0x3A] @ r @ [0x3A] @ p))"
  by (simp add: stun_hash_creds_def rd_bytes_def
      priv_trim_var_spec [OF assms(1,4), where rest = "[]"]
      priv_trim_var_spec [OF assms(2,5), where rest = "[]"]
      priv_trim_var_spec [OF assms(3,6), where rest = "[]"])

theorem hash_creds_trims_witness:
  "stun_hash_creds \<lparr>hmac_sha1 = (\<lambda>k d. []), md5_hash = (\<lambda>d. d), package_string = [0]\<rparr>
      [0x22, 0x72, 0x22] (Suc (Suc (Suc 0))) [0x75, 0] (Suc (Suc 0)) [0x70] (Suc 0) = Some [0x75, 0x3A, 0x72, 0x3A, 0x70]"
  using hash_creds_trims [of "[0x72]" "[0x75]" "[0x70]" "[0x22]" "[0]" "[]"
      "\<lparr>hmac_sha1 = (\<lambda>k d. []), md5_hash = (\<lambda>d. d), package_string = [0]\<rparr>" 1 0 0]
  by (simp add: trimmable_def quote_or_nul_def)

text \<open>C30.  A user name that is empty or consists of quotes only makes the computation of the
  long-term key read in front of the string: the length of the trimmed string is decremented
  below zero.\<close>

theorem hash_creds_quotes_fault:
  "stun_hash_creds env realm n (replicate a 0x22 @ [0]) a password m = None"
  by (simp add: stun_hash_creds_def priv_trim_var_fault)

end
