(* ===== verification/Stun_5389.thy ===== *)
theory Stun_5389
  imports Stun_Crc32 Stun_Hmac
begin

unbundle bit_operations_syntax

text \<open>
  The operations of \<^verbatim>\<open>stun/stun5389.c\<close>: the value of FINGERPRINT and the SOFTWARE attribute.
  A 32-bit value that the code keeps in network byte order is the list of its four bytes.
\<close>

definition stun_fingerprint :: "bytes \<Rightarrow> nat \<Rightarrow> bool \<Rightarrow> bytes option" where
  "stun_fingerprint msg len wlm2009_stupid_crc32_typo =
     (let fakelen = be_enc 2 (of_nat len - 20 :: u16) in
      if len < 12 then None
      else do {
        crc \<leftarrow> stun_crc32
          [\<lparr>crc_buf = msg, crc_len = 2\<rparr>,
           \<lparr>crc_buf = fakelen, crc_len = 2\<rparr>,
           \<lparr>crc_buf = drop 4 msg, crc_len = len - 12\<rparr>] wlm2009_stupid_crc32_typo;
        Some (be_enc 4 (crc XOR 0x5354554e))
      })"

definition utf8_skip_data :: "nat list" where
  "utf8_skip_data =
     replicate 192 1 @ replicate 32 2 @ replicate 16 3 @ replicate 8 4 @ replicate 4 5 @ [6, 6, 1, 1]"

text \<open>The loop over the characters of the software name; it reads the byte before the count.\<close>

function software_loop :: "bytes \<Rightarrow> nat \<Rightarrow> nat \<Rightarrow> nat option" where
  "software_loop software p len =
     (if p < length software
      then if software ! p \<noteq> 0 \<and> len < 128
           then software_loop software (p + utf8_skip_data ! unat (software ! p)) (len + 1)
           else Some p
      else None)"
  by pat_completeness auto
termination
  by (relation "measure (\<lambda>(software, p, len). 128 - len)") auto

declare software_loop.simps [simp del]

definition stun_message_append_software ::
  "StunEnv \<Rightarrow> StunMessage \<Rightarrow> bytes ptr \<Rightarrow> (StunMessageReturn \<times> StunMessage) option" where
  "stun_message_append_software env msg software =
     (let software = (case software of Null \<Rightarrow> package_string env | Ptr s \<Rightarrow> s) in do {
        n \<leftarrow> software_loop software 0 0;
        stun_message_append_bytes msg (stun_attribute_code STUN_ATTRIBUTE_SOFTWARE) software n
      })"

section \<open>Facts\<close>

lemma length_stun_fingerprint: "stun_fingerprint msg len typo = Some f \<Longrightarrow> length f = 4"
  by (auto simp: stun_fingerprint_def bind_eq_Some_conv split: if_splits)

lemma crc32_step_defined: "crc32_step typo crc p \<noteq> None"
  using unat_low_byte [of "crc XOR ucast p"]
  by (simp add: crc32_step_def nth_opt_def length_crc32_tab)

lemma crc32_bytes_defined: "crc32_bytes typo crc ps \<noteq> None"
proof (induction ps arbitrary: crc)
  case (Cons p ps)
  then show ?case using crc32_step_defined [of typo crc p] by auto
qed simp

lemma stun_fingerprint_defined:
  assumes "20 \<le> len" and "len \<le> length msg"
  shows "\<exists>f. stun_fingerprint msg len typo = Some f \<and> length f = 4"
proof -
  have "crc32_pieces typo crc ds \<noteq> None" if "\<forall>d \<in> set ds. crc_len d \<le> length (crc_buf d)" for crc ds
    using that
  proof (induction ds arbitrary: crc)
    case (Cons d ds)
    then show ?case
      using crc32_bytes_defined [of typo crc "take (crc_len d) (crc_buf d)"] by (auto simp: rd_bytes_def)
  qed simp
  note d = this
  have "len - 12 \<le> length msg - 4" using assms by linarith
  with d [of "[\<lparr>crc_buf = msg, crc_len = 2\<rparr>, \<lparr>crc_buf = be_enc 2 (of_nat len - 20 :: u16), crc_len = 2\<rparr>,
      \<lparr>crc_buf = drop 4 msg, crc_len = len - 12\<rparr>]" "0xffffffff"] assms
  show ?thesis by (auto simp: stun_fingerprint_def stun_crc32_def Let_def simp del: crc32_pieces.simps)
qed

lemma stun_fingerprint_reference:
  assumes "20 \<le> len" and "len \<le> length msg"
  shows "stun_fingerprint msg len False = Some (be_enc 4
    (crc32_reference (take 2 msg @ be_enc 2 (of_nat (len - 20) :: u16) @ take (len - 12) (drop 4 msg))
       XOR 0x5354554e))"
proof -
  have "(of_nat len - 20 :: u16) = of_nat (len - 20)" using assms(1) by (simp add: of_nat_diff)
  then show ?thesis
    using assms by (simp add: stun_fingerprint_def stun_crc32_def crc32_pieces_bits crc32_reference_def
        del: crc32_pieces.simps)
qed

lemma software_loop_ascii:
  assumes "\<forall>c \<in> set s. c \<noteq> 0 \<and> c < 128" and "p \<le> length s" and "len \<le> 128"
  shows "software_loop (s @ 0 # rest) p len = Some (min (length s) (p + (128 - len)))"
  using assms(2,3)
proof (induction "128 - len" arbitrary: p len)
  case 0
  then show ?case by (subst software_loop.simps) auto
next
  case (Suc d)
  show ?case
  proof (cases "p < length s")
    case True
    then have c: "s ! p \<noteq> 0" "unat (s ! p) < 128" using assms(1) by (auto simp: word_less_nat_alt)
    then have "utf8_skip_data ! unat (s ! p) = 1" by (simp add: utf8_skip_data_def nth_append)
    with c True Suc have "software_loop (s @ 0 # rest) p len = software_loop (s @ 0 # rest) (p + 1) (len + 1)"
      by (subst software_loop.simps) (simp add: nth_append)
    also have "\<dots> = Some (min (length s) (p + 1 + (128 - (len + 1))))"
      using True Suc by (intro Suc.hyps) auto
    finally show ?thesis using Suc by auto
  next
    case False
    with Suc.prems show ?thesis by (subst software_loop.simps) (simp add: nth_append)
  qed
qed

end
