(* ===== verification/Stun_Agent.thy ===== *)
theory Stun_Agent
  imports Stun_5389
begin

unbundle bit_operations_syntax

text \<open>
  The agent of \<^verbatim>\<open>stun/stunagent.c\<close>: the table of sent transactions, building requests,
  indications, responses and errors, finishing a message with its MESSAGE-INTEGRITY and
  FINGERPRINT, and validating a received message.  Operations take the agent and the message
  and return them as they are afterwards, also on the paths that give up early.  The random
  transaction identifier is an argument of the two operations that draw one, and the validater
  callback is an argument of \<open>stun_agent_validate\<close>.
\<close>

section \<open>Initialisation and the validater\<close>

text \<open>The two compatibility modes that use the magic cookie.\<close>

definition cookie_compat :: "'a StunAgentCfg_scheme \<Rightarrow> bool" where
  "cookie_compat a \<longleftrightarrow>
     compatibility a = STUN_COMPATIBILITY_RFC5389 \<or> compatibility a = STUN_COMPATIBILITY_MSICE2"

definition stun_agent_init ::
  "StunAgent \<Rightarrow> u16 list \<Rightarrow> StunCompatibility \<Rightarrow> u32 \<Rightarrow> StunAgent" where
  "stun_agent_init agt known cmp flags =
     agt\<lparr>known_attributes := known, compatibility := cmp, usage_flags := flags,
         software_attribute := Null,
         ms_ice2_send_legacy_connchecks := (cmp = STUN_COMPATIBILITY_MSICE2),
         sent_ids := map (\<lambda>s. s\<lparr>sid_valid := False\<rparr>) (take STUN_AGENT_MAX_SAVED_IDS (sent_ids agt)) @
                     drop STUN_AGENT_MAX_SAVED_IDS (sent_ids agt)\<rparr>"

definition stun_agent_set_software :: "StunAgent \<Rightarrow> bytes ptr \<Rightarrow> StunAgent" where
  "stun_agent_set_software agt software = agt\<lparr>software_attribute := software\<rparr>"

text \<open>
  A validater receives the message, the USERNAME value with its length and the key found so
  far, and returns its verdict with the key it leaves behind.  The data of the default
  validater is an array that a null user name ends.
\<close>

type_synonym StunMessageIntegrityValidate =
  "StunMessage \<Rightarrow> bytes ptr \<Rightarrow> nat \<Rightarrow> bytes ptr \<Rightarrow> (bool \<times> bytes ptr) option"

record StunDefaultValidaterData =
  vd_username :: "bytes ptr"
  vd_password :: "bytes ptr"

fun default_validater_loop ::
  "StunDefaultValidaterData list \<Rightarrow> bytes ptr \<Rightarrow> nat \<Rightarrow> bytes ptr \<Rightarrow> (bool \<times> bytes ptr) option" where
  "default_validater_loop [] username username_len password = None"
| "default_validater_loop (v # vs) username username_len password =
     (case vd_username v of
        Null \<Rightarrow> Some (False, password)
      | Ptr u \<Rightarrow>
          if username_len = length u \<and>
             (username_len = 0 \<or> (case username of Null \<Rightarrow> False | Ptr x \<Rightarrow> take username_len x = u))
          then Some (True, vd_password v)
          else default_validater_loop vs username username_len password)"

definition stun_agent_default_validater ::
  "StunDefaultValidaterData list ptr \<Rightarrow> StunMessageIntegrityValidate" where
  "stun_agent_default_validater user_data message username username_len password =
     (case user_data of
        Null \<Rightarrow> Some (False, password)
      | Ptr vs \<Rightarrow> default_validater_loop vs username username_len password)"

section \<open>Fingerprint check and unknown attributes\<close>

definition stun_agent_check_fingerprint :: "StunAgent \<Rightarrow> StunMessage \<Rightarrow> bool option" where
  "stun_agent_check_fingerprint agt msg = do {
     (r, fpr) \<leftarrow> stun_message_find32 msg (stun_attribute_code STUN_ATTRIBUTE_FINGERPRINT) None;
     if r \<noteq> STUN_MESSAGE_RETURN_SUCCESS then Some False
     else do {
       msg_len \<leftarrow> stun_message_length msg;
       crc32 \<leftarrow> stun_fingerprint (buffer msg) (unat msg_len) False;
       fpr \<leftarrow> fpr;
       let fpr = be_enc 4 fpr;
       if fpr \<noteq> crc32
       then sc_and (Some (compatibility agt = STUN_COMPATIBILITY_MSICE2))
              (sc_and (map_option (\<lambda>r. r = Null)
                 (stun_message_find msg (stun_attribute_code STUN_ATTRIBUTE_MS_IMPLEMENTATION_VERSION)))
               (map_option (\<lambda>c. fpr = c) (stun_fingerprint (buffer msg) (unat msg_len) True)))
       else Some True
     }
   }"

fun stun_agent_is_unknown :: "u16 list \<Rightarrow> u16 \<Rightarrow> bool option" where
  "stun_agent_is_unknown [] type = None"
| "stun_agent_is_unknown (known_attr # rest) type =
     (if known_attr \<noteq> 0 then if known_attr = type then Some False else stun_agent_is_unknown rest type
      else Some True)"

text \<open>The loop over the attributes; \<open>found\<close> are the unknown types so far.\<close>

function unknowns_loop :: "StunAgent \<Rightarrow> bytes \<Rightarrow> nat \<Rightarrow> nat \<Rightarrow> nat \<Rightarrow> u16 list \<Rightarrow> u16 list option" where
  "unknowns_loop agt buf len maxn offset found =
     (if offset < len \<and> length found < maxn then do {
        alen \<leftarrow> stun_getw buf (offset + STUN_ATTRIBUTE_TYPE_LEN);
        atype \<leftarrow> stun_getw buf offset;
        u \<leftarrow> sc_and (Some (\<not> stun_optional atype)) (stun_agent_is_unknown (known_attributes agt) atype);
        let found = (if u then found @ [atype] else found);
        let alen = (if has_usage agt STUN_AGENT_USAGE_NO_ALIGNED_ATTRIBUTES then unat alen
                    else stun_align (unat alen));
        unknowns_loop agt buf len maxn (offset + STUN_ATTRIBUTE_VALUE_POS + alen) found
      } else Some found)"
  by pat_completeness auto
termination
  by (relation "measure (\<lambda>(agt, buf, len, maxn, offset, found). len - offset)")
    (auto simp: stun_pos_defs)

declare unknowns_loop.simps [simp del]

definition stun_agent_find_unknowns :: "StunAgent \<Rightarrow> StunMessage \<Rightarrow> nat \<Rightarrow> u16 list option" where
  "stun_agent_find_unknowns agt msg maxn = do {
     len \<leftarrow> stun_message_length msg;
     unknowns_loop agt (buffer msg) (unat len) maxn STUN_MESSAGE_ATTRIBUTES_POS []
   }"

section \<open>The table of sent transactions\<close>

text \<open>The index at which a search of the table stops: the first entry that satisfies the
  condition, or the size of the table.\<close>

fun saved_id_idx :: "(StunAgentSavedIds \<Rightarrow> bool) \<Rightarrow> StunAgentSavedIds list \<Rightarrow> nat" where
  "saved_id_idx P [] = 0"
| "saved_id_idx P (s # ss) = (if P s then 0 else Suc (saved_id_idx P ss))"

definition put_id :: "nat \<Rightarrow> StunAgentSavedIds \<Rightarrow> StunAgent \<Rightarrow> StunAgent" where
  "put_id i s agt = agt\<lparr>sent_ids := (sent_ids agt)[i := s]\<rparr>"

definition invalidate_id :: "nat \<Rightarrow> StunAgent \<Rightarrow> StunAgent" where
  "invalidate_id i agt = put_id i ((sent_ids agt ! i)\<lparr>sid_valid := False\<rparr>) agt"

definition stun_agent_forget_transaction :: "StunAgent \<Rightarrow> bytes \<Rightarrow> bool \<times> StunAgent" where
  "stun_agent_forget_transaction agt tid =
     (let i = saved_id_idx (\<lambda>s. sid_valid s \<and> tid = sid_id s) (sent_ids agt)
      in if i < length (sent_ids agt) then (True, invalidate_id i agt) else (False, agt))"

section \<open>Building messages\<close>

text \<open>The part of an agent that messages see through their pointer to it.\<close>

definition agent_cfg :: "StunAgent \<Rightarrow> StunAgentCfg" where
  "agent_cfg agt = StunAgentCfg.truncate agt"

definition adds_software :: "StunAgent \<Rightarrow> bool" where
  "adds_software agt \<longleftrightarrow>
     cookie_compat agt \<and> (software_attribute agt \<noteq> Null \<or> has_usage agt STUN_AGENT_USAGE_ADD_SOFTWARE)"

definition maybe_append_software :: "StunEnv \<Rightarrow> StunAgent \<Rightarrow> StunMessage \<Rightarrow> StunMessage option" where
  "maybe_append_software env agt msg =
     (if adds_software agt
      then map_option snd (stun_message_append_software env msg (software_attribute agt))
      else Some msg)"

definition stun_agent_init_request ::
  "StunEnv \<Rightarrow> StunAgent \<Rightarrow> StunMessage \<Rightarrow> bytes \<Rightarrow> nat \<Rightarrow> u16 \<Rightarrow> bytes \<Rightarrow> (bool \<times> StunMessage) option" where
  "stun_agent_init_request env agt msg buf buf_len m tid = do {
     let msg = msg\<lparr>buffer := buf, buffer_len := buf_len, agent := Ptr (agent_cfg agt),
                   msg_key := Null, long_term_valid := False\<rparr>;
     (ret, msg) \<leftarrow> stun_message_init msg STUN_REQUEST m tid;
     if ret then do {
       msg \<leftarrow> (if cookie_compat agt then do {
                 b \<leftarrow> wr_bytes (buffer msg) STUN_MESSAGE_TRANS_ID_POS (be_enc 4 STUN_MAGIC_COOKIE);
                 Some (msg\<lparr>buffer := b\<rparr>)
               } else Some msg);
       msg \<leftarrow> maybe_append_software env agt msg;
       Some (ret, msg)
     } else Some (ret, msg)
   }"

definition stun_agent_init_indication ::
  "StunAgent \<Rightarrow> StunMessage \<Rightarrow> bytes \<Rightarrow> nat \<Rightarrow> u16 \<Rightarrow> bytes \<Rightarrow> (bool \<times> StunMessage) option" where
  "stun_agent_init_indication agt msg buf buf_len m tid = do {
     let msg = msg\<lparr>buffer := buf, buffer_len := buf_len, agent := Ptr (agent_cfg agt),
                   msg_key := Null, long_term_valid := False\<rparr>;
     (ret, msg) \<leftarrow> stun_message_init msg STUN_INDICATION m tid;
     if ret then do {
       msg \<leftarrow> (if cookie_compat agt then do {
                 b \<leftarrow> wr_bytes (buffer msg) STUN_MESSAGE_TRANS_ID_POS (be_enc 4 STUN_MAGIC_COOKIE);
                 Some (msg\<lparr>buffer := b\<rparr>)
               } else Some msg);
       Some (ret, msg)
     } else Some (ret, msg)
   }"

definition stun_agent_init_response ::
  "StunEnv \<Rightarrow> StunAgent \<Rightarrow> StunMessage \<Rightarrow> bytes \<Rightarrow> nat \<Rightarrow> StunMessage \<Rightarrow> (bool \<times> StunMessage) option" where
  "stun_agent_init_response env agt msg buf buf_len request = do {
     cls \<leftarrow> stun_message_get_class request;
     if cls \<noteq> STUN_REQUEST then Some (False, msg)
     else do {
       let msg = msg\<lparr>buffer := buf, buffer_len := buf_len, agent := Ptr (agent_cfg agt),
                     msg_key := msg_key request, long_term_key := long_term_key request,
                     long_term_valid := long_term_valid request\<rparr>;
       id \<leftarrow> stun_message_id request;
       method \<leftarrow> stun_message_get_method request;
       (ok, msg) \<leftarrow> stun_message_init msg STUN_RESPONSE method id;
       if ok then do {
         msg \<leftarrow> maybe_append_software env agt msg;
         Some (True, msg)
       } else Some (False, msg)
     }
   }"

definition stun_agent_init_error ::
  "StunEnv \<Rightarrow> StunAgent \<Rightarrow> StunMessage \<Rightarrow> bytes \<Rightarrow> nat \<Rightarrow> StunMessage \<Rightarrow> StunError \<Rightarrow>
     (bool \<times> StunMessage) option" where
  "stun_agent_init_error env agt msg buf buf_len request err = do {
     cls \<leftarrow> stun_message_get_class request;
     if cls \<noteq> STUN_REQUEST then Some (False, msg)
     else do {
       let msg = msg\<lparr>buffer := buf, buffer_len := buf_len, agent := Ptr (agent_cfg agt),
                     msg_key := msg_key request, long_term_key := long_term_key request,
                     long_term_valid := long_term_valid request\<rparr>;
       id \<leftarrow> stun_message_id request;
       method \<leftarrow> stun_message_get_method request;
       (ok, msg) \<leftarrow> stun_message_init msg STUN_ERROR method id;
       if ok then do {
         msg \<leftarrow> maybe_append_software env agt msg;
         (r, msg) \<leftarrow> stun_message_append_error msg err;
         Some (r = STUN_MESSAGE_RETURN_SUCCESS, msg)
       } else Some (False, msg)
     }
   }"

section \<open>Finishing a message\<close>

text \<open>The HMAC that \<open>stun_agent_finish_message\<close> stores, for the key that the flags select.\<close>

definition finish_sha1 :: "StunEnv \<Rightarrow> StunAgent \<Rightarrow> StunMessage \<Rightarrow> bytes \<Rightarrow> bytes option" where
  "finish_sha1 env agt msg k = do {
     len \<leftarrow> stun_message_length msg;
     if compatibility agt = STUN_COMPATIBILITY_RFC3489 \<or> compatibility agt = STUN_COMPATIBILITY_OC2007
     then stun_sha1 env (buffer msg) (unat len) (unat (len - 20)) k True
     else if compatibility agt = STUN_COMPATIBILITY_MSICE2
     then (let minus = (if has_usage agt STUN_AGENT_USAGE_USE_FINGERPRINT then 12 else 20)
           in stun_sha1 env (buffer msg) (unat len) (unat (len - minus)) k True)
     else stun_sha1 env (buffer msg) (unat len) (unat (len - 20)) k False
   }"

text \<open>
  The credentials part: \<open>Ptr\<close> of the key for the HMAC, or \<open>Null\<close> where the user name or the
  realm that a long-term key needs is missing and no MESSAGE-INTEGRITY is sent.
\<close>

definition finish_credentials ::
  "StunEnv \<Rightarrow> StunAgent \<Rightarrow> StunMessage \<Rightarrow> bytes \<Rightarrow> (bytes ptr \<times> StunMessage) option" where
  "finish_credentials env agt msg key =
     (if long_term_valid msg
      then Some (Ptr (if has_usage agt STUN_AGENT_USAGE_LONG_TERM_CREDENTIALS then long_term_key msg else key), msg)
      else if has_usage agt STUN_AGENT_USAGE_LONG_TERM_CREDENTIALS then do {
        realm \<leftarrow> stun_message_find msg (stun_attribute_code STUN_ATTRIBUTE_REALM);
        username \<leftarrow> stun_message_find msg (stun_attribute_code STUN_ATTRIBUTE_USERNAME);
        (case (username, realm) of
           (Ptr (u, ul), Ptr (r, rl)) \<Rightarrow> do {
             md5 \<leftarrow> stun_hash_creds env (drop r (buffer msg)) (unat rl) (drop u (buffer msg)) (unat ul)
                     key (length key);
             Some (Ptr md5, msg\<lparr>long_term_key := md5, long_term_valid := True\<rparr>)
           }
         | _ \<Rightarrow> Some (Null, msg))
      } else Some (Ptr key, msg))"

text \<open>Appending MESSAGE-INTEGRITY and FINGERPRINT; \<open>False\<close> where there is no room.\<close>

definition finish_integrity ::
  "StunEnv \<Rightarrow> StunAgent \<Rightarrow> StunMessage \<Rightarrow> bytes ptr \<Rightarrow> (bool \<times> StunMessage) option" where
  "finish_integrity env agt msg key =
     (case key of
        Null \<Rightarrow> Some (True, msg)
      | Ptr key \<Rightarrow> do {
          (k, msg) \<leftarrow> finish_credentials env agt msg key;
          (case k of
             Null \<Rightarrow> Some (True, msg)
           | Ptr k \<Rightarrow> do {
               (r, msg) \<leftarrow> stun_message_append msg (stun_attribute_code STUN_ATTRIBUTE_MESSAGE_INTEGRITY) 20;
               (case r of
                  Null \<Rightarrow> Some (False, msg)
                | Ptr p \<Rightarrow> do {
                    sha \<leftarrow> finish_sha1 env agt msg k;
                    b \<leftarrow> wr_bytes (buffer msg) p sha;
                    Some (True, msg\<lparr>buffer := b\<rparr>)
                  })
             })
        })"

definition finish_fingerprint :: "StunAgent \<Rightarrow> StunMessage \<Rightarrow> (bool \<times> StunMessage) option" where
  "finish_fingerprint agt msg =
     (if cookie_compat agt \<and> has_usage agt STUN_AGENT_USAGE_USE_FINGERPRINT then do {
        (r, msg) \<leftarrow> stun_message_append msg (stun_attribute_code STUN_ATTRIBUTE_FINGERPRINT) 4;
        (case r of
           Null \<Rightarrow> Some (False, msg)
         | Ptr p \<Rightarrow> do {
             len \<leftarrow> stun_message_length msg;
             fpr \<leftarrow> stun_fingerprint (buffer msg) (unat len) False;
             b \<leftarrow> wr_bytes (buffer msg) p fpr;
             Some (True, msg\<lparr>buffer := b\<rparr>)
           })
      } else Some (True, msg))"

definition save_id :: "nat \<Rightarrow> StunMessage \<Rightarrow> bytes ptr \<Rightarrow> StunAgent \<Rightarrow> StunAgent option" where
  "save_id i msg key agt = do {
     id \<leftarrow> stun_message_id msg;
     method \<leftarrow> stun_message_get_method msg;
     Some (put_id i \<lparr>sid_id = id, sid_method = method, sid_key = key,
       sid_long_term_key = long_term_key msg, sid_long_term_valid = long_term_valid msg,
       sid_valid = True\<rparr> agt)
   }"

definition stun_agent_finish_message ::
  "StunEnv \<Rightarrow> StunAgent \<Rightarrow> StunMessage \<Rightarrow> bytes ptr \<Rightarrow> (nat \<times> StunAgent \<times> StunMessage) option" where
  "stun_agent_finish_message env agt msg key = do {
     cls \<leftarrow> stun_message_get_class msg;
     method \<leftarrow> stun_message_get_method msg;
     let remember_transaction = (cls = STUN_REQUEST \<and>
       \<not> (compatibility agt = STUN_COMPATIBILITY_OC2007 \<and> method = stun_method_code STUN_SEND));
     let idx = (if remember_transaction then saved_id_idx (\<lambda>s. \<not> sid_valid s) (sent_ids agt) else 0);
     if remember_transaction \<and> idx = length (sent_ids agt) then Some (0, agt, msg)
     else do {
       let key = (if msg_key msg \<noteq> Null then msg_key msg else key);
       (ok, msg) \<leftarrow> finish_integrity env agt msg key;
       if \<not> ok then Some (0, agt, msg)
       else do {
         (ok, msg) \<leftarrow> finish_fingerprint agt msg;
         if \<not> ok then Some (0, agt, msg)
         else do {
           agt \<leftarrow> (if remember_transaction then save_id idx msg key agt else Some agt);
           let msg = msg\<lparr>msg_key := key\<rparr>;
           len \<leftarrow> stun_message_length msg;
           Some (unat len, agt, msg)
         }
       }
     }
   }"

definition stun_agent_build_unknown_attributes_error ::
  "StunEnv \<Rightarrow> StunAgent \<Rightarrow> StunMessage \<Rightarrow> bytes \<Rightarrow> nat \<Rightarrow> StunMessage \<Rightarrow>
     (nat \<times> StunAgent \<times> StunMessage) option" where
  "stun_agent_build_unknown_attributes_error env agt msg buf buf_len request = do {
     ids \<leftarrow> stun_agent_find_unknowns agt request STUN_AGENT_MAX_UNKNOWN_ATTRIBUTES;
     (ok, msg) \<leftarrow> stun_agent_init_error env agt msg buf buf_len request STUN_ERROR_UNKNOWN_ATTRIBUTE;
     if \<not> ok then Some (0, agt, msg)
     else do {
       cookie \<leftarrow> stun_message_has_cookie request;
       let ids = (if \<not> cookie \<and> odd (length ids) then ids @ [ids ! 0] else ids);
       (r, msg) \<leftarrow> stun_message_append_bytes msg (stun_attribute_code STUN_ATTRIBUTE_UNKNOWN_ATTRIBUTES)
                    (concat (map (be_enc 2) ids)) (length ids * 2);
       if r = STUN_MESSAGE_RETURN_SUCCESS
       then stun_agent_finish_message env agt msg (msg_key request)
       else Some (0, agt, msg)
     }
   }"

section \<open>Validating a received message\<close>

text \<open>
  The steps of \<open>stun_agent_validate\<close>.  The local variable \<open>error_code\<close> is a cell that only a
  successful \<open>stun_message_find_error\<close> assigns.
\<close>

definition validate_ignore_credentials ::
  "StunAgent \<Rightarrow> StunMessage \<Rightarrow> int option \<Rightarrow> (bool \<times> int option) option" where
  "validate_ignore_credentials agt msg error_code =
     (if has_usage agt STUN_AGENT_USAGE_IGNORE_CREDENTIALS then Some (True, error_code)
      else do {
        cls \<leftarrow> stun_message_get_class msg;
        (ign, error_code) \<leftarrow>
          (if cls = STUN_ERROR then do {
             (r, error_code) \<leftarrow> stun_message_find_error msg error_code;
             if r = STUN_MESSAGE_RETURN_SUCCESS then do {
               c \<leftarrow> error_code;
               Some (c = int (stun_error_code STUN_ERROR_BAD_REQUEST) \<or>
                     c = int (stun_error_code STUN_ERROR_UNAUTHORIZED) \<or>
                     c = int (stun_error_code STUN_ERROR_STALE_NONCE) \<or>
                     c = int (stun_error_code STUN_ERROR_TRY_ALTERNATE), error_code)
             } else Some (False, error_code)
           } else Some (False, error_code));
        Some (ign \<or> (cls = STUN_INDICATION \<and>
                (has_usage agt STUN_AGENT_USAGE_LONG_TERM_CREDENTIALS \<or>
                 has_usage agt STUN_AGENT_USAGE_NO_INDICATION_AUTH)), error_code)
      })"

definition validate_lacks_credentials :: "StunAgent \<Rightarrow> StunMessage \<Rightarrow> StunClass \<Rightarrow> bool option" where
  "validate_lacks_credentials agt msg cls =
     (let has = (\<lambda>t. stun_message_has_attribute msg (stun_attribute_code t)) in
      sc_or (sc_and (Some (has_usage agt STUN_AGENT_USAGE_SHORT_TERM_CREDENTIALS))
               (sc_or (sc_not (has STUN_ATTRIBUTE_USERNAME)) (sc_not (has STUN_ATTRIBUTE_MESSAGE_INTEGRITY))))
       (sc_or (sc_and (Some (has_usage agt STUN_AGENT_USAGE_LONG_TERM_CREDENTIALS))
                (sc_and (Some (cls = STUN_REQUEST))
                  (sc_or (sc_not (has STUN_ATTRIBUTE_USERNAME))
                    (sc_or (sc_not (has STUN_ATTRIBUTE_MESSAGE_INTEGRITY))
                      (sc_or (sc_not (has STUN_ATTRIBUTE_NONCE)) (sc_not (has STUN_ATTRIBUTE_REALM)))))))
         (sc_and (Some (\<not> has_usage agt STUN_AGENT_USAGE_IGNORE_CREDENTIALS))
           (sc_and (has STUN_ATTRIBUTE_USERNAME) (sc_not (has STUN_ATTRIBUTE_MESSAGE_INTEGRITY))))))"

text \<open>The key that the validater supplies where MESSAGE-INTEGRITY is present and a key is needed;
  \<open>False\<close> where it rejects.\<close>

definition validate_get_key ::
  "StunAgent \<Rightarrow> StunMessage \<Rightarrow> bool \<Rightarrow> StunMessageIntegrityValidate ptr \<Rightarrow> bytes ptr \<Rightarrow>
     (bool \<times> bytes ptr) option" where
  "validate_get_key agt msg ignore_credentials validater key = do {
     has_mi \<leftarrow> stun_message_has_attribute msg (stun_attribute_code STUN_ATTRIBUTE_MESSAGE_INTEGRITY);
     if has_mi \<and> ((key = Null \<and> \<not> ignore_credentials) \<or> has_usage agt STUN_AGENT_USAGE_FORCE_VALIDATER)
     then do {
       u \<leftarrow> stun_message_find msg (stun_attribute_code STUN_ATTRIBUTE_USERNAME);
       (username, username_len) \<leftarrow>
         (case u of Null \<Rightarrow> Some (Null, 0)
          | Ptr (p, l) \<Rightarrow> do { x \<leftarrow> rd_bytes (buffer msg) p (unat l); Some (Ptr x, unat l) });
       (case validater of Null \<Rightarrow> Some (False, key) | Ptr v \<Rightarrow> v msg username username_len key)
     } else Some (True, key)
   }"

definition validate_sha1 :: "StunEnv \<Rightarrow> StunAgent \<Rightarrow> StunMessage \<Rightarrow> nat \<Rightarrow> bytes \<Rightarrow> bytes option" where
  "validate_sha1 env agt msg hash k =
     (if compatibility agt = STUN_COMPATIBILITY_RFC3489 \<or> compatibility agt = STUN_COMPATIBILITY_OC2007
      then stun_sha1 env (buffer msg) (hash + 20) hash k True
      else if compatibility agt = STUN_COMPATIBILITY_MSICE2
      then do { len \<leftarrow> stun_message_length msg; stun_sha1 env (buffer msg) (hash + 20) (unat (len - 20)) k True }
      else stun_sha1 env (buffer msg) (hash + 20) hash k False)"

text \<open>The key of the HMAC, with the message in which a long-term key is remembered; \<open>Null\<close>
  where the user name or the realm is missing.\<close>

definition validate_credentials ::
  "StunEnv \<Rightarrow> StunAgent \<Rightarrow> StunMessage \<Rightarrow> bytes \<Rightarrow> bytes \<Rightarrow> bool \<Rightarrow> (bytes ptr \<times> StunMessage) option" where
  "validate_credentials env agt msg key lt_key lt_key_valid =
     (if has_usage agt STUN_AGENT_USAGE_LONG_TERM_CREDENTIALS
      then if lt_key_valid then Some (Ptr lt_key, msg\<lparr>long_term_key := lt_key, long_term_valid := True\<rparr>)
      else do {
        realm \<leftarrow> stun_message_find msg (stun_attribute_code STUN_ATTRIBUTE_REALM);
        username \<leftarrow> stun_message_find msg (stun_attribute_code STUN_ATTRIBUTE_USERNAME);
        (case (username, realm) of
           (Ptr (u, ul), Ptr (r, rl)) \<Rightarrow> do {
             md5 \<leftarrow> stun_hash_creds env (drop r (buffer msg)) (unat rl) (drop u (buffer msg)) (unat ul)
                     key (length key);
             Some (Ptr md5, msg\<lparr>long_term_key := md5, long_term_valid := True\<rparr>)
           }
         | _ \<Rightarrow> Some (Null, msg))
      } else Some (Ptr key, msg))"

text \<open>The check of MESSAGE-INTEGRITY; \<open>False\<close> stands for the return of
  \<open>STUN_VALIDATION_UNAUTHORIZED\<close>.\<close>

definition validate_integrity ::
  "StunEnv \<Rightarrow> StunAgent \<Rightarrow> StunMessage \<Rightarrow> bytes \<Rightarrow> bytes \<Rightarrow> bool \<Rightarrow> int option \<Rightarrow>
     (bool \<times> StunMessage \<times> int option) option" where
  "validate_integrity env agt msg key lt_key lt_key_valid error_code = do {
     hash \<leftarrow> stun_message_find msg (stun_attribute_code STUN_ATTRIBUTE_MESSAGE_INTEGRITY);
     (case hash of
        Ptr (h, hlen) \<Rightarrow> do {
          (k, msg) \<leftarrow> validate_credentials env agt msg key lt_key lt_key_valid;
          (case k of
             Null \<Rightarrow> Some (False, msg, error_code)
           | Ptr k \<Rightarrow> do {
               sha \<leftarrow> validate_sha1 env agt msg h k;
               received \<leftarrow> rd_bytes (buffer msg) h 20;
               if take 20 sha \<noteq> received then Some (False, msg, error_code)
               else Some (True, msg\<lparr>msg_key := Ptr key\<rparr>, error_code)
             })
        }
      | Null \<Rightarrow> do {
          cls \<leftarrow> stun_message_get_class msg;
          if cls = STUN_ERROR then do {
            (r, error_code) \<leftarrow> stun_message_find_error msg error_code;
            if r = STUN_MESSAGE_RETURN_SUCCESS then do {
              c \<leftarrow> error_code;
              Some (c = int (stun_error_code STUN_ERROR_BAD_REQUEST) \<or>
                    c = int (stun_error_code STUN_ERROR_UNAUTHORIZED), msg, error_code)
            } else Some (False, msg, error_code)
          } else Some (False, msg, error_code)
        })
   }"

text \<open>The end of \<open>stun_agent_validate\<close>, behind the credentials: consent freshness, the used
  transaction, the implementation version and the unknown attributes.\<close>

definition validate_finish ::
  "StunAgent \<Rightarrow> StunMessage \<Rightarrow> StunClass \<Rightarrow> nat ptr \<Rightarrow> int option \<Rightarrow>
     (StunValidationStatus \<times> StunAgent \<times> StunMessage) option" where
  "validate_finish agt msg cls sent_id_idx error_code = do {
     forbidden \<leftarrow>
       (if has_usage agt STUN_AGENT_USAGE_CONSENT_FRESHNESS \<and> cls = STUN_ERROR then do {
          (r, error_code) \<leftarrow> stun_message_find_error msg error_code;
          c \<leftarrow> error_code;
          Some (c = int (stun_error_code STUN_ERROR_FORBIDDEN))
        } else Some False);
     if forbidden then Some (STUN_VALIDATION_FORBIDDEN, agt, msg)
     else do {
       let agt = (case sent_id_idx of Null \<Rightarrow> agt | Ptr i \<Rightarrow> invalidate_id i agt);
       (r, v) \<leftarrow> stun_message_find32 msg (stun_attribute_code STUN_ATTRIBUTE_MS_IMPLEMENTATION_VERSION) None;
       let agt = (if r = STUN_MESSAGE_RETURN_SUCCESS then agt\<lparr>ms_ice2_send_legacy_connchecks := False\<rparr> else agt);
       unknown \<leftarrow> stun_agent_find_unknowns agt msg 1;
       Some (if length unknown > 0
             then if cls = STUN_REQUEST then STUN_VALIDATION_UNKNOWN_REQUEST_ATTRIBUTE
                  else STUN_VALIDATION_UNKNOWN_ATTRIBUTE
             else STUN_VALIDATION_SUCCESS, agt, msg)
     }
   }"

text \<open>The search of the sent transactions for a response: \<open>None\<close> inside is the return of
  \<open>STUN_VALIDATION_UNMATCHED_RESPONSE\<close>; otherwise the index, the key and the long-term key.\<close>

definition validate_match ::
  "StunAgent \<Rightarrow> StunMessage \<Rightarrow> StunClass \<Rightarrow> (nat ptr \<times> bytes ptr \<times> bytes \<times> bool) option option" where
  "validate_match agt msg cls =
     (if cls = STUN_RESPONSE \<or> cls = STUN_ERROR then do {
        msg_id \<leftarrow> stun_message_id msg;
        method \<leftarrow> stun_message_get_method msg;
        let i = saved_id_idx (\<lambda>s. sid_valid s \<and> sid_method s = method \<and> msg_id = sid_id s) (sent_ids agt);
        Some (if i = length (sent_ids agt) then None
              else (let s = sent_ids agt ! i
                    in Some (Ptr i, sid_key s, sid_long_term_key s, sid_long_term_valid s)))
      } else Some (Some (Null, Null, replicate 16 0, False)))"

text \<open>The part between the header checks and the end: the credentials of the message.\<close>

definition validate_auth ::
  "StunEnv \<Rightarrow> StunAgent \<Rightarrow> StunMessage \<Rightarrow> StunClass \<Rightarrow> StunMessageIntegrityValidate ptr \<Rightarrow>
     nat ptr \<Rightarrow> bytes ptr \<Rightarrow> bytes \<Rightarrow> bool \<Rightarrow> (StunValidationStatus \<times> StunAgent \<times> StunMessage) option" where
  "validate_auth env agt msg cls validater sent_id_idx key lt_key lt_key_valid = do {
     (ignore_credentials, error_code) \<leftarrow> validate_ignore_credentials agt msg None;
     lacks \<leftarrow> sc_and (Some (key = Null \<and> \<not> ignore_credentials \<and> (cls = STUN_REQUEST \<or> cls = STUN_INDICATION)))
               (validate_lacks_credentials agt msg cls);
     if lacks then Some (STUN_VALIDATION_UNAUTHORIZED_BAD_REQUEST, agt, msg)
     else do {
       (ok, key) \<leftarrow> validate_get_key agt msg ignore_credentials validater key;
       if \<not> ok then Some (STUN_VALIDATION_UNAUTHORIZED, agt, msg)
       else do {
         (ok, msg, error_code) \<leftarrow>
           (case key of
              Null \<Rightarrow> Some (True, msg, error_code)
            | Ptr k \<Rightarrow> if \<not> ignore_credentials \<and> length k > 0
                       then validate_integrity env agt msg k lt_key lt_key_valid error_code
                       else Some (True, msg, error_code));
         if \<not> ok then Some (STUN_VALIDATION_UNAUTHORIZED, agt, msg)
         else validate_finish agt msg cls sent_id_idx error_code
       }
     }
   }"

definition stun_agent_validate ::
  "StunEnv \<Rightarrow> StunAgent \<Rightarrow> StunMessage \<Rightarrow> bytes \<Rightarrow> nat \<Rightarrow> StunMessageIntegrityValidate ptr \<Rightarrow>
     (StunValidationStatus \<times> StunAgent \<times> StunMessage) option" where
  "stun_agent_validate env agt msg buf buf_len validater = do {
     len \<leftarrow> stun_message_validate_buffer_length buf buf_len
             (\<not> has_usage agt STUN_AGENT_USAGE_NO_ALIGNED_ATTRIBUTES);
     if len = STUN_MESSAGE_BUFFER_INVALID then Some (STUN_VALIDATION_NOT_STUN, agt, msg)
     else if len = STUN_MESSAGE_BUFFER_INCOMPLETE then Some (STUN_VALIDATION_INCOMPLETE_STUN, agt, msg)
     else if len \<noteq> int buf_len then Some (STUN_VALIDATION_NOT_STUN, agt, msg)
     else do {
       let msg = msg\<lparr>buffer := buf, buffer_len := buf_len, agent := Ptr (agent_cfg agt),
                     msg_key := Null, long_term_valid := False\<rparr>;
       no_cookie \<leftarrow> sc_and (Some (cookie_compat agt)) (sc_not (stun_message_has_cookie msg));
       if no_cookie then Some (STUN_VALIDATION_BAD_REQUEST, agt, msg)
       else do {
         bad_fpr \<leftarrow> sc_and (Some (cookie_compat agt \<and> has_usage agt STUN_AGENT_USAGE_USE_FINGERPRINT))
                     (sc_not (stun_agent_check_fingerprint agt msg));
         if bad_fpr then Some (STUN_VALIDATION_BAD_REQUEST, agt, msg)
         else do {
           cls \<leftarrow> stun_message_get_class msg;
           found \<leftarrow> validate_match agt msg cls;
           (case found of
              None \<Rightarrow> Some (STUN_VALIDATION_UNMATCHED_RESPONSE, agt, msg)
            | Some (sent_id_idx, key, lt_key, lt_key_valid) \<Rightarrow>
                validate_auth env agt msg cls validater sent_id_idx key lt_key lt_key_valid)
         }
       }
     }
   }"

end
