(* ===== verification/Stun_Agent_Table.thy ===== *)
theory Stun_Agent_Table
  imports Stun_Agent "HOL-Library.Multiset"
begin

text \<open>
  The table of sent transactions of an agent: finishing a request takes a free entry, a matching
  response or \<open>stun_agent_forget_transaction\<close> frees it again, and no other operation touches
  the table.  The runs of an agent are an inductive predicate over its operations; the table is
  the multiset of the requests that are sent and not completed.  Every index at which an entry
  is written comes from a search of the table and is inside it.
\<close>

section \<open>Searching the table\<close>

lemma saved_id_idx_le: "saved_id_idx P ss \<le> length ss"
  by (induction ss) auto

lemma saved_id_idx_found: "saved_id_idx P ss < length ss \<Longrightarrow> P (ss ! saved_id_idx P ss)"
  by (induction ss) auto

lemma saved_id_idx_first: "j < saved_id_idx P ss \<Longrightarrow> \<not> P (ss ! j)"
  by (induction ss arbitrary: j) (auto simp: nth_Cons split: nat.splits if_splits)

lemma saved_id_idx_full: "saved_id_idx P ss = length ss \<longleftrightarrow> (\<forall>s \<in> set ss. \<not> P s)"
  by (induction ss) auto

lemma saved_id_idx_less: "saved_id_idx P ss \<noteq> length ss \<Longrightarrow> saved_id_idx P ss < length ss"
  using saved_id_idx_le [of P ss] by simp

section \<open>Entries in use\<close>

definition busy :: "StunAgent \<Rightarrow> nat" where
  "busy agt = length (filter sid_valid (sent_ids agt))"

definition awaits :: "StunAgent \<Rightarrow> bytes \<Rightarrow> u16 \<Rightarrow> nat" where
  "awaits agt tid m =
     length (filter (\<lambda>s. sid_valid s \<and> sid_method s = m \<and> tid = sid_id s) (sent_ids agt))"

lemma filter_update_len:
  assumes "i < length xs"
  shows "length (filter P (xs[i := x])) + (if P (xs ! i) then 1 else 0) =
    length (filter P xs) + (if P x then 1 else 0)"
proof -
  have xs: "xs = take i xs @ xs ! i # drop (Suc i) xs" using assms by (rule id_take_nth_drop)
  have "length (filter P xs) = length (filter P (take i xs)) + (if P (xs ! i) then 1 else 0) +
      length (filter P (drop (Suc i) xs))"
    by (subst xs) simp
  with assms show ?thesis by (simp add: upd_conv_take_nth_drop)
qed

lemma invalidate_id_sel [simp]:
  "length (sent_ids (invalidate_id i agt)) = length (sent_ids agt)"
  "compatibility (invalidate_id i agt) = compatibility agt"
  "known_attributes (invalidate_id i agt) = known_attributes agt"
  "usage_flags (invalidate_id i agt) = usage_flags agt"
  by (simp_all add: invalidate_id_def put_id_def)

lemma busy_invalidate:
  assumes "i < length (sent_ids agt)" and "sid_valid (sent_ids agt ! i)"
  shows "busy agt = Suc (busy (invalidate_id i agt))"
  using filter_update_len [OF assms(1), of sid_valid "(sent_ids agt ! i)\<lparr>sid_valid := False\<rparr>"] assms(2)
  by (simp add: busy_def invalidate_id_def put_id_def)

lemma awaits_invalidate:
  assumes "i < length (sent_ids agt)"
    and "sid_valid (sent_ids agt ! i)" "sid_method (sent_ids agt ! i) = m" "sid_id (sent_ids agt ! i) = tid"
  shows "awaits agt tid m = Suc (awaits (invalidate_id i agt) tid m)"
  using filter_update_len [OF assms(1), of "\<lambda>s. sid_valid s \<and> sid_method s = m \<and> tid = sid_id s"
      "(sent_ids agt ! i)\<lparr>sid_valid := False\<rparr>"] assms(2-4)
  by (simp add: awaits_def invalidate_id_def put_id_def)

section \<open>What the operations do to the table\<close>

lemma save_idE:
  assumes "save_id i msg key agt = Some agt'"
  obtains s where "sid_valid s" and "stun_message_id msg = Some (sid_id s)"
    and "stun_message_get_method msg = Some (sid_method s)" and "sid_key s = key"
    and "agt' = put_id i s agt"
  using assms that by (force simp: save_id_def bind_eq_Some_conv)

text \<open>The messages to remember: the requests, but for the Send requests of the compatibility mode OC2007.\<close>

definition remembers :: "StunAgent \<Rightarrow> StunMessage \<Rightarrow> bool" where
  "remembers agt msg \<longleftrightarrow> stun_message_get_class msg = Some STUN_REQUEST \<and>
     \<not> (compatibility agt = STUN_COMPATIBILITY_OC2007 \<and> stun_message_get_method msg = Some (stun_method_code STUN_SEND))"

text \<open>The stages that a finished message went through.\<close>

lemma finish_messageE:
  assumes "stun_agent_finish_message env agt msg key = Some (n, agt', msg')"
  obtains (stopped) "n = 0" and "agt' = agt"
  | (untracked) "agt' = agt" and "stun_message_length msg' = Some (of_nat n)"
      and "\<not> remembers agt msg"
  | (tracked) i m k where "remembers agt msg"
      and "i = saved_id_idx (\<lambda>s. \<not> sid_valid s) (sent_ids agt)" and "i < length (sent_ids agt)"
      and "save_id i m k agt = Some agt'" and "buffer msg' = buffer m"
      and "stun_message_length msg' = Some (of_nat n)"
proof -
  let ?i = "saved_id_idx (\<lambda>s. \<not> sid_valid s) (sent_ids agt)"
  have "(n = 0 \<and> agt' = agt) \<or> (agt' = agt \<and> stun_message_length msg' = Some (of_nat n) \<and>
      \<not> remembers agt msg) \<or>
    (remembers agt msg \<and> ?i \<noteq> length (sent_ids agt) \<and>
     (\<exists>m k. save_id ?i m k agt = Some agt' \<and> buffer msg' = buffer m \<and>
        stun_message_length msg' = Some (of_nat n)))"
    using assms
    by (auto simp: stun_agent_finish_message_def remembers_def bind_eq_Some_conv Let_def split: if_splits)
  then show thesis using that saved_id_idx_less by blast
qed

lemma validate_finish_table:
  assumes "validate_finish agt msg cls idx ec = Some (st, agt', msg')"
  shows "sent_ids agt' = sent_ids agt \<or>
    (\<exists>i. idx = Ptr i \<and> sent_ids agt' = sent_ids (invalidate_id i agt))"
  using assms
  by (auto simp: validate_finish_def bind_eq_Some_conv Let_def split: if_splits ptr.splits prod.splits)

lemma validate_finish_cfg:
  assumes "validate_finish agt msg cls idx ec = Some (st, agt', msg')"
  shows "agent_cfg agt' = agent_cfg agt \<and> software_attribute agt' = software_attribute agt"
  using assms
  by (auto simp: validate_finish_def bind_eq_Some_conv Let_def invalidate_id_def put_id_def agent_cfg_def
      StunAgentCfg.truncate_def split: if_splits ptr.splits prod.splits)

lemma validate_authE:
  assumes "validate_auth env agt msg cls v idx key lk lv = Some (st, agt', msg')"
  obtains (rejected) "agt' = agt" and "st \<in> {STUN_VALIDATION_UNAUTHORIZED_BAD_REQUEST, STUN_VALIDATION_UNAUTHORIZED}"
  | (finished) m ec where "validate_finish agt m cls idx ec = Some (st, agt', msg')"
proof -
  have "(agt' = agt \<and> st \<in> {STUN_VALIDATION_UNAUTHORIZED_BAD_REQUEST, STUN_VALIDATION_UNAUTHORIZED}) \<or>
      (\<exists>m ec. validate_finish agt m cls idx ec = Some (st, agt', msg'))"
    using assms by (auto simp: validate_auth_def bind_eq_Some_conv split: if_splits)
  then show thesis using that by blast
qed

text \<open>The message as \<open>stun_agent_validate\<close> sees it.\<close>

definition received_msg :: "StunAgent \<Rightarrow> StunMessage \<Rightarrow> bytes \<Rightarrow> nat \<Rightarrow> StunMessage" where
  "received_msg agt msg buf n = msg\<lparr>buffer := buf, buffer_len := n, agent := Ptr (agent_cfg agt),
     msg_key := Null, long_term_valid := False\<rparr>"

lemma All_Not_bool: "All Not \<longleftrightarrow> False"
  by auto

lemma validateE:
  assumes "stun_agent_validate env agt msg buf n v = Some (st, agt', msg')"
  obtains (refused) "agt' = agt"
      and "st \<in> {STUN_VALIDATION_NOT_STUN, STUN_VALIDATION_INCOMPLETE_STUN, STUN_VALIDATION_BAD_REQUEST}"
  | (unmatched) cls where "agt' = agt" and "st = STUN_VALIDATION_UNMATCHED_RESPONSE"
      and "stun_message_get_class (received_msg agt msg buf n) = Some cls"
      and "validate_match agt (received_msg agt msg buf n) cls = Some None"
  | (matched) cls idx key lk lv where "stun_message_get_class (received_msg agt msg buf n) = Some cls"
      and "validate_match agt (received_msg agt msg buf n) cls = Some (Some (idx, key, lk, lv))"
      and "validate_auth env agt (received_msg agt msg buf n) cls v idx key lk lv = Some (st, agt', msg')"
proof -
  let ?m = "received_msg agt msg buf n"
  have "(agt' = agt \<and>
        st \<in> {STUN_VALIDATION_NOT_STUN, STUN_VALIDATION_INCOMPLETE_STUN, STUN_VALIDATION_BAD_REQUEST}) \<or>
      (\<exists>cls. stun_message_get_class ?m = Some cls \<and>
        ((agt' = agt \<and> st = STUN_VALIDATION_UNMATCHED_RESPONSE \<and> validate_match agt ?m cls = Some None) \<or>
         (\<exists>r. validate_match agt ?m cls = Some (Some r) \<and>
            validate_auth env agt ?m cls v (fst r) (fst (snd r)) (fst (snd (snd r))) (snd (snd (snd r))) =
              Some (st, agt', msg'))))"
    using assms
    by (auto simp: stun_agent_validate_def Let_def bind_eq_Some_conv received_msg_def
        All_Not_bool split: if_splits option.splits)
  then show thesis using that by (metis prod.collapse)
qed

lemma validate_matchE:
  assumes "validate_match agt m cls = Some (Some (idx, key, lk, lv))"
  obtains (fresh) "idx = Null" and "cls \<notin> {STUN_RESPONSE, STUN_ERROR}"
  | (found) i tid meth where "idx = Ptr i" and "cls \<in> {STUN_RESPONSE, STUN_ERROR}"
      and "i < length (sent_ids agt)" and "sid_valid (sent_ids agt ! i)"
      and "stun_message_id m = Some tid" and "stun_message_get_method m = Some meth"
      and "sid_id (sent_ids agt ! i) = tid" and "sid_method (sent_ids agt ! i) = meth"
      and "key = sid_key (sent_ids agt ! i)"
proof (cases "cls \<in> {STUN_RESPONSE, STUN_ERROR}")
  case True
  with assms obtain tid meth where *: "stun_message_id m = Some tid" "stun_message_get_method m = Some meth"
    by (auto simp: validate_match_def bind_eq_Some_conv)
  let ?P = "\<lambda>s. sid_valid s \<and> sid_method s = meth \<and> tid = sid_id s"
  let ?i = "saved_id_idx ?P (sent_ids agt)"
  from assms True * have "idx = Ptr ?i" "?i \<noteq> length (sent_ids agt)" "key = sid_key (sent_ids agt ! ?i)"
    by (auto simp: validate_match_def Let_def split: if_splits)
  moreover from this have "?i < length (sent_ids agt)" by (intro saved_id_idx_less)
  moreover from this have "?P (sent_ids agt ! ?i)" by (rule saved_id_idx_found)
  ultimately show thesis using True * by (intro found [of ?i tid meth]) auto
next
  case False
  then show thesis using fresh assms by (auto simp: validate_match_def)
qed

text \<open>A validation changes at most one entry of the table, from valid to free.\<close>

lemma validate_table:
  assumes "stun_agent_validate env agt msg buf n v = Some (st, agt', msg')"
  shows "agent_cfg agt' = agent_cfg agt \<and> (sent_ids agt' = sent_ids agt \<or>
    (\<exists>i. i < length (sent_ids agt) \<and> sid_valid (sent_ids agt ! i) \<and>
       sent_ids agt' = sent_ids (invalidate_id i agt)))"
  using assms
proof (cases rule: validateE)
  case (matched cls idx key lk lv)
  note match = matched(2)
  from matched(3) show ?thesis
  proof (cases rule: validate_authE)
    case (finished m ec)
    note f = validate_finish_table [OF finished] validate_finish_cfg [OF finished]
    from match show ?thesis by (cases rule: validate_matchE) (use f in auto)
  qed simp
qed simp_all

section \<open>The table as a ledger\<close>

text \<open>
  The identifiers of the transactions that an agent awaits, as a multiset, and the validations that
  complete one of them.
\<close>

definition pending :: "StunAgent \<Rightarrow> bytes multiset" where
  "pending agt = image_mset sid_id (filter_mset sid_valid (mset (sent_ids agt)))"

definition accepts :: "StunAgent \<Rightarrow> StunMessage \<Rightarrow> bytes \<Rightarrow> nat \<Rightarrow> StunValidationStatus \<Rightarrow> bool" where
  "accepts agt msg buf n st \<longleftrightarrow> st \<in> {STUN_VALIDATION_SUCCESS, STUN_VALIDATION_UNKNOWN_ATTRIBUTE} \<and>
     stun_message_get_class (received_msg agt msg buf n) \<in> {Some STUN_RESPONSE, Some STUN_ERROR}"

text \<open>
  The runs of an agent.  \<open>S\<close> are the identifiers of the requests it has handed out, \<open>D\<close> those of the
  transactions that are done, by an accepted response or by a call to forget them.  A call that
  reports no message hands out nothing; the side condition there leaves out a message whose 16-bit
  length has wrapped around to zero.
\<close>

inductive agent_run :: "StunEnv \<Rightarrow> StunAgent \<Rightarrow> bytes multiset \<Rightarrow> bytes multiset \<Rightarrow> StunAgent \<Rightarrow> bool" for env agt0 where
  start: "agent_run env agt0 {#} {#} agt0"
| request: "agent_run env agt0 S D agt \<Longrightarrow> stun_agent_finish_message env agt msg key = Some (n, agt', msg') \<Longrightarrow>
    remembers agt msg \<Longrightarrow> n \<noteq> 0 \<Longrightarrow> stun_message_id msg' = Some tid \<Longrightarrow> agent_run env agt0 (add_mset tid S) D agt'"
| no_message: "agent_run env agt0 S D agt \<Longrightarrow> stun_agent_finish_message env agt msg key = Some (0, agt', msg') \<Longrightarrow>
    stun_message_length msg' \<noteq> Some 0 \<Longrightarrow> agent_run env agt0 S D agt'"
| not_remembered: "agent_run env agt0 S D agt \<Longrightarrow> stun_agent_finish_message env agt msg key = Some (n, agt', msg') \<Longrightarrow>
    \<not> remembers agt msg \<Longrightarrow> agent_run env agt0 S D agt'"
| accepted: "agent_run env agt0 S D agt \<Longrightarrow> stun_agent_validate env agt msg buf n v = Some (st, agt', msg') \<Longrightarrow>
    accepts agt msg buf n st \<Longrightarrow> stun_message_id (received_msg agt msg buf n) = Some tid \<Longrightarrow>
    agent_run env agt0 S (add_mset tid D) agt'"
| not_accepted: "agent_run env agt0 S D agt \<Longrightarrow> stun_agent_validate env agt msg buf n v = Some (st, agt', msg') \<Longrightarrow>
    \<not> accepts agt msg buf n st \<Longrightarrow> agent_run env agt0 S D agt'"
| forgotten: "agent_run env agt0 S D agt \<Longrightarrow> stun_agent_forget_transaction agt tid = (True, agt') \<Longrightarrow>
    agent_run env agt0 S (add_mset tid D) agt'"
| not_forgotten: "agent_run env agt0 S D agt \<Longrightarrow> stun_agent_forget_transaction agt tid = (False, agt') \<Longrightarrow>
    agent_run env agt0 S D agt'"
| set_software: "agent_run env agt0 S D agt \<Longrightarrow> agent_run env agt0 S D (stun_agent_set_software agt software)"

text \<open>Building the error response for unknown attributes changes the agent only as finishing a message does.\<close>

lemma unknown_error_finishes:
  assumes "stun_agent_build_unknown_attributes_error env agt msg buf n request = Some (k, agt', msg')"
  shows "agt' = agt \<or> (\<exists>m key. stun_agent_finish_message env agt m key = Some (k, agt', msg'))"
  using assms by (auto simp: stun_agent_build_unknown_attributes_error_def bind_eq_Some_conv Let_def split: if_splits)

lemma put_id_sel [simp]:
  "sent_ids (put_id i s agt) = (sent_ids agt)[i := s]" "agent_cfg (put_id i s agt) = agent_cfg agt"
  by (simp_all add: put_id_def agent_cfg_def StunAgentCfg.truncate_def)

lemma pending_put:
  assumes "i < length (sent_ids agt)"
  shows "pending (put_id i s agt) + (if sid_valid (sent_ids agt ! i) then {#sid_id (sent_ids agt ! i)#} else {#}) =
    pending agt + (if sid_valid s then {#sid_id s#} else {#})"
proof -
  have "mset ((sent_ids agt)[i := s]) + {#sent_ids agt ! i#} = mset (sent_ids agt) + {#s#}"
    using assms by (simp add: mset_update)
  then have "image_mset sid_id (filter_mset sid_valid (mset ((sent_ids agt)[i := s]) + {#sent_ids agt ! i#})) =
      image_mset sid_id (filter_mset sid_valid (mset (sent_ids agt) + {#s#}))" by simp
  then show ?thesis by (simp add: pending_def split: if_splits)
qed

lemma pending_invalidate:
  assumes "i < length (sent_ids agt)" and "sid_valid (sent_ids agt ! i)" and "sid_id (sent_ids agt ! i) = tid"
  shows "pending agt = add_mset tid (pending (invalidate_id i agt))"
  using pending_put [OF assms(1), of "(sent_ids agt ! i)\<lparr>sid_valid := False\<rparr>"] assms(2,3) by (simp add: invalidate_id_def)

text \<open>The part of an agent that no operation of a run changes.\<close>

definition same_table :: "StunAgent \<Rightarrow> StunAgent \<Rightarrow> bool" where
  "same_table agt agt' \<longleftrightarrow> length (sent_ids agt') = length (sent_ids agt) \<and> agent_cfg agt' = agent_cfg agt"

lemma finish_pending:
  assumes "stun_agent_finish_message env agt msg key = Some (n, agt', msg')" and "remembers agt msg" and "n \<noteq> 0"
    and "stun_message_id msg' = Some tid"
  shows "pending agt' = add_mset tid (pending agt) \<and> same_table agt agt'"
  using assms(1)
proof (cases rule: finish_messageE)
  case (tracked i m k)
  from tracked(4) obtain s where s: "sid_valid s" "stun_message_id m = Some (sid_id s)" "agt' = put_id i s agt"
    by (rule save_idE)
  have "\<not> sid_valid (sent_ids agt ! i)"
    using saved_id_idx_found [of "\<lambda>s. \<not> sid_valid s" "sent_ids agt"] tracked(2,3) by simp
  moreover have "sid_id s = tid" using s(2) assms(4) tracked(5) by (simp add: stun_message_id_def)
  ultimately show ?thesis using pending_put [OF tracked(3), of s] s(1,3) by (simp add: same_table_def)
qed (use assms in simp_all)

lemma finish_untouched:
  assumes "stun_agent_finish_message env agt msg key = Some (n, agt', msg')"
    and "\<not> remembers agt msg \<or> n = 0 \<and> stun_message_length msg' \<noteq> Some 0"
  shows "agt' = agt"
  using assms(1) by (cases rule: finish_messageE) (use assms(2) in auto)

lemma validate_pending:
  assumes "stun_agent_validate env agt msg buf n v = Some (st, agt', msg')"
  shows "same_table agt agt'"
    and "\<not> accepts agt msg buf n st \<Longrightarrow> pending agt' = pending agt"
    and "accepts agt msg buf n st \<Longrightarrow> stun_message_id (received_msg agt msg buf n) = Some tid \<Longrightarrow>
      pending agt = add_mset tid (pending agt')"
proof -
  show "same_table agt agt'" using validate_table [OF assms] by (auto simp: same_table_def)
  let ?r = "received_msg agt msg buf n"
  have "(\<not> accepts agt msg buf n st \<longrightarrow> sent_ids agt' = sent_ids agt) \<and>
    (accepts agt msg buf n st \<and> stun_message_id ?r = Some tid \<longrightarrow> (\<exists>i. i < length (sent_ids agt) \<and>
      sid_valid (sent_ids agt ! i) \<and> sid_id (sent_ids agt ! i) = tid \<and> sent_ids agt' = sent_ids (invalidate_id i agt)))"
    using assms
  proof (cases rule: validateE)
    case (matched cls idx key lk lv)
    note match = matched(2)
    from matched(3) show ?thesis
    proof (cases rule: validate_authE)
      case rejected
      then show ?thesis by (auto simp: accepts_def)
    next
      case (finished m ec)
      from match show ?thesis
        by (cases rule: validate_matchE)
          (use finished matched(1) in \<open>auto simp: accepts_def validate_finish_def bind_eq_Some_conv Let_def split: if_splits\<close>)
    qed
  qed (auto simp: accepts_def)
  then show "\<not> accepts agt msg buf n st \<Longrightarrow> pending agt' = pending agt"
    and "accepts agt msg buf n st \<Longrightarrow> stun_message_id ?r = Some tid \<Longrightarrow> pending agt = add_mset tid (pending agt')"
    using pending_invalidate by (auto simp: pending_def)
qed

lemma forget_pending:
  assumes "stun_agent_forget_transaction agt tid = (b, agt')"
  shows "same_table agt agt' \<and> pending agt = (if b then add_mset tid (pending agt') else pending agt')"
  using assms saved_id_idx_found [of "\<lambda>s. sid_valid s \<and> tid = sid_id s" "sent_ids agt"]
    pending_invalidate [of "saved_id_idx (\<lambda>s. sid_valid s \<and> tid = sid_id s) (sent_ids agt)" agt tid]
  by (auto simp: stun_agent_forget_transaction_def Let_def same_table_def split: if_splits) (simp add: invalidate_id_def)

lemma agent_run_ledger:
  assumes "agent_run env agt0 S D agt" and "pending agt0 = {#}"
  shows "S = pending agt + D \<and> same_table agt0 agt"
  using assms(1)
proof induction
  case (request S D agt msg key n agt' msg' tid)
  with finish_pending [OF request(2-5)] show ?case by (simp add: same_table_def)
next
  case (no_message S D agt msg key agt' msg')
  then have "agt' = agt" by (auto intro: finish_untouched)
  then show ?case using no_message by simp
next
  case (not_remembered S D agt msg key n agt' msg')
  then have "agt' = agt" by (auto intro: finish_untouched)
  then show ?case using not_remembered by simp
next
  case (accepted S D agt msg buf n v st agt' msg' tid)
  with validate_pending(1,3) [OF accepted(2)] show ?case by (simp add: same_table_def)
next
  case (not_accepted S D agt msg buf n v st agt' msg')
  with validate_pending(1,2) [OF not_accepted(2)] show ?case by (simp add: same_table_def)
next
  case (set_software S D agt software)
  then show ?case by (simp add: stun_agent_set_software_def same_table_def pending_def agent_cfg_def StunAgentCfg.truncate_def)
qed (use assms(2) in \<open>auto simp: same_table_def dest!: forget_pending\<close>)

lemma pending_init:
  "length (sent_ids agt) = STUN_AGENT_MAX_SAVED_IDS \<Longrightarrow> pending (stun_agent_init agt known cmp flags) = {#}"
  by (auto simp: stun_agent_init_def pending_def filter_empty_conv simp flip: mset_filter)

lemma size_pending: "size (pending agt) = busy agt"
  by (simp add: pending_def busy_def flip: size_mset mset_filter)

lemma busy_le: "busy agt \<le> length (sent_ids agt)"
  by (simp add: busy_def)

definition example_env :: StunEnv where
  "example_env = \<lparr>hmac_sha1 = (\<lambda>k d. take 20 (k @ d @ replicate 20 0)),
     md5_hash = (\<lambda>d. take 16 (d @ replicate 16 0)), package_string = [65, 0]\<rparr>"

text \<open>An agent with a table of two entries, one of them in use, keeps the evaluations short.\<close>

definition example_agent_3489 :: StunAgent where
  "example_agent_3489 =
     \<lparr>compatibility = STUN_COMPATIBILITY_RFC3489, known_attributes = STUN_MSOC_KNOWN_ATTRIBUTES, usage_flags = 0,
      sent_ids = map (\<lambda>b. \<lparr>sid_id = replicate 16 0, sid_method = 0, sid_key = Null,
        sid_long_term_key = replicate 16 0, sid_long_term_valid = False, sid_valid = b\<rparr>) [True, False],
      software_attribute = Null, ms_ice2_send_legacy_connchecks = False\<rparr>"

definition example_sent :: StunAgent where
  "example_sent =
     (case stun_agent_finish_message example_env example_agent_3489 example_msg Null of
        None \<Rightarrow> example_agent_3489 | Some (n, agt, msg) \<Rightarrow> agt)"

definition example_response :: bytes where
  "example_response = [1, 1, 0, 0, 0x21, 0x12, 0xA4, 0x42] @ replicate 12 7"

section \<open>Properties\<close>

text \<open>C9.  The table of an agent is the ledger of its requests: after any sequence of its operations
  from the initialisation on, the transactions it awaits are exactly the requests it has handed out,
  with their multiplicity, without those that are done, by an accepted response or by being forgotten.  So no
  request is lost, none is completed twice, no response is accepted without a request, and at
  most 200 are open at a time.  Compatibility mode, flags and known attributes stay those of the initialisation.\<close>

theorem agent_ledger:
  assumes "length (sent_ids agt0) = STUN_AGENT_MAX_SAVED_IDS"
    and "agent_run env (stun_agent_init agt0 known cmp flags) S D agt"
  shows "D \<subseteq># S \<and> pending agt = S - D \<and> size S \<le> size D + STUN_AGENT_MAX_SAVED_IDS \<and>
    compatibility agt = cmp \<and> usage_flags agt = flags \<and> known_attributes agt = known"
proof -
  from agent_run_ledger [OF assms(2) pending_init [OF assms(1)]]
  have S: "S = pending agt + D" and same: "same_table (stun_agent_init agt0 known cmp flags) agt" by blast+
  have "size (pending agt) \<le> STUN_AGENT_MAX_SAVED_IDS"
    using busy_le [of agt] same assms(1) by (simp add: size_pending same_table_def stun_agent_init_def)
  moreover have "compatibility agt = cmp \<and> usage_flags agt = flags \<and> known_attributes agt = known"
    using same by (simp add: same_table_def agent_cfg_def StunAgentCfg.truncate_def stun_agent_init_def)
  ultimately show ?thesis using S by simp
qed

text \<open>A request is handed out and awaited; its response completes it.\<close>

definition example_agent_init :: StunAgent where
  "example_agent_init = stun_agent_init (example_agent_3489\<lparr>sent_ids := replicate 200 (hd (sent_ids example_agent_3489))\<rparr>)
     STUN_MSOC_KNOWN_ATTRIBUTES STUN_COMPATIBILITY_RFC3489 0"

abbreviation example_id :: bytes where
  "example_id \<equiv> [0x21, 0x12, 0xA4, 0x42] @ replicate 12 7"

lemma example_exchange:
  "map_option (\<lambda>(n, agt, msg). (n, stun_message_id msg, map_option fst
       (stun_agent_validate example_env agt example_msg example_response 20 Null)))
     (stun_agent_finish_message example_env example_agent_init example_msg Null) =
   Some (20, Some example_id, Some STUN_VALIDATION_SUCCESS)"
  by code_simp

theorem agent_ledger_witness:
  "\<exists>agt1 msg1 agt2 msg2. stun_agent_finish_message example_env example_agent_init example_msg Null = Some (20, agt1, msg1) \<and>
     stun_agent_validate example_env agt1 example_msg example_response 20 Null = Some (STUN_VALIDATION_SUCCESS, agt2, msg2) \<and>
     pending agt1 = {#example_id#} \<and> pending agt2 = {#}"
proof -
  obtain agt1 msg1 agt2 msg2 where f: "stun_agent_finish_message example_env example_agent_init example_msg Null = Some (20, agt1, msg1)"
    and id: "stun_message_id msg1 = Some example_id"
    and v: "stun_agent_validate example_env agt1 example_msg example_response 20 Null = Some (STUN_VALIDATION_SUCCESS, agt2, msg2)"
    using example_exchange by auto
  have "stun_message_get_class example_msg = Some STUN_REQUEST" by code_simp
  then have rem: "remembers example_agent_init example_msg"
    by (simp add: remembers_def example_agent_init_def stun_agent_init_def)
  have r1: "agent_run example_env example_agent_init {#example_id#} {#} agt1"
    by (rule agent_run.request [OF agent_run.start f rem _ id]) simp
  have m: "stun_message_get_class (received_msg agt1 example_msg example_response 20) = Some STUN_RESPONSE"
    "stun_message_id (received_msg agt1 example_msg example_response 20) = Some example_id"
    unfolding received_msg_def by (simp_all add: stun_message_get_class_def stun_message_id_def) (code_simp+)
  then have r2: "agent_run example_env example_agent_init {#example_id#} {#example_id#} agt2"
    using agent_run.accepted [OF r1 v] by (simp add: accepts_def)
  have "length (sent_ids (example_agent_3489\<lparr>sent_ids := replicate 200 (hd (sent_ids example_agent_3489))\<rparr>)) =
    STUN_AGENT_MAX_SAVED_IDS" by (simp add: STUN_AGENT_MAX_SAVED_IDS_def)
  from agent_ledger [OF this r1 [unfolded example_agent_init_def]] agent_ledger [OF this r2 [unfolded example_agent_init_def]]
  have "pending agt1 = {#example_id#}" "pending agt2 = {#}" by simp_all
  with f v show ?thesis by blast
qed

text \<open>C10.  A response is accepted only against a request that is waiting for it: a validation of
  a response or error that succeeds, or finds only unknown attributes, uses up exactly one
  transaction with its identifier and method, so that no more responses are accepted than
  requests were sent.  Where no transaction waits for it, the agent stays as it is.\<close>

theorem accepted_response_uses_transaction:
  assumes "stun_agent_validate env agt msg buf n v = Some (st, agt', msg')"
    and "stun_message_get_class (received_msg agt msg buf n) \<in> {Some STUN_RESPONSE, Some STUN_ERROR}"
    and "stun_message_id (received_msg agt msg buf n) = Some tid"
    and "stun_message_get_method (received_msg agt msg buf n) = Some m"
  shows "(st \<in> {STUN_VALIDATION_SUCCESS, STUN_VALIDATION_UNKNOWN_ATTRIBUTE} \<longrightarrow>
      awaits agt tid m = Suc (awaits agt' tid m)) \<and>
    (awaits agt tid m = 0 \<longrightarrow> agt' = agt \<and> st \<notin> {STUN_VALIDATION_SUCCESS, STUN_VALIDATION_UNKNOWN_ATTRIBUTE})"
  using assms(1)
proof (cases rule: validateE)
  case (matched cls idx key lk lv)
  from matched(2) obtain i where i: "idx = Ptr i" "i < length (sent_ids agt)" "sid_valid (sent_ids agt ! i)"
    "sid_id (sent_ids agt ! i) = tid" "sid_method (sent_ids agt ! i) = m"
    using assms(2-4) matched(1) by (cases rule: validate_matchE) auto
  note uses = awaits_invalidate [OF i(2,3,5,4)]
  from matched(3) show ?thesis
  proof (cases rule: validate_authE)
    case rejected
    with uses show ?thesis by auto
  next
    case (finished mm ec)
    then have "st \<in> {STUN_VALIDATION_SUCCESS, STUN_VALIDATION_UNKNOWN_ATTRIBUTE} \<Longrightarrow>
        sent_ids agt' = sent_ids (invalidate_id i agt)"
      using i(1) by (auto simp: validate_finish_def bind_eq_Some_conv Let_def split: if_splits)
    with uses show ?thesis by (auto simp: awaits_def)
  qed
next
  case (unmatched cls)
  then show ?thesis by simp
qed auto

theorem accepted_response_uses_transaction_witness:
  "\<exists>agt' msg'. stun_agent_validate example_env example_sent example_msg example_response 20 Null =
      Some (STUN_VALIDATION_SUCCESS, agt', msg') \<and>
    awaits example_sent ([0x21, 0x12, 0xA4, 0x42] @ replicate 12 7) 1 =
      Suc (awaits agt' ([0x21, 0x12, 0xA4, 0x42] @ replicate 12 7) 1)"
proof -
  let ?m = "received_msg example_sent example_msg example_response 20"
  have "map_option fst (stun_agent_validate example_env example_sent example_msg example_response 20 Null) =
      Some STUN_VALIDATION_SUCCESS" by code_simp
  then obtain agt' msg' where v: "stun_agent_validate example_env example_sent example_msg example_response 20 Null =
      Some (STUN_VALIDATION_SUCCESS, agt', msg')" by auto
  have "stun_message_get_class ?m = Some STUN_RESPONSE"
    "stun_message_id ?m = Some ([0x21, 0x12, 0xA4, 0x42] @ replicate 12 7)"
    "stun_message_get_method ?m = Some 1"
    by code_simp+
  with v accepted_response_uses_transaction [OF v] show ?thesis by simp
qed



end
