(* ===== verification/Stun_Agent_Auth.thy ===== *)
theory Stun_Agent_Auth
  imports Stun_Agent_Table
begin

unbundle bit_operations_syntax

text \<open>
  Authentication: what a successful validation says about the received bytes, and that a message
  finished by one agent is accepted by another that holds the same key.
\<close>

section \<open>What a successful validation shows\<close>

lemma validate_match_request:
  "cls = STUN_REQUEST \<Longrightarrow> validate_match agt m cls = Some (Some (Null, Null, replicate 16 0, False))"
  by (simp add: validate_match_def)

lemma validate_ignore_request:
  "stun_message_get_class m = Some STUN_REQUEST \<Longrightarrow> \<not> has_usage agt STUN_AGENT_USAGE_IGNORE_CREDENTIALS \<Longrightarrow>
     validate_ignore_credentials agt m ec = Some (False, ec)"
  by (simp add: validate_ignore_credentials_def)

lemma sc_or_False: "sc_or a b = Some False \<longleftrightarrow> a = Some False \<and> b = Some False"
  by (auto simp: sc_or_def bind_eq_Some_conv split: if_splits)

lemma sc_not_False: "sc_not a = Some False \<longleftrightarrow> a = Some True"
  by (auto simp: sc_not_def)

lemma validate_lacks_short_term:
  assumes "has_usage agt STUN_AGENT_USAGE_SHORT_TERM_CREDENTIALS"
    and "validate_lacks_credentials agt m cls = Some False"
  shows "stun_message_has_attribute m (stun_attribute_code STUN_ATTRIBUTE_USERNAME) = Some True"
    and "stun_message_has_attribute m (stun_attribute_code STUN_ATTRIBUTE_MESSAGE_INTEGRITY) = Some True"
  using assms by (simp_all add: validate_lacks_credentials_def sc_or_False sc_not_False del: stun_attribute_code.simps)

lemma has_attributeE:
  assumes "stun_message_has_attribute m t = Some True"
  obtains p l where "stun_message_find m t = Some (Ptr (p, l))"
  using assms that by (auto simp: stun_message_has_attribute_def bind_eq_Some_conv) (metis ptr.exhaust surj_pair)

text \<open>The bytes that the check of MESSAGE-INTEGRITY compares.\<close>

definition integrity_holds :: "StunEnv \<Rightarrow> StunAgent \<Rightarrow> StunMessage \<Rightarrow> bytes \<Rightarrow> bool" where
  "integrity_holds env agt m k \<longleftrightarrow>
     (\<exists>h hl sha. stun_message_find m (stun_attribute_code STUN_ATTRIBUTE_MESSAGE_INTEGRITY) = Some (Ptr (h, hl)) \<and>
        validate_sha1 env agt m h k = Some sha \<and> rd_bytes (buffer m) h 20 = Some (take 20 sha))"

lemma validate_integrity_short_term:
  assumes "\<not> has_usage agt STUN_AGENT_USAGE_LONG_TERM_CREDENTIALS"
    and "validate_integrity env agt m k lk lv ec = Some (True, m', ec')"
    and "stun_message_has_attribute m (stun_attribute_code STUN_ATTRIBUTE_MESSAGE_INTEGRITY) = Some True"
  shows "integrity_holds env agt m k"
proof -
  from assms(3) obtain h hl where f:
    "stun_message_find m (stun_attribute_code STUN_ATTRIBUTE_MESSAGE_INTEGRITY) = Some (Ptr (h, hl))"
    by (rule has_attributeE)
  with assms(1,2) show ?thesis
    by (auto simp: validate_integrity_def validate_credentials_def integrity_holds_def bind_eq_Some_conv
        split: if_splits simp del: stun_attribute_code.simps)
qed

text \<open>C2.  A request that an agent with short-term credentials validates successfully carries a
  USERNAME that the validater accepted, and where the validater supplied a non-empty key, the 20
  bytes of its MESSAGE-INTEGRITY are the HMAC of the preceding bytes under that key.\<close>

theorem validated_request_authentic:
  assumes "stun_agent_validate env agt msg buf n v = Some (STUN_VALIDATION_SUCCESS, agt', msg')"
    and "stun_message_get_class (received_msg agt msg buf n) = Some STUN_REQUEST"
    and "has_usage agt STUN_AGENT_USAGE_SHORT_TERM_CREDENTIALS"
    and "\<not> has_usage agt STUN_AGENT_USAGE_LONG_TERM_CREDENTIALS"
    and "\<not> has_usage agt STUN_AGENT_USAGE_IGNORE_CREDENTIALS"
  shows "\<exists>vf p l key. v = Ptr vf \<and>
    stun_message_find (received_msg agt msg buf n) (stun_attribute_code STUN_ATTRIBUTE_USERNAME) = Some (Ptr (p, l)) \<and>
    vf (received_msg agt msg buf n) (Ptr (take (unat l) (drop p buf))) (unat l) Null = Some (True, key) \<and>
    (\<forall>k. key = Ptr k \<longrightarrow> k \<noteq> [] \<longrightarrow> integrity_holds env agt (received_msg agt msg buf n) k)"
  using assms(1)
proof (cases rule: validateE)
  case (matched cls idx key lk lv)
  let ?m = "received_msg agt msg buf n"
  from matched(1) assms(2) have cls: "cls = STUN_REQUEST" by simp
  with matched(2) have m: "idx = Null" "key = Null" by (simp_all add: validate_match_def)
  note auth = matched(3) [unfolded validate_auth_def m validate_ignore_request [OF assms(2,5)] cls]
  from auth have lacks: "validate_lacks_credentials agt ?m STUN_REQUEST = Some False"
    by (auto simp: bind_eq_Some_conv split: if_splits)
  note has = validate_lacks_short_term [OF assms(3) lacks]
  from has(1) obtain p l where u:
    "stun_message_find ?m (stun_attribute_code STUN_ATTRIBUTE_USERNAME) = Some (Ptr (p, l))"
    by (rule has_attributeE)
  from auth lacks obtain key where gk: "validate_get_key agt ?m False v Null = Some (True, key)"
    and int: "\<And>k. key = Ptr k \<Longrightarrow> k \<noteq> [] \<Longrightarrow>
      \<exists>m' ec. validate_integrity env agt ?m k lk lv None = Some (True, m', ec)"
    by (auto simp: bind_eq_Some_conv split: if_splits ptr.splits)
  have b: "buffer ?m = buf" by (simp add: received_msg_def)
  from gk has(2) u obtain vf where
    "v = Ptr vf" "vf ?m (Ptr (take (unat l) (drop p buf))) (unat l) Null = Some (True, key)"
    by (cases v) (auto simp: validate_get_key_def bind_eq_Some_conv rd_bytes_def b split: if_splits
        simp del: stun_attribute_code.simps)
  with u int validate_integrity_short_term [OF assms(4) _ has(2)] show ?thesis by blast
qed auto

definition example_agent_short :: StunAgent where
  "example_agent_short =
     example_agent_3489\<lparr>usage_flags := usage_flag_bit STUN_AGENT_USAGE_SHORT_TERM_CREDENTIALS\<rparr>"

definition example_auth_bytes :: bytes where
  "example_auth_bytes =
     [0, 1, 0, 32] @ replicate 16 7 @ [0, 6, 0, 4, 97, 98, 99, 100] @
     [0, 8, 0, 20, 1, 2, 3, 0, 1, 0, 32] @ replicate 13 7"

theorem validated_request_authentic_witness:
  "\<exists>vf p l key. Ptr (stun_agent_default_validater (Ptr [\<lparr>vd_username = Ptr [97, 98, 99, 100],
        vd_password = Ptr [1, 2, 3]\<rparr>])) = Ptr vf \<and>
    stun_message_find (received_msg example_agent_short example_msg example_auth_bytes 52)
      (stun_attribute_code STUN_ATTRIBUTE_USERNAME) = Some (Ptr (p, l)) \<and>
    vf (received_msg example_agent_short example_msg example_auth_bytes 52)
      (Ptr (take (unat l) (drop p example_auth_bytes))) (unat l) Null = Some (True, key) \<and>
    (\<forall>k. key = Ptr k \<longrightarrow> k \<noteq> [] \<longrightarrow> integrity_holds example_env example_agent_short
       (received_msg example_agent_short example_msg example_auth_bytes 52) k)"
proof -
  let ?v = "Ptr (stun_agent_default_validater (Ptr [\<lparr>vd_username = Ptr [97, 98, 99, 100],
      vd_password = Ptr [1, 2, 3]\<rparr>]))"
  have "map_option fst (stun_agent_validate example_env example_agent_short example_msg example_auth_bytes 52 ?v) =
      Some STUN_VALIDATION_SUCCESS" by code_simp
  then obtain agt' msg' where "stun_agent_validate example_env example_agent_short example_msg
      example_auth_bytes 52 ?v = Some (STUN_VALIDATION_SUCCESS, agt', msg')" by auto
  moreover have "stun_message_get_class (received_msg example_agent_short example_msg example_auth_bytes 52) =
      Some STUN_REQUEST" by code_simp
  moreover have "has_usage example_agent_short STUN_AGENT_USAGE_SHORT_TERM_CREDENTIALS"
    "\<not> has_usage example_agent_short STUN_AGENT_USAGE_LONG_TERM_CREDENTIALS"
    "\<not> has_usage example_agent_short STUN_AGENT_USAGE_IGNORE_CREDENTIALS"
    by code_simp+
  ultimately show ?thesis by (rule validated_request_authentic)
qed

section \<open>Faults of the validation\<close>

text \<open>C28.  The length of a received MESSAGE-INTEGRITY is not checked: where fewer than 20 bytes of
  the message follow its header, the comparison with the computed HMAC reads behind the end of
  the received bytes.\<close>

theorem short_integrity_overread:
  assumes "stun_message_find m (stun_attribute_code STUN_ATTRIBUTE_MESSAGE_INTEGRITY) = Some (Ptr (h, hl))"
    and "length (buffer m) < h + 20"
    and "\<not> has_usage agt STUN_AGENT_USAGE_LONG_TERM_CREDENTIALS"
  shows "validate_integrity env agt m k lk lv ec = None"
  using assms
  by (cases "validate_sha1 env agt m h k")
    (simp_all add: validate_integrity_def validate_credentials_def rd_bytes_def
      del: stun_attribute_code.simps)

definition example_short_mi :: bytes where
  "example_short_mi = [0, 1, 0, 12] @ replicate 16 7 @ [0, 6, 0, 4, 97, 98, 99, 100] @ [0, 8, 0, 0]"

theorem short_integrity_overread_witness:
  "validate_integrity example_env example_agent_short
     (received_msg example_agent_short example_msg example_short_mi 32) [1, 2, 3] (replicate 16 0) False None = None \<and>
   stun_agent_validate example_env example_agent_short example_msg example_short_mi 32
     (Ptr (stun_agent_default_validater (Ptr [\<lparr>vd_username = Ptr [97, 98, 99, 100],
        vd_password = Ptr [1, 2, 3]\<rparr>]))) = None"
proof
  let ?m = "received_msg example_agent_short example_msg example_short_mi 32"
  have "stun_message_find ?m (stun_attribute_code STUN_ATTRIBUTE_MESSAGE_INTEGRITY) = Some (Ptr (32, 0))"
    "length (buffer ?m) < 32 + 20"
    "\<not> has_usage example_agent_short STUN_AGENT_USAGE_LONG_TERM_CREDENTIALS"
    by code_simp+
  then show "validate_integrity example_env example_agent_short ?m [1, 2, 3] (replicate 16 0) False None = None"
    by (rule short_integrity_overread)
  show "stun_agent_validate example_env example_agent_short example_msg example_short_mi 32
     (Ptr (stun_agent_default_validater (Ptr [\<lparr>vd_username = Ptr [97, 98, 99, 100],
        vd_password = Ptr [1, 2, 3]\<rparr>]))) = None" by code_simp
qed

text \<open>C29.  With consent freshness, the last check of an error response reads the variable of the
  error code also where the response has no ERROR-CODE attribute, so that nothing has ever
  assigned it.\<close>

theorem consent_error_code_unset:
  assumes "has_usage agt STUN_AGENT_USAGE_CONSENT_FRESHNESS" and "msg_attrs m = Some as"
    and "find_attr as (ms_turn_swap m (stun_attribute_code STUN_ATTRIBUTE_ERROR_CODE)) = None"
  shows "validate_finish agt m STUN_ERROR idx None = None"
  using assms(1,3) stun_message_find_error_spec [OF assms(2), of None]
  by (simp add: validate_finish_def)

definition example_agent_consent :: StunAgent where
  "example_agent_consent =
     example_sent\<lparr>usage_flags := usage_flag_bit STUN_AGENT_USAGE_CONSENT_FRESHNESS\<rparr>"

definition example_error_bytes :: bytes where
  "example_error_bytes = [1, 0x11, 0, 0, 0x21, 0x12, 0xA4, 0x42] @ replicate 12 7"

theorem consent_error_code_unset_witness:
  "validate_finish example_agent_consent
     (received_msg example_agent_consent example_msg example_error_bytes 20) STUN_ERROR (Ptr 1) None = None \<and>
   stun_agent_validate example_env example_agent_consent example_msg example_error_bytes 20 Null = None"
proof
  let ?m = "received_msg example_agent_consent example_msg example_error_bytes 20"
  have "has_usage example_agent_consent STUN_AGENT_USAGE_CONSENT_FRESHNESS" "msg_attrs ?m = Some []"
    by code_simp+
  then show "validate_finish example_agent_consent ?m STUN_ERROR (Ptr 1) None = None"
    by (rule consent_error_code_unset) simp
  show "stun_agent_validate example_env example_agent_consent example_msg example_error_bytes 20 Null = None"
    by code_simp
qed

end
