(* ===== verification/Stun_Attr_Walk.thy ===== *)
theory Stun_Attr_Walk
  imports Stun_Agent_Auth
begin

text \<open>
  Walking over the attribute section: the step that every loop over the attributes takes, where
  the search ends up behind attributes it does not look for, and the list of unknown mandatory
  attributes that \<open>stun_agent_find_unknowns\<close> collects.
\<close>

lemma attr_step:
  assumes "parse_attrs pad (take (n - off) (drop off b)) = Some as" and "off < n" and "n \<le> length b"
  obtains t l v as' where "as = (t, v) # as'" and "stun_getw b off = Some t"
    and "stun_getw b (off + 2) = Some l" and "unat l = length v"
    and "off + 4 + attr_size pad (length v) \<le> n"
    and "parse_attrs pad (take (n - (off + 4 + attr_size pad (length v)))
           (drop (off + 4 + attr_size pad (length v)) b)) = Some as'"
proof -
  define xs where "xs = take (n - off) (drop off b)"
  define k where "k = unat (be_dec (take 2 (drop 2 xs)) :: u16)"
  have lx: "length xs = n - off" and ne: "xs \<noteq> []" using assms(2,3) by (auto simp: xs_def)
  from assms(1) ne have len4: "4 + attr_size pad k \<le> length xs"
    by (auto simp: xs_def [symmetric] parse_attrs.simps [of _ xs] k_def Let_def split: if_splits)
  from assms(1) ne obtain as' where rest: "parse_attrs pad (drop (4 + attr_size pad k) xs) = Some as'"
    and as: "as = (be_dec (take 2 xs), take k (drop 4 xs)) # as'"
    by (auto simp: xs_def [symmetric] parse_attrs.simps [of _ xs] k_def Let_def split: if_splits)
  have "stun_getw b off = Some (be_dec (take 2 xs))"
    using len4 lx assms by (simp add: stun_getw_eq xs_def min_def)
  moreover have "stun_getw b (off + 2) = Some (be_dec (take 2 (drop 2 xs)))"
    using len4 lx assms by (simp add: stun_getw_eq xs_def min_def drop_take add.commute)
  moreover have "k \<le> length xs - 4" using len4 attr_size_ge [of k pad] by linarith
  then have "length (take k (drop 4 xs)) = k" by simp
  moreover have "take (n - (off + 4 + attr_size pad k)) (drop (off + 4 + attr_size pad k) b) =
      drop (4 + attr_size pad k) xs"
    by (simp add: xs_def drop_take add_ac)
  ultimately show thesis using that [OF as] rest len4 lx by (simp add: k_def)
qed

lemma stun_find_loop_skip:
  assumes "parse_attrs (\<not> msg_unaligned m) (take (n - off) (drop off (buffer m))) = Some as"
    and "off \<le> n" and "n \<le> len" and "n \<le> length (buffer m)"
    and "open_attrs as" and "type \<notin> fst ` set as"
  shows "stun_find_loop m len type off = stun_find_loop m len type n"
  using assms
proof (induction as arbitrary: off)
  case Nil
  have "\<not> off < n"
  proof
    assume "off < n"
    from Nil(1) this Nil(4) show False by (rule attr_step) simp
  qed
  with Nil(2) show ?case by simp
next
  case (Cons a as)
  have "off < n" using Cons.prems(1,2) by (cases "off = n") auto
  from Cons.prems(1) this Cons.prems(4) obtain t l v as' where s: "a # as = (t, v) # as'"
    "stun_getw (buffer m) off = Some t" "stun_getw (buffer m) (off + 2) = Some l" "unat l = length v"
    "off + 4 + attr_size (\<not> msg_unaligned m) (length v) \<le> n"
    "parse_attrs (\<not> msg_unaligned m) (take (n - (off + 4 + attr_size (\<not> msg_unaligned m) (length v)))
       (drop (off + 4 + attr_size (\<not> msg_unaligned m) (length v)) (buffer m))) = Some as'"
    by (rule attr_step)
  have t: "t \<noteq> type" "open_attrs as"
    "t \<noteq> stun_attribute_code STUN_ATTRIBUTE_MESSAGE_INTEGRITY" "t \<noteq> stun_attribute_code STUN_ATTRIBUTE_FINGERPRINT"
    using Cons.prems(5,6) s(1) by (auto simp: open_attrs_Cons)
  have "stun_find_loop m len type off = stun_find_loop m len type
      (off + 4 + attr_size (\<not> msg_unaligned m) (length v))"
    using s(2-4) t \<open>off < n\<close> Cons.prems(3)
    by (subst stun_find_loop.simps) (simp add: stun_pos_defs attr_size_def)
  also have "\<dots> = stun_find_loop m len type n"
    using Cons.IH [OF _ s(5) Cons.prems(3,4) t(2)] s(1,6) Cons.prems(6) by simp
  finally show ?case .
qed

section \<open>Unknown attributes\<close>

text \<open>The known attributes are an array that a zero ends.\<close>

definition known_list :: "u16 list \<Rightarrow> u16 list" where
  "known_list ks = takeWhile (\<lambda>k. k \<noteq> 0) ks"

lemma stun_agent_is_unknown_spec:
  "0 \<in> set ks \<Longrightarrow> stun_agent_is_unknown ks t = Some (t \<notin> set (known_list ks))"
  by (induction ks) (auto simp: known_list_def)

definition unknown_types :: "StunAgent \<Rightarrow> (u16 \<times> bytes) list \<Rightarrow> u16 list" where
  "unknown_types agt as =
     filter (\<lambda>t. \<not> stun_optional t \<and> t \<notin> set (known_list (known_attributes agt))) (map fst as)"

lemma unknown_types_simps [simp]:
  "unknown_types agt [] = []"
  "unknown_types agt ((t, v) # as) =
     (if \<not> stun_optional t \<and> t \<notin> set (known_list (known_attributes agt)) then [t] else []) @ unknown_types agt as"
  by (auto simp: unknown_types_def)

lemma unknowns_loop_spec:
  assumes "parse_attrs (\<not> has_usage agt STUN_AGENT_USAGE_NO_ALIGNED_ATTRIBUTES)
      (take (len - off) (drop off b)) = Some as"
    and "off \<le> len" and "len \<le> length b" and "0 \<in> set (known_attributes agt)" and "length found \<le> maxn"
  shows "unknowns_loop agt b len maxn off found = Some (take maxn (found @ unknown_types agt as))"
  using assms
proof (induction as arbitrary: off found)
  case Nil
  have "\<not> off < len"
  proof
    assume "off < len"
    from Nil(1) this Nil(3) show False by (rule attr_step) simp
  qed
  with Nil show ?case by (subst unknowns_loop.simps) simp
next
  case (Cons a as)
  have "off < len" using Cons.prems(1,2) by (cases "off = len") auto
  from Cons.prems(1) this Cons.prems(3) obtain t l v as' where s: "a # as = (t, v) # as'"
    "stun_getw b off = Some t" "stun_getw b (off + 2) = Some l" "unat l = length v"
    "off + 4 + attr_size (\<not> has_usage agt STUN_AGENT_USAGE_NO_ALIGNED_ATTRIBUTES) (length v) \<le> len"
    "parse_attrs (\<not> has_usage agt STUN_AGENT_USAGE_NO_ALIGNED_ATTRIBUTES)
       (take (len - (off + 4 + attr_size (\<not> has_usage agt STUN_AGENT_USAGE_NO_ALIGNED_ATTRIBUTES) (length v)))
       (drop (off + 4 + attr_size (\<not> has_usage agt STUN_AGENT_USAGE_NO_ALIGNED_ATTRIBUTES) (length v)) b)) = Some as'"
    by (rule attr_step)
  let ?u = "\<not> stun_optional t \<and> t \<notin> set (known_list (known_attributes agt))"
  show ?case
  proof (cases "length found < maxn")
    case True
    then have "unknowns_loop agt b len maxn off found = unknowns_loop agt b len maxn
        (off + 4 + attr_size (\<not> has_usage agt STUN_AGENT_USAGE_NO_ALIGNED_ATTRIBUTES) (length v))
        (if ?u then found @ [t] else found)"
      using s(2-4) \<open>off < len\<close> Cons.prems(4)
      by (subst unknowns_loop.simps)
        (simp add: stun_pos_defs attr_size_def stun_agent_is_unknown_spec)
    also have "\<dots> = Some (take maxn ((if ?u then found @ [t] else found) @ unknown_types agt as))"
      by (rule Cons.IH) (use s Cons.prems True in auto)
    finally show ?thesis using s(1) by auto
  next
    case False
    with Cons.prems(5) show ?thesis by (subst unknowns_loop.simps) simp
  qed
qed

end
