(* ===== verification/Stun_Agent_Seal.thy ===== *)
theory Stun_Agent_Seal
  imports Stun_Attr_Walk
begin

unbundle bit_operations_syntax

text \<open>
  From one agent to another: \<open>stun_agent_finish_message\<close> seals a message with MESSAGE-INTEGRITY
  and FINGERPRINT, and \<open>stun_agent_validate\<close> of an agent that holds the same key accepts the
  sealed bytes.  The modes are those that ICE uses: RFC 5389, short-term credentials, FINGERPRINT.
\<close>

section \<open>The sealed bytes\<close>

definition MI :: u16 where "MI = stun_attribute_code STUN_ATTRIBUTE_MESSAGE_INTEGRITY"
definition FP :: u16 where "FP = stun_attribute_code STUN_ATTRIBUTE_FINGERPRINT"

definition seal_mac :: "StunEnv \<Rightarrow> bytes \<Rightarrow> bytes \<Rightarrow> bytes \<Rightarrow> bytes" where
  "seal_mac env k h mid = hmac_sha1 env k (h @ be_enc 2 (of_nat (length mid + 8) :: u16) @ mid)"

definition seal_body :: "StunEnv \<Rightarrow> bytes \<Rightarrow> bytes \<Rightarrow> bytes \<Rightarrow> bytes" where
  "seal_body env k h mid = mid @ encode_attr True MI (seal_mac env k h mid)"

definition seal_crc :: "bytes \<Rightarrow> bytes \<Rightarrow> bytes" where
  "seal_crc h body = be_enc 4 (crc32_reference
     (h @ be_enc 2 (of_nat (length body - 8) :: u16) @ body) XOR 0x5354554e)"

lemma length_seal_mac [simp]: "wf_env env \<Longrightarrow> length (seal_mac env k h mid) = 20"
  by (simp add: seal_mac_def wf_env_def)

lemma length_seal_body [simp]: "wf_env env \<Longrightarrow> length (seal_body env k h mid) = length mid + 24"
  by (simp add: seal_body_def attr_size_def stun_align_id)

lemma length_seal_crc [simp]: "length (seal_crc h body) = 4"
  by (simp add: seal_crc_def)

text \<open>A message that its agent seals: \<open>h\<close> are the two bytes of the type, \<open>mid\<close> the identifier
  and the attributes.\<close>

definition sealable :: "StunAgent \<Rightarrow> StunMessage \<Rightarrow> nat \<Rightarrow> bool" where
  "sealable a m n \<longleftrightarrow> compatibility a = STUN_COMPATIBILITY_RFC5389 \<and>
     has_usage a STUN_AGENT_USAGE_USE_FINGERPRINT \<and>
     \<not> has_usage a STUN_AGENT_USAGE_LONG_TERM_CREDENTIALS \<and>
     \<not> has_usage a STUN_AGENT_USAGE_NO_ALIGNED_ATTRIBUTES \<and>
     agent m = Ptr (agent_cfg a) \<and> msg_key m = Null \<and> \<not> long_term_valid m \<and>
     stun_message_length m = Some (of_nat n) \<and> 20 \<le> n \<and> n + 32 \<le> buffer_len m \<and>
     buffer_len m \<le> length (buffer m) \<and> n + 32 < 65536"

lemma has_usage_cfg [simp]: "has_usage (agent_cfg a) f = has_usage a f"
  by (simp add: has_usage_def agent_cfg_def StunAgentCfg.truncate_def)

lemma compatibility_cfg [simp]: "compatibility (agent_cfg a) = compatibility a"
  by (simp add: agent_cfg_def StunAgentCfg.truncate_def)

lemma append_fixed:
  assumes "\<not> msg_unaligned m" and "\<And>t. ms_turn_swap m t = t" and "4 dvd len"
    and n: "stun_message_length m = Some (of_nat n)" "20 \<le> n" "n < 65536"
    and fits: "n + 4 + len \<le> buffer_len m"
    and B: "buffer m = h @ l @ mid @ room @ rest"
    and lens: "length h = 2" "length l = 2" "length mid = n - 4" "length room = 4 + len"
  shows "\<exists>x. length x = len \<and> stun_message_append m t len = Some (Ptr (n + 4),
    m\<lparr>buffer := h @ be_enc 2 (of_nat (n + 4 + len) - 20 :: u16) @ mid @ be_enc 2 t @
        be_enc 2 (of_nat len :: u16) @ x @ rest\<rparr>)"
proof -
  have u: "unat (of_nat n :: u16) = n" using n(3) by simp
  have al: "stun_align len = len" using assms(3) by (rule stun_align_id)
  then have pad: "pad_of m len = 0" and wl: "wire_len m len = len"
    using assms(1) by (simp_all add: pad_of_def attr_size_def wire_len_def)
  have split: "buffer m = h @ l @ mid @ take 2 room @ take 2 (drop 2 room) @ drop 4 room @ [] @ rest"
    using lens(4) append_take_drop_id [of 2 room] append_take_drop_id [of 2 "drop 2 room"]
    by (simp add: B)
  have "stun_message_append m t len = Some (Ptr (unat (of_nat n :: u16) + 4),
     m\<lparr>buffer := h @ be_enc 2 (of_nat n + of_nat (4 + (len + pad_of m len)) - 20 :: u16) @ mid @
        be_enc 2 (ms_turn_swap m t) @ be_enc 2 (of_nat (wire_len m len) :: u16) @
        drop 4 room @ replicate (pad_of m len) 0 @ rest\<rparr>)"
    by (rule stun_message_append_buffer [OF n(1) _ _ split])
      (use u n(2) fits lens pad in simp_all)
  moreover have "(of_nat n + of_nat (4 + len) :: u16) = of_nat (n + 4 + len)"
    by (simp add: algebra_simps)
  ultimately show ?thesis using u pad wl assms(2) lens(4)
    by (intro exI [of _ "drop 4 room"]) simp
qed

lemma sealable_plain:
  assumes "sealable a m n"
  shows "\<not> msg_unaligned m" and "ms_turn_swap m t = t"
  using assms by (auto simp: sealable_def msg_unaligned_def ms_turn_swap_def)

text \<open>The length field of a message whose length is \<open>n\<close>.\<close>

abbreviation len_field :: "nat \<Rightarrow> bytes" where
  "len_field n \<equiv> be_enc 2 (of_nat (n - 20) :: u16)"

lemma length_of_field:
  assumes "buffer m = h @ len_field n @ rest" and "length h = 2" and "20 \<le> n"
  shows "stun_message_length m = Some (of_nat n)"
  using assms by (simp add: stun_message_length_def stun_getw_eq stun_pos_defs of_nat_diff)

lemma len_field_append: "20 \<le> n + k \<Longrightarrow> be_enc 2 (of_nat (n + k) - 20 :: u16) = len_field (n + k)"
  by (simp add: of_nat_diff)

lemma finish_integrity_seal:
  assumes s: "sealable a m n" and e: "wf_env env"
    and B: "buffer m = h @ l @ mid @ r1 @ rest"
    and lens: "length h = 2" "length l = 2" "length mid = n - 4" "length r1 = 24"
  shows "finish_integrity env a m (Ptr k) =
    Some (True, m\<lparr>buffer := h @ len_field (n + 24) @ seal_body env k h mid @ rest\<rparr>)"
proof -
  note sd = s [unfolded sealable_def]
  obtain x where x: "length x = 20" and app: "stun_message_append m MI 20 = Some (Ptr (n + 4),
      m\<lparr>buffer := h @ be_enc 2 (of_nat (n + 4 + 20) - 20 :: u16) @ mid @ be_enc 2 MI @
        be_enc 2 (of_nat 20 :: u16) @ x @ rest\<rparr>)"
    using append_fixed [where m = m and len = 20 and t = MI and n = n, OF sealable_plain [OF s] _ _ _ _ _ B] lens sd
    by auto
  define b1 where "b1 = h @ len_field (n + 24) @ mid @ be_enc 2 MI @ be_enc 2 (20 :: u16) @ x @ rest"
  have app': "stun_message_append m MI 20 = Some (Ptr (n + 4), m\<lparr>buffer := b1\<rparr>)"
    using app len_field_append [of "n + 4" 20] by (simp add: b1_def add.commute)
  have len: "stun_message_length (m\<lparr>buffer := b1\<rparr>) = Some (of_nat (n + 24))"
    by (rule length_of_field) (use lens sd in \<open>simp_all add: b1_def\<close>)
  have n24: "unat (of_nat (n + 24) :: u16) = n + 24" "unat (of_nat (n + 24) - 20 :: u16) = n + 4"
  proof -
    show "unat (of_nat (n + 24) :: u16) = n + 24" using sd by (intro unat_of_nat_u16) simp
    have "(of_nat (n + 24) - 20 :: u16) = of_nat (n + 4)" by simp
    moreover have "unat (of_nat (n + 4) :: u16) = n + 4" using sd by (intro unat_of_nat_u16) simp
    ultimately show "unat (of_nat (n + 24) - 20 :: u16) = n + 4" by (simp only:)
  qed
  have w: "(of_nat (n + 24) - 20 :: u16) = of_nat (4 + n)" by simp
  have sha: "finish_sha1 env a (m\<lparr>buffer := b1\<rparr>) k = Some (seal_mac env k h mid)"
    using sd lens len n24 w
    by (simp add: finish_sha1_def stun_sha1_def rd_bytes_def b1_def seal_mac_def del: of_nat_add)
  have "wr_bytes b1 (n + 4) (seal_mac env k h mid) =
      Some (h @ len_field (n + 24) @ seal_body env k h mid @ rest)"
    using wr_bytes_segment [of "h @ len_field (n + 24) @ mid @ be_enc 2 MI @ be_enc 2 (20 :: u16)"
        "n + 4" x "seal_mac env k h mid" rest] lens sd x e
    by (simp add: b1_def seal_body_def encode_attr_def attr_size_def stun_align_id)
  with app' sha sd show ?thesis
    by (simp add: finish_integrity_def finish_credentials_def MI_def del: stun_attribute_code.simps)
qed

lemma stun_fingerprint_split:
  assumes "length h = 2" and "length l = 2" and "8 \<le> length body" and "8 \<le> length rest"
  shows "stun_fingerprint (h @ l @ body @ rest) (length body + 12) False = Some (seal_crc h body)"
  using stun_fingerprint_reference [of "length body + 12" "h @ l @ body @ rest"] assms
  by (simp add: seal_crc_def)

lemma finish_fingerprint_seal:
  assumes s: "sealable a m n"
    and B: "buffer m1 = h @ l @ body @ r2 @ rest" and same: "m1 = m\<lparr>buffer := buffer m1\<rparr>"
    and len1: "stun_message_length m1 = Some (of_nat (n + 24))"
    and lens: "length h = 2" "length l = 2" "length body = n + 20" "length r2 = 8"
  shows "finish_fingerprint a m1 =
    Some (True, m1\<lparr>buffer := h @ len_field (n + 32) @ body @ encode_attr True FP (seal_crc h body) @ rest\<rparr>)"
proof -
  note sd = s [unfolded sealable_def]
  have plain: "\<not> msg_unaligned m1" "ms_turn_swap m1 t = t" for t
    using sealable_plain [OF s] by (subst same; simp add: msg_unaligned_def ms_turn_swap_def)+
  have bl: "buffer_len m1 = buffer_len m" by (subst same) simp
  obtain x where x: "length x = 4" and app: "stun_message_append m1 FP 4 = Some (Ptr (n + 24 + 4),
      m1\<lparr>buffer := h @ be_enc 2 (of_nat (n + 24 + 4 + 4) - 20 :: u16) @ body @ be_enc 2 FP @
        be_enc 2 (of_nat 4 :: u16) @ x @ rest\<rparr>)"
    using append_fixed [where m = m1 and len = 4 and t = FP, OF plain _ len1 _ _ _ B] lens sd bl by auto
  define b2 where "b2 = h @ len_field (n + 32) @ body @ be_enc 2 FP @ be_enc 2 (4 :: u16) @ x @ rest"
  have app': "stun_message_append m1 FP 4 = Some (Ptr (n + 28), m1\<lparr>buffer := b2\<rparr>)"
    using app len_field_append [of "n + 24 + 4" 4] by (simp add: b2_def add.commute)
  have len: "stun_message_length (m1\<lparr>buffer := b2\<rparr>) = Some (of_nat (n + 32))"
    by (rule length_of_field) (use lens sd in \<open>simp_all add: b2_def\<close>)
  have u: "unat (of_nat (n + 32) :: u16) = n + 32" using sd by (intro unat_of_nat_u16) simp
  have fpr: "stun_fingerprint b2 (n + 32) False = Some (seal_crc h body)"
    using stun_fingerprint_split [of h "len_field (n + 32)" body "be_enc 2 FP @ be_enc 2 (4 :: u16) @ x @ rest"]
      lens x by (simp add: b2_def add.commute)
  have "wr_bytes b2 (n + 28) (seal_crc h body) =
      Some (h @ len_field (n + 32) @ body @ encode_attr True FP (seal_crc h body) @ rest)"
    using wr_bytes_segment [of "h @ len_field (n + 32) @ body @ be_enc 2 FP @ be_enc 2 (4 :: u16)"
        "n + 28" x "seal_crc h body" rest] lens x
    by (simp add: b2_def encode_attr_def attr_size_def stun_align_id)
  with app' len u fpr sd show ?thesis
    by (simp add: finish_fingerprint_def cookie_compat_def FP_def del: stun_attribute_code.simps of_nat_add)
qed

section \<open>The bytes that are sent\<close>

definition sealed :: "StunEnv \<Rightarrow> bytes \<Rightarrow> bytes \<Rightarrow> bytes \<Rightarrow> bytes" where
  "sealed env k h mid = h @ len_field (length mid + 36) @ seal_body env k h mid @
     encode_attr True FP (seal_crc h (seal_body env k h mid))"

definition sealed_attrs :: "StunEnv \<Rightarrow> bytes \<Rightarrow> bytes \<Rightarrow> bytes \<Rightarrow> (u16 \<times> bytes) list" where
  "sealed_attrs env k h mid =
     [(MI, seal_mac env k h mid), (FP, seal_crc h (seal_body env k h mid))]"

lemma length_sealed: "wf_env env \<Longrightarrow> length h = 2 \<Longrightarrow> length (sealed env k h mid) = length mid + 36"
  by (simp add: sealed_def attr_size_def stun_align_id)

lemma finish_message_seal:
  assumes s: "sealable a m (length mid + 4)" and e: "wf_env env"
    and B: "buffer m = h @ l @ mid @ rest"
    and lens: "length h = 2" "length l = 2"
    and cls: "stun_message_get_class m = Some STUN_REQUEST"
    and free: "\<exists>s \<in> set (sent_ids a). \<not> sid_valid s"
  shows "\<exists>a' m'. stun_agent_finish_message env a m (Ptr k) = Some (length mid + 36, a', m') \<and>
    take (length mid + 36) (buffer m') = sealed env k h mid"
proof -
  note sd = s [unfolded sealable_def]
  define n where "n = length mid + 4"
  let ?body = "seal_body env k h mid" and ?r1 = "take 24 rest" and ?r2 = "take 8 (drop 24 rest)"
  let ?rest = "drop 32 rest"
  have lr: "32 \<le> length rest" using sd B lens by simp
  have rest: "rest = ?r1 @ ?r2 @ ?rest"
    using append_take_drop_id [of 24 rest] append_take_drop_id [of 8 "drop 24 rest"] by simp
  define m1 where "m1 = m\<lparr>buffer := h @ len_field (n + 24) @ ?body @ ?r2 @ ?rest\<rparr>"
  have i: "finish_integrity env a m (Ptr k) = Some (True, m1)"
    unfolding m1_def n_def
    by (rule finish_integrity_seal [OF s e, of _ l _ ?r1]) (use B rest lens lr in simp_all)
  have len1: "stun_message_length m1 = Some (of_nat (n + 24))"
    by (rule length_of_field) (use lens in \<open>simp_all add: m1_def n_def\<close>)
  define b2 where "b2 = h @ len_field (n + 32) @ ?body @ encode_attr True FP (seal_crc h ?body) @ ?rest"
  have f: "finish_fingerprint a m1 = Some (True, m1\<lparr>buffer := b2\<rparr>)"
    unfolding b2_def
    by (rule finish_fingerprint_seal [where m = m and n = n and l = "len_field (n + 24)" and ?r2.0 = ?r2])
      (use s lens len1 lr e in \<open>simp_all add: m1_def n_def\<close>)
  let ?i = "saved_id_idx (\<lambda>s. \<not> sid_valid s) (sent_ids a)"
  have full: "?i \<noteq> length (sent_ids a)" using free by (auto simp: saved_id_idx_full)
  obtain meth where meth: "stun_message_get_method m = Some meth"
    using cls by (auto simp: stun_message_get_class_def stun_message_get_method_def bind_eq_Some_conv Let_def)
  have l2: "20 \<le> length b2" using lens e by (simp add: b2_def attr_size_def stun_align_id)
  then obtain a' where save: "save_id ?i (m1\<lparr>buffer := b2\<rparr>) (Ptr k) a = Some a'"
    by (auto simp: save_id_def stun_message_id_def stun_message_get_method_def rd_bytes_def
        stun_getw_eq stun_pos_defs Let_def)
  have len2: "stun_message_length (m1\<lparr>buffer := b2, msg_key := Ptr k\<rparr>) = Some (of_nat (n + 32))"
    by (rule length_of_field) (use lens in \<open>simp_all add: b2_def n_def\<close>)
  have u: "unat (of_nat (n + 32) :: u16) = n + 32" using sd by (intro unat_of_nat_u16) (simp add: n_def)
  have "stun_agent_finish_message env a m (Ptr k) =
      Some (n + 32, a', m1\<lparr>buffer := b2, msg_key := Ptr k\<rparr>)"
    using cls meth sd full i f save len2 u
    by (simp add: stun_agent_finish_message_def Let_def del: of_nat_add)
  moreover have "b2 = sealed env k h mid @ ?rest" by (simp add: b2_def sealed_def n_def)
  ultimately show ?thesis using length_sealed [OF e lens(1)] by (simp add: n_def)
qed

section \<open>The bytes that are received\<close>

lemma parse_attrs_True_dvd: "parse_attrs True xs = Some as \<Longrightarrow> 4 dvd length xs"
proof (induction True xs arbitrary: as rule: parse_attrs.induct)
  case (1 xs)
  show ?case
  proof (cases "xs = []")
    case False
    let ?k = "attr_size True (unat (be_dec (take 2 (drop 2 xs)) :: u16))"
    from 1(2) False have k: "4 + ?k \<le> length xs" "\<exists>as'. parse_attrs True (drop (4 + ?k) xs) = Some as'"
      by (auto simp: parse_attrs.simps [of _ xs] Let_def split: if_splits)
    then have "4 dvd length (drop (4 + ?k) xs)" using 1(1) False by (auto simp: Let_def)
    moreover have "4 dvd 4 + ?k" by (simp add: attr_size_def)
    moreover have "length xs = length (drop (4 + ?k) xs) + (4 + ?k)" using k(1) by simp
    ultimately show ?thesis by (metis dvd_add)
  qed simp
qed

definition sealable_bytes :: "bytes \<Rightarrow> bytes \<Rightarrow> (u16 \<times> bytes) list \<Rightarrow> bool" where
  "sealable_bytes h mid as \<longleftrightarrow> length h = 2 \<and> hd h < 64 \<and> 16 \<le> length mid \<and> length mid + 36 < 65536 \<and>
     take 4 mid = be_enc 4 STUN_MAGIC_COOKIE \<and> parse_attrs True (drop 16 mid) = Some as \<and> open_attrs as"

lemma sealed_parse:
  assumes e: "wf_env env" and "sealable_bytes h mid as"
  shows "parse_attrs True (drop 20 (sealed env k h mid)) = Some (as @ sealed_attrs env k h mid)"
proof -
  have "drop 20 (sealed env k h mid) = drop 16 mid @ encode_attr True MI (seal_mac env k h mid) @
      encode_attr True FP (seal_crc h (seal_body env k h mid))"
    using assms(2) by (simp add: sealed_def seal_body_def sealable_bytes_def)
  moreover have "parse_attrs True (drop 16 mid) = Some as" using assms(2) by (simp add: sealable_bytes_def)
  ultimately show ?thesis
    using e parse_attrs_append parse_encode_attr
    by (simp add: sealed_attrs_def parse_attrs_append [OF _ parse_attrs_append [OF parse_encode_attr parse_encode_attr]])
qed

lemma sealed_head:
  assumes "sealable_bytes h mid as"
  shows "take 2 (drop 2 (sealed env k h mid)) = len_field (length mid + 36)"
    and "sealed env k h mid ! 0 < 64"
    and "take 16 (drop 4 (sealed env k h mid)) = take 16 mid"
    and "take 2 (sealed env k h mid) = h"
  using assms by (cases h; simp add: sealable_bytes_def sealed_def seal_body_def)+

lemma sealed_valid:
  assumes e: "wf_env env" and s: "sealable_bytes h mid as"
  shows "stun_message_validate_buffer_length (sealed env k h mid) (length mid + 36) True =
    Some (int (length mid + 36))"
proof -
  have len: "length (sealed env k h mid) = length mid + 36"
    using s e by (simp add: length_sealed sealable_bytes_def)
  have f: "unat (be_dec (take 2 (drop 2 (sealed env k h mid))) :: u16) = length mid + 16"
    using s by (simp add: sealed_head(1) [OF s] sealable_bytes_def del: of_nat_add)
  have "4 dvd length (drop 16 mid)" using s by (intro parse_attrs_True_dvd) (auto simp: sealable_bytes_def)
  then have "4 dvd length mid - 16 + (52 :: nat)" by simp
  then have dv: "4 dvd 20 + (length mid + 16)" using s by (simp add: sealable_bytes_def)
  have fs: "fast_spec (sealed env k h mid) (length mid + 36) True = int (length mid + 36)"
    unfolding fast_spec_def f Let_def using dv sealed_head(2) [OF s] by simp
  have "take (length mid + 16) (drop 20 (sealed env k h mid)) = drop 20 (sealed env k h mid)"
    using len by simp
  then show ?thesis
    using sealed_parse [OF e s, of k]
    by (simp add: validate_buffer_length_eq len fs del: of_nat_add)
qed

definition acceptor :: "StunAgent \<Rightarrow> bool" where
  "acceptor b \<longleftrightarrow> compatibility b = STUN_COMPATIBILITY_RFC5389 \<and>
     has_usage b STUN_AGENT_USAGE_SHORT_TERM_CREDENTIALS \<and>
     \<not> has_usage b STUN_AGENT_USAGE_LONG_TERM_CREDENTIALS \<and>
     \<not> has_usage b STUN_AGENT_USAGE_NO_ALIGNED_ATTRIBUTES \<and>
     \<not> has_usage b STUN_AGENT_USAGE_IGNORE_CREDENTIALS \<and> 0 \<in> set (known_attributes b)"

lemma received_plain:
  assumes "acceptor b"
  shows "\<not> msg_unaligned (received_msg b msg buf n)" and "ms_turn_swap (received_msg b msg buf n) t = t"
    and "buffer (received_msg b msg buf n) = buf"
  using assms by (auto simp: acceptor_def received_msg_def msg_unaligned_def ms_turn_swap_def)

lemma received_attrs:
  fixes k msg
  assumes e: "wf_env env" and s: "sealable_bytes h mid as" and b: "acceptor b"
  defines "m \<equiv> received_msg b msg (sealed env k h mid) (length mid + 36)"
  shows "stun_message_length m = Some (of_nat (length mid + 36))"
    and "msg_attrs m = Some (as @ sealed_attrs env k h mid)"
proof -
  show len: "stun_message_length m = Some (of_nat (length mid + 36))"
    unfolding m_def by (rule length_of_field [of _ h])
      (use s in \<open>simp_all add: received_plain [OF b] sealed_def sealable_bytes_def\<close>)
  have u: "unat (of_nat (length mid + 36) :: u16) = length mid + 36"
    using s by (intro unat_of_nat_u16) (simp add: sealable_bytes_def)
  have ls: "length (sealed env k h mid) = length mid + 36"
    using s e by (simp add: length_sealed sealable_bytes_def)
  then have "take (length mid + 16) (drop 20 (sealed env k h mid)) = drop 20 (sealed env k h mid)"
    by simp
  with sealed_parse [OF e s, of k] len u ls show "msg_attrs m = Some (as @ sealed_attrs env k h mid)"
    by (simp add: msg_attrs_def m_def received_plain [OF b] del: of_nat_add)
qed

lemma find_attr_open: "open_attrs as \<Longrightarrow> t \<notin> fst ` set as \<Longrightarrow> find_attr (as @ bs) t = find_attr bs t"
  by (induction as) (auto simp: open_attrs_Cons)

lemma sealed_lookups:
  assumes "open_attrs as"
  shows "find_attr (as @ sealed_attrs env k h mid) MI = Some (seal_mac env k h mid)"
    and "find_attr (as @ sealed_attrs env k h mid) FP = Some (seal_crc h (seal_body env k h mid))"
  using find_attr_open [OF assms] assms
  by (auto simp: open_attrs_def sealed_attrs_def MI_def FP_def)

lemma received_fingerprint:
  assumes e: "wf_env env" and s: "sealable_bytes h mid as" and b: "acceptor b"
  shows "stun_agent_check_fingerprint b (received_msg b msg (sealed env k h mid) (length mid + 36)) = Some True"
proof -
  let ?m = "received_msg b msg (sealed env k h mid) (length mid + 36)"
  let ?body = "seal_body env k h mid"
  note r = received_attrs [OF e s b, of msg k]
  have o: "open_attrs as" and h2: "length h = 2" using s by (auto simp: sealable_bytes_def)
  have f: "stun_message_find32 ?m FP None = Some (STUN_MESSAGE_RETURN_SUCCESS, Some (be_dec (seal_crc h ?body)))"
    using stun_message_find32_spec [OF r(2), of FP None] sealed_lookups(2) [OF o]
    by (simp add: received_plain [OF b])
  have u: "unat (of_nat (length mid + 36) :: u16) = length mid + 36"
    using s by (intro unat_of_nat_u16) (simp add: sealable_bytes_def)
  have c: "stun_fingerprint (sealed env k h mid) (length mid + 36) False = Some (seal_crc h ?body)"
    using stun_fingerprint_split [of h "len_field (length mid + 36)" ?body
        "encode_attr True FP (seal_crc h ?body)"] h2 e s
    by (simp add: sealed_def sealable_bytes_def add.commute attr_size_def stun_align_id)
  have d: "be_enc 4 (be_dec (seal_crc h ?body) :: u32) = seal_crc h ?body"
    by (rule be_enc_dec) simp_all
  show ?thesis
    using f r(1) u c d
    by (simp add: stun_agent_check_fingerprint_def received_plain [OF b] FP_def [symmetric]
        del: of_nat_add stun_attribute_code.simps)
qed

lemma received_integrity:
  assumes e: "wf_env env" and s: "sealable_bytes h mid as" and b: "acceptor b"
  shows "validate_integrity env b (received_msg b msg (sealed env k h mid) (length mid + 36)) k lk lv ec =
    Some (True, (received_msg b msg (sealed env k h mid) (length mid + 36))\<lparr>msg_key := Ptr k\<rparr>, ec)"
proof -
  let ?m = "received_msg b msg (sealed env k h mid) (length mid + 36)" and ?n = "length mid + 4"
  let ?mac = "seal_mac env k h mid"
  note r = received_attrs [OF e s b, of msg k] and rp = received_plain [OF b]
  note sb = s [unfolded sealable_bytes_def]
  have u: "unat (of_nat (length mid + 36) :: u16) = length mid + 36"
    using sb by (intro unat_of_nat_u16) simp
  have ls: "length (sealed env k h mid) = length mid + 36" using sb e by (simp add: length_sealed)
  have cut: "sealed env k h mid = (h @ len_field (length mid + 36) @ mid) @ be_enc 2 MI @
      be_enc 2 (20 :: u16) @ ?mac @ encode_attr True FP (seal_crc h (seal_body env k h mid))"
    using e by (simp add: sealed_def seal_body_def encode_attr_def attr_size_def stun_align_id)
  have "parse_attrs True (take (?n - 20) (drop 20 (sealed env k h mid))) = Some as"
    using sb by (simp add: cut)
  moreover have "MI \<notin> fst ` set as" using sb by (auto simp: open_attrs_def MI_def)
  ultimately have "stun_find_loop ?m (length mid + 36) MI 20 = stun_find_loop ?m (length mid + 36) MI ?n"
    using sb ls rp by (intro stun_find_loop_skip [where as = as]) simp_all
  also have "\<dots> = Some (Ptr (?n + 4, 20))"
    using sb ls
    by (subst stun_find_loop.simps) (simp add: stun_getw_eq stun_pos_defs rp cut)
  finally have f: "stun_message_find ?m MI = Some (Ptr (?n + 4, 20))"
    using r(1) u by (simp add: stun_message_find_def rp stun_pos_defs del: of_nat_add)
  have sha: "validate_sha1 env b ?m (?n + 4) k = Some ?mac"
    using b sb ls
    by (simp add: validate_sha1_def acceptor_def stun_sha1_def rp rd_bytes_def)
      (simp add: cut seal_mac_def add.commute)
  have rd: "rd_bytes (sealed env k h mid) (?n + 4) 20 = Some ?mac"
    using sb e ls by (simp add: rd_bytes_def) (simp add: cut)
  show ?thesis
    using f sha rd b e
    by (simp add: validate_integrity_def validate_credentials_def acceptor_def rp MI_def [symmetric]
        del: stun_attribute_code.simps)
qed

lemma validate_finish_request:
  assumes as: "msg_attrs m = Some as" and plain: "\<not> msg_unaligned m" "\<And>t. ms_turn_swap m t = t"
    and b: "acceptor b"
  shows "\<exists>b'. validate_finish b m STUN_REQUEST Null ec =
    Some (if unknown_types b as = [] then STUN_VALIDATION_SUCCESS
          else STUN_VALIDATION_UNKNOWN_REQUEST_ATTRIBUTE, b', m)"
proof -
  obtain r x where f: "stun_message_find32 m
      (stun_attribute_code STUN_ATTRIBUTE_MS_IMPLEMENTATION_VERSION) None = Some (r, x)"
    unfolding stun_message_find32_spec [OF as] by force
  define b' where "b' = (if r = STUN_MESSAGE_RETURN_SUCCESS
      then b\<lparr>ms_ice2_send_legacy_connchecks := False\<rparr> else b)"
  have cfg: "has_usage b' fl = has_usage b fl" "known_attributes b' = known_attributes b" for fl
    by (auto simp: b'_def has_usage_def)
  obtain n where n: "stun_message_length m = Some n" "20 \<le> unat n" "unat n \<le> length (buffer m)"
    "parse_attrs True (take (unat n - 20) (drop 20 (buffer m))) = Some as"
    using as plain(1) by (elim msg_attrs_SomeE) auto
  have "unknowns_loop b' (buffer m) (unat n) 1 20 [] = Some (take 1 ([] @ unknown_types b' as))"
    by (rule unknowns_loop_spec) (use n b cfg in \<open>auto simp: acceptor_def\<close>)
  then have "stun_agent_find_unknowns b' m 1 = Some (take 1 (unknown_types b as))"
    using n(1) cfg(2) by (simp add: stun_agent_find_unknowns_def stun_pos_defs unknown_types_def)
  then show ?thesis
    using f by (auto simp: validate_finish_def b'_def [symmetric] simp del: stun_attribute_code.simps)
qed

lemma msg_view_key:
  "msg_unaligned (m\<lparr>msg_key := x\<rparr>) = msg_unaligned m" "ms_turn_swap (m\<lparr>msg_key := x\<rparr>) t = ms_turn_swap m t"
  "msg_attrs (m\<lparr>msg_key := x\<rparr>) = msg_attrs m"
proof -
  show 1: "msg_unaligned (m\<lparr>msg_key := x\<rparr>) = msg_unaligned m"
    and "ms_turn_swap (m\<lparr>msg_key := x\<rparr>) t = ms_turn_swap m t"
    by (simp_all add: msg_unaligned_def ms_turn_swap_def)
  have "stun_message_length (m\<lparr>msg_key := x\<rparr>) = stun_message_length m"
    by (simp add: stun_message_length_def)
  with 1 show "msg_attrs (m\<lparr>msg_key := x\<rparr>) = msg_attrs m" by (simp add: msg_attrs_def cong: if_cong option.case_cong)
qed

lemma sealed_accepted:
  assumes e: "wf_env env" and s: "sealable_bytes h mid as" and b: "acceptor b"
    and u: "find_attr as (stun_attribute_code STUN_ATTRIBUTE_USERNAME) = Some u"
    and k: "k \<noteq> []" and v: "\<And>x. vf x (Ptr u) (length u) Null = Some (True, Ptr k)"
    and cls: "stun_message_get_class (received_msg b msg (sealed env k h mid) (length mid + 36)) = Some STUN_REQUEST"
  shows "\<exists>b' m2. stun_agent_validate env b msg (sealed env k h mid) (length mid + 36) (Ptr vf) =
      Some (if unknown_types b (as @ sealed_attrs env k h mid) = [] then STUN_VALIDATION_SUCCESS
            else STUN_VALIDATION_UNKNOWN_REQUEST_ATTRIBUTE, b', m2) \<and> msg_key m2 = Ptr k"
proof -
  define m where "m = received_msg b msg (sealed env k h mid) (length mid + 36)"
  let ?as = "as @ sealed_attrs env k h mid"
  note bd = b [unfolded acceptor_def] and rp = received_plain [OF b, of msg "sealed env k h mid" "length mid + 36", folded m_def]
  note r = received_attrs [OF e s b, of msg k, folded m_def]
  have o: "open_attrs as" using s by (simp add: sealable_bytes_def)
  have hasu: "stun_message_has_attribute m (stun_attribute_code STUN_ATTRIBUTE_USERNAME) = Some True"
    using stun_message_has_attribute_spec [OF r(2)] find_attr_snoc_kept [OF u] rp(2) by simp
  have hasm: "stun_message_has_attribute m (stun_attribute_code STUN_ATTRIBUTE_MESSAGE_INTEGRITY) = Some True"
    using stun_message_has_attribute_spec [OF r(2)] sealed_lookups(1) [OF o] rp(2) by (simp add: MI_def)
  have lacks: "validate_lacks_credentials b m STUN_REQUEST = Some False"
    using hasu hasm bd by (simp add: validate_lacks_credentials_def del: stun_attribute_code.simps)
  have ign: "validate_ignore_credentials b m None = Some (False, None)"
    using cls bd by (intro validate_ignore_request) (simp_all add: m_def)
  have gk: "validate_get_key b m False (Ptr vf) Null = Some (True, Ptr k)"
  proof (cases rule: find_cases [OF r(2), of "stun_attribute_code STUN_ATTRIBUTE_USERNAME"])
    case 1
    then show ?thesis using find_attr_snoc_kept [OF u] rp(2) by simp
  next
    case (2 x p l)
    then have "x = u" using find_attr_snoc_kept [OF u] rp(2) by simp
    with 2 v hasm show ?thesis
      by (simp add: validate_get_key_def rd_bytes_def del: stun_attribute_code.simps)
  qed
  have int: "validate_integrity env b m k (replicate 16 0) False None = Some (True, m\<lparr>msg_key := Ptr k\<rparr>, None)"
    unfolding m_def by (rule received_integrity [OF e s b])
  let ?m2 = "m\<lparr>msg_key := Ptr k\<rparr>"
  have "msg_attrs ?m2 = Some ?as" "\<not> msg_unaligned ?m2" "\<And>t. ms_turn_swap ?m2 t = t"
    using r(2) rp by (simp_all add: msg_view_key)
  from validate_finish_request [OF this b, of None] obtain b' where fin:
    "validate_finish b ?m2 STUN_REQUEST Null None =
      Some (if unknown_types b ?as = [] then STUN_VALIDATION_SUCCESS
            else STUN_VALIDATION_UNKNOWN_REQUEST_ATTRIBUTE, b', ?m2)" by blast
  have auth: "validate_auth env b m STUN_REQUEST (Ptr vf) Null Null (replicate 16 0) False =
      Some (if unknown_types b ?as = [] then STUN_VALIDATION_SUCCESS
            else STUN_VALIDATION_UNKNOWN_REQUEST_ATTRIBUTE, b', ?m2)"
    using ign lacks gk k int fin by (simp add: validate_auth_def)
  have cookie: "stun_message_has_cookie m = Some True"
  proof -
    have "take 4 (drop 4 (sealed env k h mid)) = take 4 mid"
      using s by (simp add: sealed_def seal_body_def sealable_bytes_def)
    moreover have "20 \<le> length (buffer m)" using r(2) by (rule msg_attrs_length_ge)
    ultimately show ?thesis using s by (simp add: has_cookie_eq rp sealable_bytes_def)
  qed
  have fpr: "stun_agent_check_fingerprint b m = Some True"
    unfolding m_def by (rule received_fingerprint [OF e s b])
  have pos: "int (length mid + 36) \<noteq> STUN_MESSAGE_BUFFER_INVALID" "int (length mid + 36) \<noteq> STUN_MESSAGE_BUFFER_INCOMPLETE"
    by (simp_all add: STUN_MESSAGE_BUFFER_INVALID_def STUN_MESSAGE_BUFFER_INCOMPLETE_def)
  have "stun_agent_validate env b msg (sealed env k h mid) (length mid + 36) (Ptr vf) =
      Some (if unknown_types b ?as = [] then STUN_VALIDATION_SUCCESS
            else STUN_VALIDATION_UNKNOWN_REQUEST_ATTRIBUTE, b', ?m2)"
    using sealed_valid [OF e s, of k] bd cookie fpr cls auth pos
    by (simp add: stun_agent_validate_def received_msg_def [symmetric] m_def [symmetric]
        validate_match_request del: of_nat_add)
  then show ?thesis by auto
qed

section \<open>Properties\<close>

definition example_agent_5389 :: StunAgent where
  "example_agent_5389 = example_agent_3489\<lparr>compatibility := STUN_COMPATIBILITY_RFC5389,
     usage_flags := usage_flag_bit STUN_AGENT_USAGE_SHORT_TERM_CREDENTIALS OR
       usage_flag_bit STUN_AGENT_USAGE_USE_FINGERPRINT\<rparr>"

definition example_request :: StunMessage where
  "example_request = \<lparr>agent = Ptr (agent_cfg example_agent_5389),
     buffer = [0, 1, 0, 8, 0x21, 0x12, 0xA4, 0x42] @ replicate 12 7 @ [0, 6, 0, 4, 97, 98, 99, 100] @
       replicate 72 0,
     buffer_len = 100, msg_key = Null, long_term_key = replicate 16 0, long_term_valid = False\<rparr>"

definition example_validater :: StunMessageIntegrityValidate where
  "example_validater = stun_agent_default_validater (Ptr
     [\<lparr>vd_username = Ptr [97, 98, 99, 100], vd_password = Ptr [1, 2, 3]\<rparr>,
      \<lparr>vd_username = Null, vd_password = Null\<rparr>])"

text \<open>C3.  A request that one agent finishes under a key is accepted by another agent whose
  validater knows the key for the user name, whatever the attributes of the request: the
  answer is success, or the report of an unknown mandatory attribute where the request has one.
  Both agents run as ICE configures them.\<close>

theorem finished_request_accepted:
  assumes env: "wf_env env" and s: "sealable a m n" and as: "msg_attrs m = Some as" and o: "open_attrs as"
    and cls: "stun_message_get_class m = Some STUN_REQUEST"
    and cookie: "stun_message_has_cookie m = Some True" and first: "buffer m ! 0 < 64"
    and free: "\<exists>s \<in> set (sent_ids a). \<not> sid_valid s" and k: "k \<noteq> []" and b: "acceptor b"
    and u: "find_attr as (stun_attribute_code STUN_ATTRIBUTE_USERNAME) = Some u"
    and v: "\<And>x. vf x (Ptr u) (length u) Null = Some (True, Ptr k)"
  shows "\<exists>a' m'. stun_agent_finish_message env a m (Ptr k) = Some (n + 32, a', m') \<and>
    (\<exists>b' m2. stun_agent_validate env b msg (take (n + 32) (buffer m')) (n + 32) (Ptr vf) =
      Some (if unknown_types b (as @ [(MI, [])]) = [] then STUN_VALIDATION_SUCCESS
            else STUN_VALIDATION_UNKNOWN_REQUEST_ATTRIBUTE, b', m2) \<and> msg_key m2 = Ptr k)"
proof -
  note sd = s [unfolded sealable_def]
  define h l mid rest where "h = take 2 (buffer m)" and "l = take 2 (drop 2 (buffer m))"
    and "mid = take (n - 4) (drop 4 (buffer m))" and "rest = drop n (buffer m)"
  have lb: "n + 32 \<le> length (buffer m)" using sd by simp
  have B: "buffer m = h @ l @ mid @ rest"
    using append_take_drop_id [of 2 "buffer m"] append_take_drop_id [of 2 "drop 2 (buffer m)"]
      append_take_drop_id [of "n - 4" "drop 4 (buffer m)"] sd
    by (simp add: h_def l_def mid_def rest_def)
  have lens: "length h = 2" "length l = 2" "length mid = n - 4"
    using lb by (simp_all add: h_def l_def mid_def)
  then have n: "n = length mid + 4" using sd by simp
  have u16: "unat (of_nat n :: u16) = n" using sd by simp
  have "parse_attrs True (take (n - 20) (drop 20 (buffer m))) = Some as"
    using as sd u16 sealable_plain(1) [OF s] by (elim msg_attrs_SomeE) auto
  moreover have "take (n - 20) (drop 20 (buffer m)) = drop 16 mid"
    using sd by (simp add: mid_def drop_take)
  moreover have "min 4 (n - 4) = 4" using sd by linarith
  then have "take 4 mid = be_enc 4 STUN_MAGIC_COOKIE"
    using cookie has_cookie_eq [of m] lb sd by (simp add: mid_def)
  moreover have "hd h < 64" using first lens B by (cases h) auto
  ultimately have sb: "sealable_bytes h mid as"
    using lens sd o by (auto simp: sealable_bytes_def)
  from finish_message_seal [OF s [unfolded n] env B lens(1,2) cls free, of k] obtain a' m' where
    fin: "stun_agent_finish_message env a m (Ptr k) = Some (n + 32, a', m')"
    and buf: "take (n + 32) (buffer m') = sealed env k h mid" by (auto simp: n add.commute)
  have "stun_message_get_class (received_msg b msg (sealed env k h mid) (length mid + 36)) = stun_message_get_class m"
    using lens by (simp add: stun_message_get_class_def stun_getw_eq received_msg_def B sealed_def)
  with cls sealed_accepted [where vf = vf and msg = msg, OF env sb b u k] v
  have "\<exists>b' m2. stun_agent_validate env b msg (sealed env k h mid) (length mid + 36) (Ptr vf) =
      Some (if unknown_types b (as @ sealed_attrs env k h mid) = [] then STUN_VALIDATION_SUCCESS
            else STUN_VALIDATION_UNKNOWN_REQUEST_ATTRIBUTE, b', m2) \<and> msg_key m2 = Ptr k" by simp
  moreover have "unknown_types b (as @ sealed_attrs env k h mid) = unknown_types b (as @ [(MI, [])])"
    by (simp add: unknown_types_def sealed_attrs_def FP_def stun_optional_def)
  moreover have "length mid + 36 = n + 32" by (simp add: n)
  ultimately show ?thesis using fin buf
    by (intro exI [of _ a'] exI [of _ m']) (simp only: simp_thms)
qed

lemma example_env_wf: "wf_env example_env"
  by (auto simp: wf_env_def example_env_def)

theorem finished_request_accepted_witness:
  "\<exists>a' m'. stun_agent_finish_message example_env example_agent_5389 example_request (Ptr [1, 2, 3]) = Some (60, a', m') \<and>
    (\<exists>b' m2. stun_agent_validate example_env example_agent_5389 example_msg (take 60 (buffer m')) 60
        (Ptr example_validater) = Some (STUN_VALIDATION_SUCCESS, b', m2) \<and> msg_key m2 = Ptr [1, 2, 3])"
proof -
  have "\<exists>a' m'. stun_agent_finish_message example_env example_agent_5389 example_request (Ptr [1, 2, 3]) =
      Some (28 + 32, a', m') \<and>
    (\<exists>b' m2. stun_agent_validate example_env example_agent_5389 example_msg (take (28 + 32) (buffer m')) (28 + 32)
      (Ptr example_validater) =
      Some (if unknown_types example_agent_5389 ([(6, [97, 98, 99, 100])] @ [(MI, [])]) = [] then STUN_VALIDATION_SUCCESS
            else STUN_VALIDATION_UNKNOWN_REQUEST_ATTRIBUTE, b', m2) \<and> msg_key m2 = Ptr [1, 2, 3])"
  proof (rule finished_request_accepted [OF example_env_wf])
    show "sealable example_agent_5389 example_request 28" by code_simp
    show "msg_attrs example_request = Some [(6, [97, 98, 99, 100])]" by code_simp
    show "open_attrs [(6, [97, 98, 99, 100])]" by (simp add: open_attrs_def)
    show "stun_message_get_class example_request = Some STUN_REQUEST" by code_simp
    show "stun_message_has_cookie example_request = Some True" by code_simp
    show "buffer example_request ! 0 < 64" by (simp add: example_request_def)
    show "\<exists>s \<in> set (sent_ids example_agent_5389). \<not> sid_valid s"
      by (simp add: example_agent_5389_def example_agent_3489_def)
    show "acceptor example_agent_5389" by code_simp
    show "find_attr [(6, [97, 98, 99, 100])] (stun_attribute_code STUN_ATTRIBUTE_USERNAME) = Some [97, 98, 99, 100]"
      by simp
  qed (simp_all add: example_validater_def stun_agent_default_validater_def)
  moreover have "unknown_types example_agent_5389 ([(6, [97, 98, 99, 100])] @ [(MI, [])]) = []" by code_simp
  ultimately show ?thesis by simp
qed

text \<open>C15.  The list of unknown attributes that an agent collects is exactly the list of the
  mandatory types of the message that its known attributes do not name, in their order, cut to
  the room of the caller.\<close>

theorem find_unknowns_exact:
  assumes "msg_attrs m = Some as" and "msg_unaligned m = has_usage agt STUN_AGENT_USAGE_NO_ALIGNED_ATTRIBUTES"
    and "0 \<in> set (known_attributes agt)"
  shows "stun_agent_find_unknowns agt m maxn = Some (take maxn (unknown_types agt as))"
proof -
  from assms(1) obtain n where n: "stun_message_length m = Some n" "20 \<le> unat n" "unat n \<le> length (buffer m)"
    "parse_attrs (\<not> msg_unaligned m) (take (unat n - 20) (drop 20 (buffer m))) = Some as"
    by (rule msg_attrs_SomeE)
  have "unknowns_loop agt (buffer m) (unat n) maxn 20 [] = Some (take maxn ([] @ unknown_types agt as))"
    by (rule unknowns_loop_spec) (use n assms in auto)
  then show ?thesis using n(1) by (simp add: stun_agent_find_unknowns_def stun_pos_defs)
qed

theorem find_unknowns_exact_witness:
  "stun_agent_find_unknowns example_agent_3489 example_request 5 = Some []"
proof -
  have "msg_attrs example_request = Some [(6, [97, 98, 99, 100])]" by code_simp
  moreover have "msg_unaligned example_request = has_usage example_agent_3489 STUN_AGENT_USAGE_NO_ALIGNED_ATTRIBUTES"
    by code_simp
  moreover have "0 \<in> set (known_attributes example_agent_3489)" by code_simp
  moreover have "unknown_types example_agent_3489 [(6, [97, 98, 99, 100])] = []" by code_simp
  ultimately show ?thesis using find_unknowns_exact by simp
qed

end
