(* ===== verification/Stun_Timer.thy ===== *)
theory Stun_Timer
  imports Nice_Prelude "HOL-Library.Signed_Division"
begin

text \<open>
  The retransmission timer of a STUN transaction (\<open>src/libnice/stun/usages/timer.c\<close>).  The
  clock read by \<open>stun_gettime\<close> is an argument of the operations that read it; the milliseconds
  and the counters are 32-bit words, the fields of \<open>struct timeval\<close> are integers.  The lemmas
  give the error of the remaining time, the schedule of a transaction whose answer never comes
  and a bound on its retransmissions for any clock.
\<close>

section \<open>Data and operations\<close>

record timeval =
  tv_sec :: int
  tv_usec :: int

record StunTimer =
  deadline :: timeval
  delay :: u32
  retransmissions :: u32
  max_retransmissions :: u32

datatype StunUsageTimerReturn =
  STUN_USAGE_TIMER_RETURN_SUCCESS | STUN_USAGE_TIMER_RETURN_RETRANSMIT | STUN_USAGE_TIMER_RETURN_TIMEOUT

definition STUN_TIMER_DEFAULT_TIMEOUT :: u32 where
  "STUN_TIMER_DEFAULT_TIMEOUT = 500"

definition STUN_TIMER_DEFAULT_MAX_RETRANSMISSIONS :: u32 where
  "STUN_TIMER_DEFAULT_MAX_RETRANSMISSIONS = 3"

definition STUN_TIMER_DEFAULT_RELIABLE_TIMEOUT :: u32 where
  "STUN_TIMER_DEFAULT_RELIABLE_TIMEOUT = 2000"

function carry_loop :: "timeval \<Rightarrow> timeval" where
  "carry_loop ts =
     (if 1000000 < tv_usec ts
      then carry_loop \<lparr>tv_sec = tv_sec ts + 1, tv_usec = tv_usec ts - 1000000\<rparr>
      else ts)"
  by pat_completeness auto
termination
  by (relation "measure (\<lambda>ts. nat (tv_usec ts))") auto

declare carry_loop.simps [simp del]

definition set_delay :: "timeval \<Rightarrow> u32 \<Rightarrow> timeval" where
  "set_delay now d =
     carry_loop \<lparr>tv_sec = tv_sec now + uint (d div 1000),
       tv_usec = tv_usec now + uint ((d mod 1000) * 1000)\<rparr>"

definition stun_timer_start :: "timeval \<Rightarrow> u32 \<Rightarrow> u32 \<Rightarrow> StunTimer" where
  "stun_timer_start now initial_timeout max_retrans =
     \<lparr>deadline = set_delay now initial_timeout, delay = initial_timeout,
      retransmissions = 1, max_retransmissions = max_retrans\<rparr>"

definition stun_timer_start_reliable :: "timeval \<Rightarrow> u32 \<Rightarrow> StunTimer" where
  "stun_timer_start_reliable now initial_timeout = stun_timer_start now initial_timeout 0"

text \<open>The quotient by 1000 is the one of C, which rounds towards zero.\<close>

definition stun_timer_remainder :: "timeval \<Rightarrow> StunTimer \<Rightarrow> u32" where
  "stun_timer_remainder now timer =
     (if tv_sec (deadline timer) < tv_sec now then 0
      else let d = (of_int (tv_sec (deadline timer) - tv_sec now) :: u32)
      in if d = 0 \<and> tv_usec (deadline timer) \<le> tv_usec now then 0
      else d * 1000 + of_int (signed_divide (tv_usec (deadline timer) - tv_usec now) 1000))"

definition stun_timer_refresh :: "timeval \<Rightarrow> StunTimer \<Rightarrow> StunUsageTimerReturn \<times> StunTimer" where
  "stun_timer_refresh now timer =
     (if stun_timer_remainder now timer = 0
      then if max_retransmissions timer \<le> retransmissions timer
           then (STUN_USAGE_TIMER_RETURN_TIMEOUT, timer)
           else let d = (if retransmissions timer = max_retransmissions timer - 1
                         then delay timer div 2 else delay timer * 2)
           in (STUN_USAGE_TIMER_RETURN_RETRANSMIT,
               timer\<lparr>delay := d, deadline := set_delay now d,
                     retransmissions := retransmissions timer + 1\<rparr>)
      else (STUN_USAGE_TIMER_RETURN_SUCCESS, timer))"

section \<open>Deadlines and remaining time\<close>

definition usecs :: "timeval \<Rightarrow> int" where
  "usecs ts = tv_sec ts * 1000000 + tv_usec ts"

lemma carry_loop_usecs: "usecs (carry_loop ts) = usecs ts"
  by (induction ts rule: carry_loop.induct) (subst carry_loop.simps, simp add: usecs_def algebra_simps)

lemma carry_loop_range:
  "0 \<le> tv_usec ts \<Longrightarrow> 0 \<le> tv_usec (carry_loop ts) \<and> tv_usec (carry_loop ts) \<le> 1000000"
  by (induction ts rule: carry_loop.induct) (subst (1 2) carry_loop.simps, auto)

lemma uint_div_1000: "uint ((d :: u32) div 1000) = uint d div 1000"
  by (simp add: uint_div)

lemma uint_mod_1000: "uint ((d :: u32) mod 1000 * 1000) = uint d mod 1000 * 1000"
proof -
  have "uint (d mod 1000) = uint d mod 1000" by (simp add: uint_mod)
  moreover have "uint d mod 1000 * 1000 < 2 ^ 32"
    using pos_mod_bound [of 1000 "uint d"] by simp
  ultimately show ?thesis by (simp add: uint_word_ariths)
qed

lemma set_delay_usecs: "usecs (set_delay now d) = usecs now + uint d * 1000"
proof -
  have "uint d div 1000 * 1000000 + uint d mod 1000 * 1000 = uint d * 1000"
    using div_mult_mod_eq [of "uint d" 1000] by linarith
  then show ?thesis
    unfolding set_delay_def carry_loop_usecs uint_div_1000 uint_mod_1000
    by (simp add: usecs_def algebra_simps)
qed

lemma set_delay_range:
  "0 \<le> tv_usec now \<Longrightarrow> 0 \<le> tv_usec (set_delay now d) \<and> tv_usec (set_delay now d) \<le> 1000000"
  unfolding set_delay_def by (rule carry_loop_range) simp

lemma sdiv_1000_bounds:
  "x - 1000 < signed_divide x 1000 * 1000" "signed_divide x 1000 * 1000 < x + (1000 :: int)"
  by (auto simp: signed_divide_int_def sgn_if)

lemma remainder_value:
  assumes "tv_sec now \<le> tv_sec (deadline t)" and "tv_sec (deadline t) - tv_sec now < 4000000"
    and "0 \<le> tv_usec now" and "tv_usec now < 1000000"
    and "0 \<le> tv_usec (deadline t)" and "tv_usec (deadline t) \<le> 1000000"
    and "usecs now < usecs (deadline t)"
  shows "uint (stun_timer_remainder now t) =
    (tv_sec (deadline t) - tv_sec now) * 1000 + signed_divide (tv_usec (deadline t) - tv_usec now) 1000"
proof -
  define sd where "sd = tv_sec (deadline t) - tv_sec now"
  define q where "q = signed_divide (tv_usec (deadline t) - tv_usec now) 1000"
  have sd: "0 \<le> sd" "sd < 4000000" using assms(1,2) by (simp_all add: sd_def)
  then have "uint (of_int sd :: u32) = sd" by (simp add: uint_word_of_int)
  then have d0: "(of_int sd :: u32) = 0 \<longleftrightarrow> sd = 0" by (metis uint_0_iff)
  have fut: "sd * 1000000 + (tv_usec (deadline t) - tv_usec now) > 0"
    using assms(7) by (simp add: usecs_def sd_def algebra_simps)
  have "0 \<le> sd * 1000 + q" "sd * 1000 + q < 2 ^ 32"
    using sdiv_1000_bounds [of "tv_usec (deadline t) - tv_usec now"] fut assms(2-6)
    unfolding q_def [symmetric] sd_def [symmetric] by simp_all
  moreover have "stun_timer_remainder now t = of_int (sd * 1000 + q)"
    using assms(1) d0 fut by (auto simp: stun_timer_remainder_def Let_def sd_def [symmetric] q_def)
  ultimately show ?thesis
    unfolding sd_def [symmetric] q_def [symmetric] by (simp add: uint_word_of_int del: of_int_add of_int_mult)
qed

section \<open>Runs of a timer\<close>

text \<open>The results of refreshing a timer at given readings of the clock, the delays that were
  armed before each of them, and the readings that are all past the deadline of their time.\<close>

fun timer_results :: "StunTimer \<Rightarrow> timeval list \<Rightarrow> StunUsageTimerReturn list" where
  "timer_results t [] = []"
| "timer_results t (c # cs) =
     fst (stun_timer_refresh c t) # timer_results (snd (stun_timer_refresh c t)) cs"

fun timer_delays :: "StunTimer \<Rightarrow> timeval list \<Rightarrow> nat list" where
  "timer_delays t [] = []"
| "timer_delays t (c # cs) = unat (delay t) # timer_delays (snd (stun_timer_refresh c t)) cs"

fun late :: "StunTimer \<Rightarrow> timeval list \<Rightarrow> bool" where
  "late t [] = True"
| "late t (c # cs) = (stun_timer_remainder c t = 0 \<and> late (snd (stun_timer_refresh c t)) cs)"

lemma unat_Suc_below:
  assumes "unat (x :: u32) < unat (y :: u32)"
  shows "unat (x + 1) = unat x + 1"
proof -
  have "Suc (unat x) < 4294967296" using assms unat_u32_less [of y] by linarith
  then show ?thesis by (simp add: unat_word_ariths)
qed

lemma unat_pred_eq:
  assumes "0 < unat (y :: u32)"
  shows "x = y - 1 \<longleftrightarrow> unat x + 1 = unat y"
proof
  assume "x = y - 1"
  moreover have "y \<noteq> 0" using assms by auto
  ultimately show "unat x + 1 = unat y" using assms by (simp add: unat_minus_one)
next
  assume "unat x + 1 = unat y"
  then have "unat (x + 1) = unat y" using unat_Suc_below [of x y] by simp
  then have "x + 1 = y" by (simp only: word_unat_eq_iff)
  then show "x = y - 1" by (simp add: eq_diff_eq)
qed

lemma late_schedule:
  assumes "late t cs" and "unat (retransmissions t) < unat (max_retransmissions t)"
    and "length cs = unat (max_retransmissions t) - unat (retransmissions t) + 1"
    and "unat (delay t) * 2 ^ (unat (max_retransmissions t) - unat (retransmissions t) - 1) < 2 ^ 32"
    and "n = unat (max_retransmissions t) - unat (retransmissions t)"
  shows "timer_results t cs =
      replicate n STUN_USAGE_TIMER_RETURN_RETRANSMIT @ [STUN_USAGE_TIMER_RETURN_TIMEOUT] \<and>
    timer_delays t cs = map (\<lambda>k. unat (delay t) * 2 ^ k) [0..<n] @ [unat (delay t) * 2 ^ (n - 1) div 2]"
  using assms
proof (induction n arbitrary: t cs)
  case (Suc n)
  obtain c cs' where cs: "cs = c # cs'" using Suc.prems(3) by (cases cs) auto
  define d where "d = (if retransmissions t = max_retransmissions t - 1 then delay t div 2 else delay t * 2)"
  define t' where "t' = t\<lparr>delay := d, deadline := set_delay c d, retransmissions := retransmissions t + 1\<rparr>"
  have r: "stun_timer_refresh c t = (STUN_USAGE_TIMER_RETURN_RETRANSMIT, t')"
    using Suc.prems(1,2)
    by (auto simp: cs stun_timer_refresh_def Let_def d_def t'_def word_le_nat_alt)
  have ret: "unat (retransmissions t') = unat (retransmissions t) + 1"
    using unat_Suc_below [OF Suc.prems(2)] by (simp add: t'_def)
  have max: "max_retransmissions t' = max_retransmissions t" by (simp add: t'_def)
  show ?case
  proof (cases "n = 0")
    case True
    then have "length cs' = 1" using Suc.prems(3,5) by (simp add: cs)
    then obtain c' where cs': "cs' = [c']" by (auto simp: length_Suc_conv)
    have last: "unat (retransmissions t) + 1 = unat (max_retransmissions t)"
      using Suc.prems(2,5) True by simp
    then have "d = delay t div 2" using unat_pred_eq Suc.prems(2) by (simp add: d_def)
    then have "unat (delay t') = unat (delay t) div 2" by (simp add: t'_def unat_div)
    moreover have "stun_timer_refresh c' t' = (STUN_USAGE_TIMER_RETURN_TIMEOUT, t')"
    proof -
      have "stun_timer_remainder c' t' = 0" using Suc.prems(1) by (simp add: cs cs' r)
      then show ?thesis using last ret by (simp add: stun_timer_refresh_def max word_le_nat_alt)
    qed
    ultimately show ?thesis using True by (simp add: cs cs' r)
  next
    case False
    then have "unat (retransmissions t) + 1 \<noteq> unat (max_retransmissions t)"
      using Suc.prems(5) by simp
    then have d: "d = delay t * 2" using unat_pred_eq Suc.prems(2) by (simp add: d_def)
    have "unat (delay t) * 2 \<le> unat (delay t) * 2 ^ n"
      using False power_increasing [of 1 n "2 :: nat"] by simp
    moreover have bnd: "unat (delay t) * 2 ^ n < 2 ^ 32" using Suc.prems(4) unfolding Suc.prems(5) [symmetric] by simp
    ultimately have "unat (delay t) * 2 < 2 ^ 32" by linarith
    then have dl: "unat (delay t') = unat (delay t) * 2"
      by (simp add: t'_def d unat_word_ariths)
    have "2 * 2 ^ (n - 1) = (2 ^ n :: nat)" using False by (simp flip: power_Suc)
    then have pw: "unat (delay t) * 2 * 2 ^ (n - 1) = unat (delay t) * 2 ^ n"
      by (simp only: mult.assoc)
    have n: "n = unat (max_retransmissions t') - unat (retransmissions t')"
      using Suc.prems(5) ret max by simp
    have p4: "unat (delay t') * 2 ^ (unat (max_retransmissions t') - unat (retransmissions t') - 1) < 2 ^ 32"
      unfolding n [symmetric] dl pw by (rule bnd)
    have "timer_results t' cs' =
        replicate n STUN_USAGE_TIMER_RETURN_RETRANSMIT @ [STUN_USAGE_TIMER_RETURN_TIMEOUT] \<and>
      timer_delays t' cs' =
        map (\<lambda>k. unat (delay t') * 2 ^ k) [0..<n] @ [unat (delay t') * 2 ^ (n - 1) div 2]"
      using Suc.prems(1,3,5) False ret max by (intro Suc.IH [OF _ _ _ p4 n]) (simp_all add: cs r)
    moreover have "map (\<lambda>k. unat (delay t) * 2 ^ k) [0..<Suc n] =
        unat (delay t) # map (\<lambda>k. unat (delay t) * 2 * 2 ^ k) [0..<n]"
      by (simp add: upt_conv_Cons map_Suc_upt [symmetric] o_def mult.assoc del: upt_Suc)
    ultimately show ?thesis unfolding cs timer_results.simps timer_delays.simps r fst_conv snd_conv dl pw
      by (simp del: upt_Suc)
  qed
qed simp

lemma refresh_cases:
  obtains (keep) "fst (stun_timer_refresh c t) \<noteq> STUN_USAGE_TIMER_RETURN_RETRANSMIT" "snd (stun_timer_refresh c t) = t"
  | (retransmit) "fst (stun_timer_refresh c t) = STUN_USAGE_TIMER_RETURN_RETRANSMIT"
      "unat (retransmissions t) < unat (max_retransmissions t)"
      "unat (retransmissions (snd (stun_timer_refresh c t))) = unat (retransmissions t) + 1"
      "max_retransmissions (snd (stun_timer_refresh c t)) = max_retransmissions t"
  using unat_Suc_below [of "retransmissions t" "max_retransmissions t"]
  by (cases "max_retransmissions t \<le> retransmissions t"; cases "stun_timer_remainder c t = 0")
    (auto simp: stun_timer_refresh_def Let_def word_le_nat_alt)

lemma retransmit_count:
  "count_list (timer_results t cs) STUN_USAGE_TIMER_RETURN_RETRANSMIT \<le>
     unat (max_retransmissions t) - unat (retransmissions t)"
proof (induction cs arbitrary: t)
  case (Cons c cs)
  show ?case
  proof (cases c t rule: refresh_cases)
    case keep
    then show ?thesis using Cons.IH [of t] by simp
  next
    case retransmit
    then show ?thesis using Cons.IH [of "snd (stun_timer_refresh c t)"] by simp
  qed
qed simp

section \<open>Properties\<close>

text \<open>The remaining time is zero once the deadline has passed; before that it is within one
  millisecond of the exact time to the deadline.\<close>

theorem remainder_accuracy:
  fixes limit timeout :: u32
  assumes "0 \<le> tv_usec now" and "tv_usec now < 1000000"
    and "0 \<le> tv_usec start" and "tv_usec start < 1000000"
    and "tv_sec start \<le> tv_sec now" and "unat timeout \<le> 1000000000"
  defines "t \<equiv> stun_timer_start start timeout limit"
  shows "if usecs start + int (unat timeout) * 1000 \<le> usecs now then stun_timer_remainder now t = 0
    else \<bar>int (unat (stun_timer_remainder now t)) * 1000 -
      (usecs start + int (unat timeout) * 1000 - usecs now)\<bar> < 1000"
proof -
  have dl: "usecs (deadline t) = usecs start + int (unat timeout) * 1000"
    by (simp add: t_def stun_timer_start_def set_delay_usecs)
  have rng: "0 \<le> tv_usec (deadline t)" "tv_usec (deadline t) \<le> 1000000"
    using set_delay_range [OF assms(3), of timeout] by (simp_all add: t_def stun_timer_start_def)
  show ?thesis
  proof (cases "usecs start + int (unat timeout) * 1000 \<le> usecs now")
    case True
    then have "tv_sec (deadline t) < tv_sec now \<or>
        tv_sec (deadline t) = tv_sec now \<and> tv_usec (deadline t) \<le> tv_usec now"
      using rng assms(1,2) dl unfolding usecs_def by linarith
    then show ?thesis using True by (auto simp: stun_timer_remainder_def)
  next
    case False
    then have fut: "usecs now < usecs (deadline t)" using dl by simp
    have "usecs (deadline t) \<le> usecs start + 1000000000000" using assms(6) unfolding dl by linarith
    then have sec: "tv_sec now \<le> tv_sec (deadline t)" "tv_sec (deadline t) - tv_sec now < 4000000"
      using fut rng assms(1-5) unfolding usecs_def by linarith+
    show ?thesis
      using False sdiv_1000_bounds [of "tv_usec (deadline t) - tv_usec now"] dl
        remainder_value [OF sec assms(1,2) rng fut]
      by (simp add: usecs_def algebra_simps)
  qed
qed

theorem remainder_accuracy_witness:
  "stun_timer_remainder \<lparr>tv_sec = 11, tv_usec = 0\<rparr> (stun_timer_start \<lparr>tv_sec = 10, tv_usec = 600000\<rparr> 400 3) = 0 \<and>
   \<bar>int (unat (stun_timer_remainder \<lparr>tv_sec = 10, tv_usec = 700500\<rparr>
      (stun_timer_start \<lparr>tv_sec = 10, tv_usec = 600000\<rparr> 500 3))) * 1000 - 399500\<bar> < 1000"
  using remainder_accuracy [of "\<lparr>tv_sec = 11, tv_usec = 0\<rparr>" "\<lparr>tv_sec = 10, tv_usec = 600000\<rparr>" 400 3]
    remainder_accuracy [of "\<lparr>tv_sec = 10, tv_usec = 700500\<rparr>" "\<lparr>tv_sec = 10, tv_usec = 600000\<rparr>" 500 3]
  by (simp add: usecs_def)

text \<open>C19.  A transaction whose timer is started with the limit \<open>m \<ge> 2\<close> and whose answer never comes
  is retransmitted \<open>m - 1\<close> times and then times out; the delays double from the initial timeout
  on, except for the last one, which is half of its predecessor.  They sum up to the total
  timeout stated, \<open>500 * (1 + 2 + 1)\<close> for the defaults.\<close>

theorem timer_schedule:
  assumes "late (stun_timer_start now timeout limit) cs" and "length cs = unat limit" and "2 \<le> unat limit"
    and "unat timeout * 2 ^ (unat limit - 2) < 2 ^ 32"
  defines "m \<equiv> unat limit" and "t \<equiv> stun_timer_start now timeout limit"
  shows "timer_results t cs =
      replicate (m - 1) STUN_USAGE_TIMER_RETURN_RETRANSMIT @ [STUN_USAGE_TIMER_RETURN_TIMEOUT] \<and>
    timer_delays t cs = map (\<lambda>k. unat timeout * 2 ^ k) [0..<m - 1] @ [unat timeout * 2 ^ (m - 2) div 2] \<and>
    sum_list (timer_delays t cs) = unat timeout * (2 ^ (m - 1) - 1) + unat timeout * 2 ^ (m - 2) div 2"
proof -
  have f: "retransmissions t = 1" "max_retransmissions t = limit" "delay t = timeout"
    by (simp_all add: t_def stun_timer_start_def)
  have "timer_results t cs =
      replicate (m - 1) STUN_USAGE_TIMER_RETURN_RETRANSMIT @ [STUN_USAGE_TIMER_RETURN_TIMEOUT] \<and>
    timer_delays t cs = map (\<lambda>k. unat timeout * 2 ^ k) [0..<m - 1] @ [unat timeout * 2 ^ (m - 1 - 1) div 2]"
    using late_schedule [of t cs "m - 1"] assms(1-4) by (simp add: f m_def t_def [symmetric] numeral_2_eq_2)
  moreover have "(\<Sum>k\<leftarrow>[0..<n]. unat timeout * 2 ^ k) = unat timeout * (2 ^ n - 1)" for n
    by (induction n) (simp_all add: algebra_simps)
  ultimately show ?thesis by (simp add: numeral_2_eq_2)
qed

theorem timer_schedule_witness:
  "\<exists>cs. late (stun_timer_start \<lparr>tv_sec = 0, tv_usec = 0\<rparr> STUN_TIMER_DEFAULT_TIMEOUT
        STUN_TIMER_DEFAULT_MAX_RETRANSMISSIONS) cs \<and>
     timer_delays (stun_timer_start \<lparr>tv_sec = 0, tv_usec = 0\<rparr> STUN_TIMER_DEFAULT_TIMEOUT
        STUN_TIMER_DEFAULT_MAX_RETRANSMISSIONS) cs = [500, 1000, 500] \<and>
     sum_list (timer_delays (stun_timer_start \<lparr>tv_sec = 0, tv_usec = 0\<rparr> STUN_TIMER_DEFAULT_TIMEOUT
        STUN_TIMER_DEFAULT_MAX_RETRANSMISSIONS) cs) = 2000"
proof -
  let ?cs = "[\<lparr>tv_sec = 0, tv_usec = 500000\<rparr>, \<lparr>tv_sec = 1, tv_usec = 500000\<rparr>, \<lparr>tv_sec = 2, tv_usec = 0\<rparr>]"
  let ?t = "stun_timer_start \<lparr>tv_sec = 0, tv_usec = 0\<rparr> STUN_TIMER_DEFAULT_TIMEOUT
      STUN_TIMER_DEFAULT_MAX_RETRANSMISSIONS"
  have l: "late ?t ?cs" by code_simp
  have "length ?cs = unat STUN_TIMER_DEFAULT_MAX_RETRANSMISSIONS" "2 \<le> unat STUN_TIMER_DEFAULT_MAX_RETRANSMISSIONS"
    "unat STUN_TIMER_DEFAULT_TIMEOUT * 2 ^ (unat STUN_TIMER_DEFAULT_MAX_RETRANSMISSIONS - 2) < 2 ^ 32"
    by code_simp+
  note s = timer_schedule [OF l this]
  have "map (\<lambda>k. unat STUN_TIMER_DEFAULT_TIMEOUT * 2 ^ k) [0..<unat STUN_TIMER_DEFAULT_MAX_RETRANSMISSIONS - 1] @
      [unat STUN_TIMER_DEFAULT_TIMEOUT * 2 ^ (unat STUN_TIMER_DEFAULT_MAX_RETRANSMISSIONS - 2) div 2] = [500, 1000, 500]"
    by code_simp
  with s have "timer_delays ?t ?cs = [500, 1000, 500]" by (simp only:)
  with l show ?thesis by (intro exI [of _ ?cs]) simp
qed

text \<open>C32.  Whatever the clock shows at each refresh, a timer asks for at most one retransmission
  less than the limit it was started with, and a timer for a reliable transport for none.\<close>

theorem retransmission_bound:
  "count_list (timer_results (stun_timer_start now timeout limit) cs) STUN_USAGE_TIMER_RETURN_RETRANSMIT
     \<le> unat limit - 1 \<and>
   STUN_USAGE_TIMER_RETURN_RETRANSMIT \<notin> set (timer_results (stun_timer_start_reliable now timeout) cs)"
  using retransmit_count [of "stun_timer_start now timeout limit" cs]
    retransmit_count [of "stun_timer_start_reliable now timeout" cs]
  by (simp add: stun_timer_start_def stun_timer_start_reliable_def count_list_0_iff)

end
