(* ===== verification/Stun_Build.thy ===== *)
theory Stun_Build
  imports Stun_Agent_Seal
begin

text \<open>
  The effect of the operations that build a message on its abstract view, for the usages that
  chain them.  \<open>extends m xs m'\<close> says that \<open>m'\<close> is \<open>m\<close> with the attributes \<open>xs\<close> added at the
  end; the lemmas read it off a successful call of an operation, so that a chain of calls is a
  chain of \<open>extends\<close> facts.
\<close>

section \<open>Extending a message\<close>

definition same_frame :: "StunMessage \<Rightarrow> StunMessage \<Rightarrow> bool" where
  "same_frame m m' \<longleftrightarrow>
     agent m' = agent m \<and> buffer_len m' = buffer_len m \<and> length (buffer m') = length (buffer m) \<and>
     take 2 (buffer m') = take 2 (buffer m) \<and>
     take 16 (drop 4 (buffer m')) = take 16 (drop 4 (buffer m))"

definition extends :: "StunMessage \<Rightarrow> (u16 \<times> bytes) list \<Rightarrow> StunMessage \<Rightarrow> bool" where
  "extends m xs m' \<longleftrightarrow>
     same_frame m m' \<and> (\<exists>as. msg_attrs m = Some as \<and> msg_attrs m' = Some (as @ xs))"

text \<open>A message under construction: its attributes are well formed, and its buffer has the
  size it claims, which a 16-bit length can express.\<close>

definition buildable :: "StunMessage \<Rightarrow> bool" where
  "buildable m \<longleftrightarrow> msg_attrs m \<noteq> None \<and> buffer_len m \<le> length (buffer m) \<and> length (buffer m) < 65536"

lemma same_frame_refl [simp]: "same_frame m m"
  by (simp add: same_frame_def)

lemma same_frame_trans: "same_frame a b \<Longrightarrow> same_frame b c \<Longrightarrow> same_frame a c"
  by (auto simp: same_frame_def)

lemma same_frame_of_header: "same_header m m' \<Longrightarrow> same_frame m m'"
  by (simp add: same_header_def same_frame_def)

lemma same_frameD:
  assumes "same_frame m m'"
  shows "ms_turn_swap m' = ms_turn_swap m" and "msg_unaligned m' = msg_unaligned m"
    and "2 \<le> length (buffer m) \<Longrightarrow> stun_message_get_class m' = stun_message_get_class m"
    and "2 \<le> length (buffer m) \<Longrightarrow> stun_message_get_method m' = stun_message_get_method m"
    and "20 \<le> length (buffer m) \<Longrightarrow> stun_message_id m' = stun_message_id m"
    and "20 \<le> length (buffer m) \<Longrightarrow> stun_message_has_cookie m' = stun_message_has_cookie m"
proof -
  have w: "2 \<le> length (buffer m) \<Longrightarrow> stun_getw (buffer m') 0 = stun_getw (buffer m) 0"
    using assms by (simp add: same_frame_def unat_getw)
  show "ms_turn_swap m' = ms_turn_swap m" "msg_unaligned m' = msg_unaligned m"
    using assms by (auto simp: same_frame_def ms_turn_swap_def msg_unaligned_def)
  show "2 \<le> length (buffer m) \<Longrightarrow> stun_message_get_class m' = stun_message_get_class m"
    "2 \<le> length (buffer m) \<Longrightarrow> stun_message_get_method m' = stun_message_get_method m"
    using w by (simp_all add: stun_message_get_class_def stun_message_get_method_def)
  show i: "20 \<le> length (buffer m) \<Longrightarrow> stun_message_id m' = stun_message_id m"
    using assms by (simp add: same_frame_def stun_message_id_def stun_pos_defs rd_bytes_def)
  then show "20 \<le> length (buffer m) \<Longrightarrow> stun_message_has_cookie m' = stun_message_has_cookie m"
    by (simp add: stun_message_has_cookie_def)
qed

lemma extends_refl: "msg_attrs m \<noteq> None \<Longrightarrow> extends m [] m"
  by (auto simp: extends_def)

lemma extends_trans: "extends a xs b \<Longrightarrow> extends b ys c \<Longrightarrow> extends a (xs @ ys) c"
  by (auto simp: extends_def intro: same_frame_trans)

lemma extends_attrs: "extends m xs m' \<Longrightarrow> msg_attrs m = Some as \<Longrightarrow> msg_attrs m' = Some (as @ xs)"
  by (auto simp: extends_def)

lemma extends_frame: "extends m xs m' \<Longrightarrow> same_frame m m'"
  by (simp add: extends_def)

lemma extends_buildable: "extends m xs m' \<Longrightarrow> buildable m \<Longrightarrow> buildable m'"
  by (auto simp: extends_def buildable_def same_frame_def)

lemma buildable_20: "buildable m \<Longrightarrow> 20 \<le> length (buffer m)"
  by (auto simp: buildable_def intro: msg_attrs_length_ge)

section \<open>Appending\<close>

lemma stun_setw_SomeD: "stun_setw b p v = Some (b', p') \<Longrightarrow> p' = p + 2 \<and> length b' = length b"
  by (auto simp: stun_setw_def bind_eq_Some_conv dest!: wr_bytes_length)

lemma append_padding_written:
  assumes "stun_message_append m t len = Some (Ptr p, m1)" and "stun_message_length m = Some n"
    and "\<not> msg_unaligned m" and "0 < stun_padding len"
  shows "unat n + 4 + len + stun_padding len \<le> length (buffer m)"
proof -
  have "unat n + 4 + len \<le> buffer_len m"
    using assms(1,2) by (auto simp: stun_message_append_def Let_def stun_pos_defs split: if_splits)
  with assms obtain b1 a1 c b2 a2 b3 where
    "stun_setw (buffer m) (unat n) (ms_turn_swap m t) = Some (b1, a1)"
    "stun_setw b1 a1 (of_nat (if c then len else stun_align len)) = Some (b2, a2)"
    "memset b2 (a2 + len) 0 (stun_padding len) = Some b3"
    unfolding stun_message_append_def Let_def
    by (clarsimp simp: bind_eq_Some_conv stun_pos_defs)
  then show ?thesis by (auto simp: memset_def wr_bytes_eq_Some dest!: stun_setw_SomeD)
qed

lemma append_room_of_success:
  assumes "buildable m" and "stun_message_append m t len = Some (Ptr p, m1)"
  shows "append_room m len"
proof -
  from assms(1) obtain as where as: "msg_attrs m = Some as"
    and b: "buffer_len m \<le> length (buffer m)" "length (buffer m) < 65536"
    by (auto simp: buildable_def)
  from as obtain n where n: "stun_message_length m = Some n" "20 \<le> unat n" by (rule msg_attrs_SomeE)
  from assms(2) n(1) have fits: "unat n + 4 + len \<le> buffer_len m"
    by (auto simp: stun_message_append_def Let_def stun_pos_defs split: if_splits)
  have "unat n + 4 + stun_align len \<le> length (buffer m)" if "\<not> msg_unaligned m"
    using append_padding_written [OF assms(2) n(1) that] fits b(1)
    by (cases "stun_padding len = 0") (simp_all add: stun_align_padding)
  then show ?thesis using n fits b by (auto simp: append_room_def attr_size_def)
qed

lemma append_write_extends:
  assumes "buildable m" and "stun_message_append m t (length v) = Some (Ptr p, m1)"
    and "wr_bytes (buffer m1) p v = Some b"
  shows "extends m [(ms_turn_swap m t, appended_value m v)] (m1\<lparr>buffer := b\<rparr>)"
proof -
  from assms(1) obtain as where as: "msg_attrs m = Some as" by (auto simp: buildable_def)
  have room: "append_room m (length v)" by (rule append_room_of_success [OF assms(1,2)])
  from as room obtain p' m1' b' where "stun_message_append m t (length v) = Some (Ptr p', m1')"
    "wr_bytes (buffer m1') p' v = Some b'"
    "msg_attrs (m1'\<lparr>buffer := b'\<rparr>) = Some (as @ [(ms_turn_swap m t, appended_value m v)])"
    "same_header m (m1'\<lparr>buffer := b'\<rparr>)" by (rule append_then_write)
  with assms(2,3) as show ?thesis by (auto simp: extends_def intro: same_frame_of_header)
qed

lemma append_succeeds:
  assumes "(stun_message_append m t n \<bind> (\<lambda>(r, m1). case r of
      Null \<Rightarrow> Some (STUN_MESSAGE_RETURN_NOT_ENOUGH_SPACE, m1) | Ptr p \<Rightarrow> F m1 p)) =
    Some (STUN_MESSAGE_RETURN_SUCCESS, m')"
  shows "\<exists>p m1. stun_message_append m t n = Some (Ptr p, m1) \<and> F m1 p = Some (STUN_MESSAGE_RETURN_SUCCESS, m')"
  using assms by (cases "stun_message_append m t n") (auto split: ptr.splits)

lemma append_null: "stun_message_append m t n = Some (Null, m1) \<Longrightarrow> m1 = m"
  by (auto simp: stun_message_append_def Let_def bind_eq_Some_conv split: if_splits)

lemma append_bytes_fails:
  assumes "stun_message_append_bytes m t d n = Some (r, m')" and "r \<noteq> STUN_MESSAGE_RETURN_SUCCESS"
  shows "m' = m \<and> r = STUN_MESSAGE_RETURN_NOT_ENOUGH_SPACE"
  using assms append_null [of m t n]
  by (cases "stun_message_append m t n")
    (auto simp: stun_message_append_bytes_def bind_eq_Some_conv split: ptr.splits if_splits)

lemma append_bytes_take: "n \<le> length d \<Longrightarrow> stun_message_append_bytes m t d n = stun_message_append_bytes m t (take n d) n"
  using append_bytes_prefix [of m t "take n d" "drop n d"] by simp

lemma append_bytes_extends:
  assumes "buildable m" and "stun_message_append_bytes m t d n = Some (STUN_MESSAGE_RETURN_SUCCESS, m')"
  shows "extends m [(ms_turn_swap m t, appended_value m (take n d))] m' \<and> n \<le> length d"
proof -
  from assms(1) obtain as where as: "msg_attrs m = Some as" by (auto simp: buildable_def)
  from append_succeeds [OF assms(2) [unfolded stun_message_append_bytes_def]] obtain p m1
    where a: "stun_message_append m t n = Some (Ptr p, m1)" and "0 < n \<longrightarrow> rd_bytes d 0 n \<noteq> None"
    by (auto simp: bind_eq_Some_conv split: if_splits)
  from this(2) have n: "n \<le> length d" by (cases "n = 0") (auto simp: rd_bytes_def split: if_splits)
  have room: "append_room m n" by (rule append_room_of_success [OF assms(1) a])
  from n obtain m'' where "stun_message_append_bytes m t (take n d) n = Some (STUN_MESSAGE_RETURN_SUCCESS, m'')"
    "msg_attrs m'' = Some (as @ [(ms_turn_swap m t, appended_value m (take n d))])" "same_header m m''"
    using append_bytes_view [OF as, of "take n d" t] room by (auto simp: min_absorb2)
  with assms(2) n as show ?thesis
    by (auto simp: append_bytes_take [OF n] extends_def intro: same_frame_of_header)
qed

lemma append32_extends:
  assumes "buildable m" and "stun_message_append32 m t v = Some (STUN_MESSAGE_RETURN_SUCCESS, m')"
  shows "extends m [(ms_turn_swap m t, be_enc 4 v)] m'"
  using append_bytes_extends [OF assms(1), of t "be_enc 4 v" 4 m'] assms(2)
  by (simp add: stun_message_append32_def appended_value_aligned)

lemma append64_extends:
  assumes "buildable m" and "stun_message_append64 m t v = Some (STUN_MESSAGE_RETURN_SUCCESS, m')"
  shows "extends m [(ms_turn_swap m t, be_enc 8 v)] m'"
  using append_bytes_extends [OF assms(1), of t "be_enc 8 v" 8 m'] assms(2)
  by (simp add: stun_message_append64_def be_enc_split64 appended_value_aligned)

lemma append_flag_extends:
  assumes "buildable m" and "stun_message_append_flag m t = Some (STUN_MESSAGE_RETURN_SUCCESS, m')"
  shows "extends m [(ms_turn_swap m t, [])] m'"
  using append_bytes_extends [OF assms(1), of t "[]" 0 m'] assms(2)
  by (simp add: stun_message_append_flag_def appended_value_aligned)

lemma append_addr_extends:
  assumes "buildable m" and "wf_sockaddr a"
    and "stun_message_append_addr m t a n = Some (STUN_MESSAGE_RETURN_SUCCESS, m')"
  shows "extends m [(ms_turn_swap m t, encode_addr a)] m' \<and> is_inet a \<and> addr_len a \<le> n"
proof -
  from assms(1) obtain as where as: "msg_attrs m = Some as" by (auto simp: buildable_def)
  have inet: "is_inet a" "addr_len a \<le> n"
    using assms(3) by (cases a; auto simp: stun_message_append_addr_def Let_def sizeof_defs split: if_splits)+
  obtain p m1 where "stun_message_append m t (length (encode_addr a)) = Some (Ptr p, m1)"
    using assms(2,3) inet
    by (cases a) (auto simp: stun_message_append_addr_def Let_def length_encode_addr
        split: if_splits dest!: append_succeeds)
  then have "append_room m (length (encode_addr a))" by (rule append_room_of_success [OF assms(1)])
  with as assms(2) inet obtain m'' where "stun_message_append_addr m t a n = Some (STUN_MESSAGE_RETURN_SUCCESS, m'')"
    "msg_attrs m'' = Some (as @ [(ms_turn_swap m t, encode_addr a)])" "same_header m m''"
    using append_addr_view by blast
  with assms(3) as inet show ?thesis by (auto simp: extends_def intro: same_frame_of_header)
qed

lemma append_xor_addr_extends:
  assumes "buildable m" and "wf_sockaddr a" and "n \<le> sizeof_sockaddr_storage"
    and "stun_message_append_xor_addr_full m t a n k = Some (STUN_MESSAGE_RETURN_SUCCESS, m')"
  shows "extends m [(ms_turn_swap m t, encode_addr (mask_addr m k a))] m' \<and> is_inet a \<and> addr_len a \<le> n"
proof -
  have len: "20 \<le> length (buffer m)" by (rule buildable_20 [OF assms(1)])
  from assms(3,4) obtain a' where x: "stun_xor_address m a n k = Some (STUN_MESSAGE_RETURN_SUCCESS, a')"
    and ap: "stun_message_append_addr m t a' n = Some (STUN_MESSAGE_RETURN_SUCCESS, m')"
    by (auto simp: stun_message_append_xor_addr_full_def Let_def bind_eq_Some_conv split: if_splits)
  have inet: "is_inet a"
    using x by (cases a) (auto split: if_splits)
  have same: "stun_xor_address m a n k = stun_xor_address m a (addr_len a) k"
    using x inet by (cases a) (auto split: if_splits)
  have a': "a' = mask_addr m k a" using x same by (simp add: mask_addr_def)
  note shape = mask_addr_shape [OF len assms(2) inet, of k]
  show ?thesis
    using append_addr_extends [OF assms(1) shape(2) ap [unfolded a']] shape inet by simp
qed

lemma software_extends:
  assumes "buildable m" and "maybe_append_software env agt m = Some m'"
  shows "\<exists>xs. extends m xs m' \<and> fst ` set xs \<subseteq> {ms_turn_swap m (stun_attribute_code STUN_ATTRIBUTE_SOFTWARE)}"
proof (cases "adds_software agt")
  case True
  with assms(2) obtain r d n where ap:
    "stun_message_append_bytes m (stun_attribute_code STUN_ATTRIBUTE_SOFTWARE) d n = Some (r, m')"
    by (auto simp: maybe_append_software_def stun_message_append_software_def Let_def bind_eq_Some_conv)
  show ?thesis
  proof (cases "r = STUN_MESSAGE_RETURN_SUCCESS")
    case True
    with append_bytes_extends [OF assms(1)] ap show ?thesis by fastforce
  next
    case False
    with append_bytes_fails [OF ap] have "m' = m" by simp
    then show ?thesis using assms(1) extends_refl [of m] by (auto simp: buildable_def)
  qed
next
  case False
  then show ?thesis using assms extends_refl [of m]
    by (auto simp: maybe_append_software_def buildable_def)
qed

section \<open>Starting and finishing a message\<close>

definition fresh :: "StunAgent \<Rightarrow> StunClass \<Rightarrow> u16 \<Rightarrow> StunMessage \<Rightarrow> bool" where
  "fresh agt c k m \<longleftrightarrow> buildable m \<and> agent m = Ptr (agent_cfg agt) \<and>
     stun_message_get_class m = Some c \<and> stun_message_get_method m = Some k \<and>
     (\<exists>xs. msg_attrs m = Some xs \<and>
        fst ` set xs \<subseteq> {ms_turn_swap m (stun_attribute_code STUN_ATTRIBUTE_SOFTWARE)})"

lemma extends_fresh:
  assumes "extends m xs m'" and "fresh agt c k m"
    and "fst ` set xs \<subseteq> {ms_turn_swap m (stun_attribute_code STUN_ATTRIBUTE_SOFTWARE)}"
  shows "fresh agt c k m'"
proof -
  have b: "buildable m" using assms(2) by (simp add: fresh_def)
  note frame = extends_frame [OF assms(1)]
  have "2 \<le> length (buffer m)" using buildable_20 [OF b] by simp
  note keep = same_frameD(1) [OF frame] same_frameD(3,4) [OF frame this]
  obtain as where as: "msg_attrs m = Some as"
    "fst ` set as \<subseteq> {ms_turn_swap m (stun_attribute_code STUN_ATTRIBUTE_SOFTWARE)}"
    using assms(2) by (auto simp: fresh_def)
  then have "msg_attrs m' = Some (as @ xs)"
    "fst ` set (as @ xs) \<subseteq> {ms_turn_swap m' (stun_attribute_code STUN_ATTRIBUTE_SOFTWARE)}"
    using extends_attrs [OF assms(1)] assms(3) keep by (simp_all add: image_Un)
  then show ?thesis
    using assms(2) extends_buildable [OF assms(1) b] frame keep
    unfolding fresh_def same_frame_def by metis
qed

lemma fresh_of_buffer:
  assumes "buffer m = be_enc 2 (type_field c k) @ [0, 0] @ i @ r" and "length i = 16"
    and "agent m = Ptr (agent_cfg agt)" and "buffer_len m \<le> length (buffer m)" and "length (buffer m) < 65536"
    and "k < 0x1000" and "c \<noteq> STUN_ERROR"
  shows "fresh agt c k m"
  using init_accessors [OF assms(1,2)] assms
  by (auto simp: fresh_def buildable_def msg_attrs_def)

lemma take_drop_append: "take n xs @ drop n xs @ ys = xs @ ys"
  by (metis append.assoc append_take_drop_id)

lemma init_request_fresh:
  assumes "stun_agent_init_request env agt msg buf n k tid = Some (ok, m')"
    and "20 \<le> n" and "n \<le> length buf" and "length buf < 65536" and "length tid = 16" and "k < 0x1000"
  shows "ok \<and> fresh agt STUN_REQUEST k m' \<and> (cookie_compat agt \<longrightarrow> stun_message_has_cookie m' = Some True)"
proof -
  define m0 where "m0 = msg\<lparr>buffer := buf, buffer_len := n, agent := Ptr (agent_cfg agt),
    msg_key := Null, long_term_valid := False\<rparr>"
  define i where "i = (if cookie_compat agt then be_enc 4 STUN_MAGIC_COOKIE @ drop 4 tid else tid)"
  define m1 where "m1 = m0\<lparr>buffer := be_enc 2 (type_field STUN_REQUEST k) @ [0, 0] @ i @ drop 20 buf\<rparr>"
  have i: "length i = 16" using assms(5) by (simp add: i_def)
  have init: "stun_message_init m0 STUN_REQUEST k tid = Some (True,
      m0\<lparr>buffer := be_enc 2 (type_field STUN_REQUEST k) @ [0, 0] @ tid @ drop 20 buf\<rparr>)"
    using stun_message_init_buffer [of m0 tid STUN_REQUEST k] assms by (simp add: m0_def)
  have "wr_bytes (be_enc 2 (type_field STUN_REQUEST k) @ [0, 0] @ tid @ drop 20 buf) 4
      (be_enc 4 STUN_MAGIC_COOKIE) =
    Some (be_enc 2 (type_field STUN_REQUEST k) @ [0, 0] @ be_enc 4 STUN_MAGIC_COOKIE @ drop 4 tid @ drop 20 buf)"
    using wr_bytes_segment [of "be_enc 2 (type_field STUN_REQUEST k) @ [0, 0]" 4 "take 4 tid"
        "be_enc 4 STUN_MAGIC_COOKIE" "drop 4 tid @ drop 20 buf"] assms(5)
    by (simp add: take_drop_append)
  then have "maybe_append_software env agt m1 = Some m'" and ok
    using assms(1)
    by (auto simp: stun_agent_init_request_def init m0_def [symmetric] stun_pos_defs m1_def i_def
        bind_eq_Some_conv Let_def split: if_splits)
  moreover have f: "fresh agt STUN_REQUEST k m1"
    by (rule fresh_of_buffer [of _ _ _ i "drop 20 buf"]) (use assms i in \<open>simp_all add: m1_def m0_def\<close>)
  moreover have "stun_message_has_cookie m1 = Some True" if "cookie_compat agt"
    using that assms(5) by (simp add: m1_def i_def stun_message_has_cookie_def stun_message_id_def stun_pos_defs rd_bytes_def)
  moreover have "buildable m1" "20 \<le> length (buffer m1)" using f buildable_20 by (simp_all add: fresh_def)
  ultimately show ?thesis
    using software_extends [of m1 env agt m'] extends_fresh same_frameD(6) [OF extends_frame] by (auto simp: fresh_def)
qed

lemma init_response_fresh:
  assumes "stun_agent_init_response env agt msg buf n req = Some (True, m')"
    and "stun_message_get_method req = Some k" and "n \<le> length buf" and "length buf < 65536" and "k < 0x1000"
  shows "fresh agt STUN_RESPONSE k m'"
proof -
  define m0 where "m0 = msg\<lparr>buffer := buf, buffer_len := n, agent := Ptr (agent_cfg agt),
    msg_key := msg_key req, long_term_key := long_term_key req, long_term_valid := long_term_valid req\<rparr>"
  from assms(1,2) obtain tid m1 where id: "stun_message_id req = Some tid"
    and m1: "stun_message_init m0 STUN_RESPONSE k tid = Some (True, m1)"
    and sw: "maybe_append_software env agt m1 = Some m'"
    by (auto simp: stun_agent_init_response_def m0_def [symmetric] bind_eq_Some_conv Let_def split: if_splits)
  have t: "length tid = 16" using id by (auto simp: stun_message_id_def stun_pos_defs rd_bytes_def split: if_splits)
  have n: "20 \<le> n" using m1 stun_message_init_short [of m0 STUN_RESPONSE k tid] by (force simp: m0_def)
  then have "m1 = m0\<lparr>buffer := be_enc 2 (type_field STUN_RESPONSE k) @ [0, 0] @ tid @ drop 20 buf\<rparr>"
    using stun_message_init_buffer [of m0 tid STUN_RESPONSE k] m1 t assms(3) by (simp add: m0_def)
  then have "fresh agt STUN_RESPONSE k m1"
    by (intro fresh_of_buffer [of _ _ _ tid "drop 20 buf"]) (use assms t n in \<open>simp_all add: m0_def\<close>)
  then show ?thesis using software_extends [OF _ sw] extends_fresh by (auto simp: fresh_def)
qed

definition seals :: "StunMessage \<Rightarrow> (u16 \<times> bytes) list \<Rightarrow> bool" where
  "seals m xs \<longleftrightarrow> fst ` set xs \<subseteq> {ms_turn_swap m MI, ms_turn_swap m FP}"

lemma view_credentials [simp]:
  "msg_attrs (m\<lparr>long_term_key := x, long_term_valid := y\<rparr>) = msg_attrs m"
  "same_frame (m\<lparr>long_term_key := x, long_term_valid := y\<rparr>) m' = same_frame m m'"
  "same_frame m (m'\<lparr>long_term_key := x, long_term_valid := y\<rparr>) = same_frame m m'"
  "same_frame m (m'\<lparr>msg_key := z\<rparr>) = same_frame m m'"
  "ms_turn_swap (m\<lparr>long_term_key := x, long_term_valid := y\<rparr>) = ms_turn_swap m"
  "stun_message_length (m\<lparr>msg_key := z\<rparr>) = stun_message_length m"
  by (auto simp: msg_attrs_def stun_message_length_def msg_unaligned_def same_frame_def ms_turn_swap_def
      cong: option.case_cong if_cong)

lemma finish_credentials_same:
  assumes "finish_credentials env agt m key = Some (k, m1)"
  shows "m1 = m \<or> (\<exists>x. m1 = m\<lparr>long_term_key := x, long_term_valid := True\<rparr>)"
  using assms unfolding finish_credentials_def
  by ((cases "stun_message_find m (stun_attribute_code STUN_ATTRIBUTE_REALM)";
      cases "stun_message_find m (stun_attribute_code STUN_ATTRIBUTE_USERNAME)"),
    auto simp: bind_eq_Some_conv simp del: stun_attribute_code.simps split: if_splits ptr.splits) blast

lemma finish_sha1_length:
  "wf_env env \<Longrightarrow> finish_sha1 env agt m k = Some sha \<Longrightarrow> length sha = 20"
  by (auto simp: finish_sha1_def stun_sha1_def wf_env_def Let_def bind_eq_Some_conv split: if_splits)

lemma extends_via:
  assumes "extends m1 xs m'" and "same_frame m m1" and "msg_attrs m1 = msg_attrs m"
  shows "extends m xs m'"
  using assms by (auto simp: extends_def intro: same_frame_trans)

lemma finish_integrity_extends:
  assumes env: "wf_env env" and b: "buildable m" and f: "finish_integrity env agt m key = Some (True, m')"
  shows "\<exists>xs. extends m xs m' \<and> seals m xs"
proof (cases key)
  case Null
  then show ?thesis using f b extends_refl [of m] by (auto simp: finish_integrity_def buildable_def seals_def)
next
  case (Ptr key')
  with f obtain k m1 where c: "finish_credentials env agt m key' = Some (k, m1)"
    by (auto simp: finish_integrity_def bind_eq_Some_conv)
  from finish_credentials_same [OF c] have same: "same_frame m m1" "msg_attrs m1 = msg_attrs m"
    "ms_turn_swap m1 = ms_turn_swap m" by auto
  have b1: "buildable m1" using b same by (simp add: buildable_def same_frame_def)
  show ?thesis
  proof (cases k)
    case Null
    with f Ptr c have "m' = m1" by (simp add: finish_integrity_def)
    then show ?thesis using same b by (auto simp: extends_def buildable_def seals_def)
  next
    case (Ptr k')
    with f \<open>key = Ptr key'\<close> c obtain p m2 sha w where
      ap: "stun_message_append m1 (stun_attribute_code STUN_ATTRIBUTE_MESSAGE_INTEGRITY) 20 = Some (Ptr p, m2)"
      and sha: "finish_sha1 env agt m2 k' = Some sha" and w: "wr_bytes (buffer m2) p sha = Some w"
      and m': "m' = m2\<lparr>buffer := w\<rparr>"
      by (cases "stun_message_append m1 (stun_attribute_code STUN_ATTRIBUTE_MESSAGE_INTEGRITY) 20")
        (auto simp: finish_integrity_def bind_eq_Some_conv simp del: stun_attribute_code.simps split: ptr.splits)
    have "extends m1 [(ms_turn_swap m1 MI, appended_value m1 sha)] m'"
      using append_write_extends [OF b1, of _ sha p m2 w] ap w m' finish_sha1_length [OF env sha]
      unfolding MI_def by simp
    then show ?thesis using extends_via [OF _ same(1,2)] same(3) by (fastforce simp: seals_def)
  qed
qed

lemma finish_fingerprint_extends:
  assumes b: "buildable m" and f: "finish_fingerprint agt m = Some (True, m')"
  shows "\<exists>xs. extends m xs m' \<and> seals m xs"
proof (cases "cookie_compat agt \<and> has_usage agt STUN_AGENT_USAGE_USE_FINGERPRINT")
  case True
  with f obtain p m2 n fpr w where
    ap: "stun_message_append m (stun_attribute_code STUN_ATTRIBUTE_FINGERPRINT) 4 = Some (Ptr p, m2)"
    and fpr: "stun_fingerprint (buffer m2) n False = Some fpr" and w: "wr_bytes (buffer m2) p fpr = Some w"
    and m': "m' = m2\<lparr>buffer := w\<rparr>"
    by (cases "stun_message_append m (stun_attribute_code STUN_ATTRIBUTE_FINGERPRINT) 4")
      (auto simp: finish_fingerprint_def bind_eq_Some_conv simp del: stun_attribute_code.simps split: ptr.splits)
  have "extends m [(ms_turn_swap m FP, appended_value m fpr)] m'"
    using append_write_extends [OF b, of _ fpr p m2 w] ap w m' length_stun_fingerprint [OF fpr]
    unfolding FP_def by simp
  then show ?thesis by (fastforce simp: seals_def)
next
  case False
  then show ?thesis using f b extends_refl [of m]
    by (auto simp: finish_fingerprint_def buildable_def seals_def split: if_splits)
qed

lemma finish_message_extends:
  assumes env: "wf_env env" and b: "buildable m"
    and f: "stun_agent_finish_message env agt m key = Some (n, agt', m')" and n: "n \<noteq> 0"
  shows "\<exists>xs. extends m xs m' \<and> seals m xs \<and> stun_message_length m' = Some (of_nat n) \<and> n < 65536"
proof -
  have "\<exists>k m1 m2 z. finish_integrity env agt m k = Some (True, m1) \<and> finish_fingerprint agt m1 = Some (True, m2) \<and>
      stun_message_length m2 = Some (of_nat n) \<and> n < 65536 \<and> m' = m2\<lparr>msg_key := z\<rparr>"
    using f n unfolding stun_agent_finish_message_def Let_def
    by ((cases "stun_message_get_class m"; cases "stun_message_get_method m"),
      auto simp: bind_eq_Some_conv simp del: stun_method_code.simps split: if_splits) blast+
  then obtain k m1 m2 where i: "finish_integrity env agt m k = Some (True, m1)"
    and fp: "finish_fingerprint agt m1 = Some (True, m2)"
    and l: "stun_message_length m2 = Some (of_nat n)" "n < 65536"
    and m': "\<exists>z. m' = m2\<lparr>msg_key := z\<rparr>" by blast
  from finish_integrity_extends [OF env b i] obtain xs where xs: "extends m xs m1" "seals m xs" by auto
  from finish_fingerprint_extends [OF extends_buildable [OF xs(1) b] fp] obtain ys
    where ys: "extends m1 ys m2" "seals m1 ys" by auto
  have "extends m (xs @ ys) m2" by (rule extends_trans [OF xs(1) ys(1)])
  then have "extends m (xs @ ys) m'" using m' by (auto simp: extends_def msg_view_key)
  moreover have "seals m (xs @ ys)"
    using xs(2) ys(2) same_frameD(1) [OF extends_frame [OF xs(1)]] by (auto simp: seals_def)
  moreover have "stun_message_length m' = Some (of_nat n)" using l(1) m' by (auto simp: stun_message_length_def)
  ultimately show ?thesis using l(2) by blast
qed

section \<open>Delivery\<close>

text \<open>The receiver of the first \<open>n\<close> bytes of a finished message sees the same attributes,
  class, method and identifier.\<close>

lemma delivered_view:
  assumes b: "buildable m" and l: "stun_message_length m = Some (of_nat n)" "n < 65536"
    and u: "msg_unaligned (received_msg agt msg x n) = msg_unaligned m"
  defines "r \<equiv> received_msg agt msg (take n (buffer m)) n"
  shows "msg_attrs r = msg_attrs m" and "stun_message_get_class r = stun_message_get_class m"
    and "stun_message_get_method r = stun_message_get_method m" and "stun_message_id r = stun_message_id m"
proof -
  from b obtain as where as: "msg_attrs m = Some as" by (auto simp: buildable_def)
  from as obtain n' where "stun_message_length m = Some n'" "20 \<le> unat n'" "unat n' \<le> length (buffer m)"
    by (rule msg_attrs_SomeE)
  with l have n: "20 \<le> n" "n \<le> length (buffer m)" by auto
  have buf: "buffer r = take n (buffer m)" by (simp add: r_def received_msg_def)
  have g: "stun_getw (buffer r) p = stun_getw (buffer m) p" if "p \<le> 18" for p
    using that n by (simp add: buf unat_getw min_absorb2 take_drop)
  show "stun_message_get_class r = stun_message_get_class m" "stun_message_get_method r = stun_message_get_method m"
    by (simp_all add: stun_message_get_class_def stun_message_get_method_def g)
  show "stun_message_id r = stun_message_id m"
    using n by (simp add: stun_message_id_def stun_pos_defs rd_bytes_def buf take_drop min_absorb1)
  have "stun_message_length r = stun_message_length m"
    by (simp add: stun_message_length_def g stun_pos_defs)
  moreover have "msg_unaligned r = msg_unaligned m" using u by (simp add: r_def msg_unaligned_def received_msg_def)
  ultimately show "msg_attrs r = msg_attrs m"
    using n l by (simp add: msg_attrs_def buf take_drop)
qed

end
