(* ===== verification/Stun_Ice.thy ===== *)
theory Stun_Ice
  imports Stun_Build
begin

text \<open>
  ICE connectivity checks over STUN (\<open>src/libnice/stun/usages/ice.c\<close>): the request, the answer
  with the resolution of role conflicts, and the evaluation of an answer.  The transaction
  identifier drawn by \<open>stun_agent_init_request\<close> is an argument; the request being answered and
  the buffer of the answer are different objects; \<open>malloc\<close> succeeds.  The lemmas follow a check
  from its creation through its delivery to the answer of the peer.
\<close>

section \<open>Data\<close>

datatype StunUsageIceCompatibility =
    STUN_USAGE_ICE_COMPATIBILITY_RFC5245
  | STUN_USAGE_ICE_COMPATIBILITY_GOOGLE
  | STUN_USAGE_ICE_COMPATIBILITY_MSN
  | STUN_USAGE_ICE_COMPATIBILITY_MSICE2

datatype StunUsageIceReturn =
    STUN_USAGE_ICE_RETURN_SUCCESS
  | STUN_USAGE_ICE_RETURN_ERROR
  | STUN_USAGE_ICE_RETURN_INVALID
  | STUN_USAGE_ICE_RETURN_ROLE_CONFLICT
  | STUN_USAGE_ICE_RETURN_INVALID_REQUEST
  | STUN_USAGE_ICE_RETURN_INVALID_METHOD
  | STUN_USAGE_ICE_RETURN_MEMORY_ERROR
  | STUN_USAGE_ICE_RETURN_INVALID_ADDRESS
  | STUN_USAGE_ICE_RETURN_NO_MAPPED_ADDRESS

section \<open>Creating a check\<close>

text \<open>An append followed by the test of its result: on an error the caller returns.\<close>

definition append_or :: "(StunMessageReturn \<times> StunMessage) option \<Rightarrow>
    (StunMessageReturn \<Rightarrow> StunMessage \<Rightarrow> 'a option) \<Rightarrow> (StunMessage \<Rightarrow> 'a option) \<Rightarrow> 'a option" where
  "append_or r fail k = do {
     (val, msg) \<leftarrow> r;
     if val \<noteq> STUN_MESSAGE_RETURN_SUCCESS then fail val msg else k msg
   }"

definition append_if :: "bool \<Rightarrow> (StunMessageReturn \<times> StunMessage) option \<Rightarrow> StunMessage \<Rightarrow>
    (StunMessageReturn \<times> StunMessage) option" where
  "append_if c r msg = (if c then r else Some (STUN_MESSAGE_RETURN_SUCCESS, msg))"

definition ice_roles :: "StunUsageIceCompatibility \<Rightarrow> bool" where
  "ice_roles c \<longleftrightarrow> c = STUN_USAGE_ICE_COMPATIBILITY_RFC5245 \<or> c = STUN_USAGE_ICE_COMPATIBILITY_MSICE2"

definition role_attribute :: "bool \<Rightarrow> u16" where
  "role_attribute controlling = stun_attribute_code
     (if controlling then STUN_ATTRIBUTE_ICE_CONTROLLING else STUN_ATTRIBUTE_ICE_CONTROLLED)"

definition identifier_value :: "bytes \<Rightarrow> bytes option" where
  "identifier_value candidate_identifier = do {
     identifier_len \<leftarrow> strlen candidate_identifier;
     let modulo4 = identifier_len mod 4;
     let attribute_len = (if modulo4 \<noteq> 0 then identifier_len + (4 - modulo4) else identifier_len);
     Some (take identifier_len candidate_identifier @ replicate (attribute_len - identifier_len) 0)
   }"

definition append_identifier :: "bytes ptr \<Rightarrow> StunUsageIceCompatibility \<Rightarrow> StunMessage \<Rightarrow>
    (StunMessageReturn \<times> StunMessage) option" where
  "append_identifier candidate_identifier mode msg =
     (case candidate_identifier of
        Ptr s \<Rightarrow>
          if mode = STUN_USAGE_ICE_COMPATIBILITY_MSICE2 then do {
            buf \<leftarrow> identifier_value s;
            append_or (stun_message_append_bytes msg
                (stun_attribute_code STUN_ATTRIBUTE_CANDIDATE_IDENTIFIER) buf (length buf))
              (\<lambda>val msg. Some (val, msg))
              (\<lambda>msg. stun_message_append32 msg
                (stun_attribute_code STUN_ATTRIBUTE_MS_IMPLEMENTATION_VERSION) 2)
          } else Some (STUN_MESSAGE_RETURN_SUCCESS, msg)
      | Null \<Rightarrow> Some (STUN_MESSAGE_RETURN_SUCCESS, msg))"

definition stun_usage_ice_conncheck_create ::
  "StunEnv \<Rightarrow> StunAgent \<Rightarrow> StunMessage \<Rightarrow> bytes \<Rightarrow> nat \<Rightarrow> bytes \<Rightarrow> bytes ptr \<Rightarrow> bytes ptr \<Rightarrow>
     bool \<Rightarrow> bool \<Rightarrow> u32 \<Rightarrow> u64 \<Rightarrow> bytes ptr \<Rightarrow> StunUsageIceCompatibility \<Rightarrow>
     (nat \<times> StunAgent \<times> StunMessage) option" where
  "stun_usage_ice_conncheck_create env agt msg buf buf_len tid username password
      cand_use controlling priority tie candidate_identifier mode = do {
     (ok, msg) \<leftarrow> stun_agent_init_request env agt msg buf buf_len (stun_method_code STUN_BINDING) tid;
     let fail = (\<lambda>val msg. Some (0, agt, msg));
     append_or (append_if (ice_roles mode \<and> cand_use)
         (stun_message_append_flag msg (stun_attribute_code STUN_ATTRIBUTE_USE_CANDIDATE)) msg) fail (\<lambda>msg.
     append_or (append_if (ice_roles mode)
         (stun_message_append32 msg (stun_attribute_code STUN_ATTRIBUTE_PRIORITY) priority) msg) fail (\<lambda>msg.
     append_or (append_if (ice_roles mode)
         (stun_message_append64 msg (role_attribute controlling) tie) msg) fail (\<lambda>msg.
     append_or (append_if (username \<noteq> Null \<and> deref username \<noteq> [])
         (stun_message_append_bytes msg (stun_attribute_code STUN_ATTRIBUTE_USERNAME)
            (deref username) (length (deref username))) msg) fail (\<lambda>msg.
     append_or (append_identifier candidate_identifier mode msg) fail (\<lambda>msg.
     stun_agent_finish_message env agt msg password)))))
   }"

section \<open>Evaluating an answer\<close>

definition stun_usage_ice_conncheck_process ::
  "StunMessage \<Rightarrow> sockaddr \<Rightarrow> nat \<Rightarrow> StunUsageIceCompatibility \<Rightarrow>
     (StunUsageIceReturn \<times> sockaddr \<times> nat) option" where
  "stun_usage_ice_conncheck_process msg addr addrlen mode = do {
     method \<leftarrow> stun_message_get_method msg;
     if method \<noteq> stun_method_code STUN_BINDING then Some (STUN_USAGE_ICE_RETURN_INVALID, addr, addrlen)
     else do {
       cls \<leftarrow> stun_message_get_class msg;
       (case cls of
          STUN_REQUEST \<Rightarrow> Some (STUN_USAGE_ICE_RETURN_INVALID, addr, addrlen)
        | STUN_INDICATION \<Rightarrow> Some (STUN_USAGE_ICE_RETURN_INVALID, addr, addrlen)
        | STUN_ERROR \<Rightarrow> do {
            (r, code) \<leftarrow> stun_message_find_error msg (Some (- 1));
            if r \<noteq> STUN_MESSAGE_RETURN_SUCCESS then Some (STUN_USAGE_ICE_RETURN_INVALID, addr, addrlen)
            else Some (if code = Some (int (stun_error_code STUN_ERROR_ROLE_CONFLICT))
                       then STUN_USAGE_ICE_RETURN_ROLE_CONFLICT else STUN_USAGE_ICE_RETURN_ERROR, addr, addrlen)
          }
        | STUN_RESPONSE \<Rightarrow> do {
            (val, addr, addrlen) \<leftarrow>
              (if mode = STUN_USAGE_ICE_COMPATIBILITY_MSN then do {
                 transid \<leftarrow> stun_message_id msg;
                 stun_message_find_xor_addr_full msg (stun_attribute_code STUN_ATTRIBUTE_XOR_MAPPED_ADDRESS)
                   addr addrlen (be_dec (take 4 transid))
               } else stun_message_find_xor_addr msg (stun_attribute_code STUN_ATTRIBUTE_XOR_MAPPED_ADDRESS)
                   addr addrlen);
            if val = STUN_MESSAGE_RETURN_SUCCESS then Some (STUN_USAGE_ICE_RETURN_SUCCESS, addr, addrlen)
            else do {
              (val, addr, addrlen) \<leftarrow> stun_message_find_addr msg
                 (stun_attribute_code STUN_ATTRIBUTE_MAPPED_ADDRESS) addr addrlen;
              Some (if val \<noteq> STUN_MESSAGE_RETURN_SUCCESS then STUN_USAGE_ICE_RETURN_NO_MAPPED_ADDRESS
                    else STUN_USAGE_ICE_RETURN_SUCCESS, addr, addrlen)
            }
          })
     }
   }"

section \<open>Answering a check\<close>

definition stun_bind_error ::
  "StunEnv \<Rightarrow> StunAgent \<Rightarrow> StunMessage \<Rightarrow> bytes \<Rightarrow> nat \<Rightarrow> StunMessage \<Rightarrow> StunError \<Rightarrow>
     (bool \<times> nat \<times> StunAgent \<times> StunMessage) option" where
  "stun_bind_error env agt msg buf len req code = do {
     (val, msg) \<leftarrow> stun_agent_init_error env agt msg buf len req code;
     if \<not> val then Some (False, 0, agt, msg)
     else do {
       (len, agt, msg) \<leftarrow> stun_agent_finish_message env agt msg Null;
       Some (len \<noteq> 0, len, agt, msg)
     }
   }"

text \<open>The label \<open>failure\<close>: the result for the error that led there; a jump without an error hits
  the \<open>assert (0)\<close>.\<close>

primrec reply_failure :: "StunMessageReturn \<Rightarrow> StunUsageIceReturn option" where
  "reply_failure STUN_MESSAGE_RETURN_SUCCESS = None"
| "reply_failure STUN_MESSAGE_RETURN_NOT_FOUND = Some STUN_USAGE_ICE_RETURN_ERROR"
| "reply_failure STUN_MESSAGE_RETURN_INVALID = Some STUN_USAGE_ICE_RETURN_INVALID_ADDRESS"
| "reply_failure STUN_MESSAGE_RETURN_NOT_ENOUGH_SPACE = Some STUN_USAGE_ICE_RETURN_MEMORY_ERROR"
| "reply_failure STUN_MESSAGE_RETURN_UNSUPPORTED_ADDRESS = Some STUN_USAGE_ICE_RETURN_INVALID_ADDRESS"

definition append_mapped ::
  "StunMessage \<Rightarrow> sockaddr \<Rightarrow> nat \<Rightarrow> StunUsageIceCompatibility \<Rightarrow> (StunMessageReturn \<times> StunMessage) option" where
  "append_mapped msg src srclen mode =
     (if mode = STUN_USAGE_ICE_COMPATIBILITY_MSN then do {
        transid \<leftarrow> stun_message_id msg;
        stun_message_append_xor_addr_full msg (stun_attribute_code STUN_ATTRIBUTE_XOR_MAPPED_ADDRESS)
          src srclen (be_dec (take 4 transid))
      } else do {
        cookie \<leftarrow> stun_message_has_cookie msg;
        if cookie \<and> mode \<noteq> STUN_USAGE_ICE_COMPATIBILITY_GOOGLE
        then stun_message_append_xor_addr msg (stun_attribute_code STUN_ATTRIBUTE_XOR_MAPPED_ADDRESS) src srclen
        else stun_message_append_addr msg (stun_attribute_code STUN_ATTRIBUTE_MAPPED_ADDRESS) src srclen
      })"

definition append_username :: "StunMessage \<Rightarrow> StunMessage \<Rightarrow> (StunMessageReturn \<times> StunMessage) option" where
  "append_username req msg = do {
     username \<leftarrow> stun_message_find req (stun_attribute_code STUN_ATTRIBUTE_USERNAME);
     (case username of
        Null \<Rightarrow> Some (STUN_MESSAGE_RETURN_SUCCESS, msg)
      | Ptr (p, l) \<Rightarrow> stun_message_append_bytes msg (stun_attribute_code STUN_ATTRIBUTE_USERNAME)
           (drop p (buffer req)) (unat l))
   }"

definition reply_response ::
  "StunEnv \<Rightarrow> StunAgent \<Rightarrow> StunMessage \<Rightarrow> StunMessage \<Rightarrow> bytes \<Rightarrow> nat \<Rightarrow> sockaddr \<Rightarrow> nat \<Rightarrow>
     StunUsageIceCompatibility \<Rightarrow> StunUsageIceReturn \<Rightarrow>
     (StunUsageIceReturn \<times> nat \<times> StunAgent \<times> StunMessage) option" where
  "reply_response env agt req msg buf len src srclen mode ret = do {
     let failure = (\<lambda>val msg. map_option (\<lambda>r. (r, 0, agt, msg)) (reply_failure val));
     (ok, msg) \<leftarrow> stun_agent_init_response env agt msg buf len req;
     if \<not> ok then failure STUN_MESSAGE_RETURN_SUCCESS msg
     else append_or (append_mapped msg src srclen mode) failure (\<lambda>msg.
       append_or (append_username req msg) failure (\<lambda>msg.
       append_or (append_if (mode = STUN_USAGE_ICE_COMPATIBILITY_MSICE2)
           (stun_message_append32 msg (stun_attribute_code STUN_ATTRIBUTE_MS_IMPLEMENTATION_VERSION) 2) msg)
         failure (\<lambda>msg. do {
           (len, agt, msg) \<leftarrow> stun_agent_finish_message env agt msg Null;
           if len = 0 then failure STUN_MESSAGE_RETURN_SUCCESS msg
           else Some (ret, len, agt, msg)
         })))
   }"

text \<open>The result is the return value, the length of the answer, the role, the agent and the
  message of the answer.\<close>

definition stun_usage_ice_conncheck_create_reply ::
  "StunEnv \<Rightarrow> StunAgent \<Rightarrow> StunMessage \<Rightarrow> StunMessage \<Rightarrow> bytes \<Rightarrow> nat \<Rightarrow> sockaddr \<Rightarrow> nat \<Rightarrow> bool \<Rightarrow> u64 \<Rightarrow>
     StunUsageIceCompatibility \<Rightarrow> (StunUsageIceReturn \<times> nat \<times> bool \<times> StunAgent \<times> StunMessage) option" where
  "stun_usage_ice_conncheck_create_reply env agt req msg buf len src srclen control tie mode = do {
     cls \<leftarrow> stun_message_get_class req;
     if cls \<noteq> STUN_REQUEST then Some (STUN_USAGE_ICE_RETURN_INVALID_REQUEST, 0, control, agt, msg)
     else do {
       method \<leftarrow> stun_message_get_method req;
       if method \<noteq> stun_method_code STUN_BINDING then do {
         (ok, len, agt, msg) \<leftarrow> stun_bind_error env agt msg buf len req STUN_ERROR_BAD_REQUEST;
         Some (STUN_USAGE_ICE_RETURN_INVALID_METHOD, len, control, agt, msg)
       } else do {
         (r, q) \<leftarrow> stun_message_find64 req (role_attribute control) None;
         if r = STUN_MESSAGE_RETURN_SUCCESS then do {
           q \<leftarrow> q;
           if (tie < q \<and> control) \<or> (q \<le> tie \<and> \<not> control)
           then map_option (\<lambda>(ret, len, agt, msg). (ret, len, \<not> control, agt, msg))
                  (reply_response env agt req msg buf len src srclen mode STUN_USAGE_ICE_RETURN_ROLE_CONFLICT)
           else do {
             (ok, len, agt, msg) \<leftarrow> stun_bind_error env agt msg buf len req STUN_ERROR_ROLE_CONFLICT;
             Some (STUN_USAGE_ICE_RETURN_ROLE_CONFLICT, len, control, agt, msg)
           }
         } else do {
           (r, q) \<leftarrow> stun_message_find64 req (role_attribute (\<not> control)) q;
           map_option (\<lambda>(ret, len, agt, msg). (ret, len, control, agt, msg))
             (reply_response env agt req msg buf len src srclen mode STUN_USAGE_ICE_RETURN_SUCCESS)
         }
       }
     }
   }"

definition stun_usage_ice_conncheck_priority :: "StunMessage \<Rightarrow> u32 option" where
  "stun_usage_ice_conncheck_priority msg = do {
     (r, v) \<leftarrow> stun_message_find32 msg (stun_attribute_code STUN_ATTRIBUTE_PRIORITY) None;
     if r \<noteq> STUN_MESSAGE_RETURN_SUCCESS then Some 0 else v
   }"

definition stun_usage_ice_conncheck_use_candidate :: "StunMessage \<Rightarrow> bool option" where
  "stun_usage_ice_conncheck_use_candidate msg = do {
     r \<leftarrow> stun_message_find_flag msg (stun_attribute_code STUN_ATTRIBUTE_USE_CANDIDATE);
     Some (r = STUN_MESSAGE_RETURN_SUCCESS)
   }"

end
