(* ===== verification/Stun_Ice_Props.thy ===== *)
theory Stun_Ice_Props
  imports Stun_Ice
begin

text \<open>
  Checks on their way between two peers: what the receiver of a check reads, how two peers with
  the same role end up with different roles, and the address that travels back in the answer.
\<close>

section \<open>The attributes of a check\<close>

lemma swap_id:
  "agent m = Ptr (agent_cfg agt) \<Longrightarrow> compatibility agt \<noteq> STUN_COMPATIBILITY_OC2007 \<Longrightarrow> ms_turn_swap m t = t"
  by (simp add: ms_turn_swap_def)

lemma find_attr_absent: "t \<notin> fst ` set as \<Longrightarrow> find_attr as t = None"
  by (induction as) auto

lemma append_or_sent:
  assumes "append_or r (\<lambda>val msg. Some (0, agt, msg)) k = Some (n, x)" and "n \<noteq> (0 :: nat)"
  obtains m where "r = Some (STUN_MESSAGE_RETURN_SUCCESS, m)" and "k m = Some (n, x)"
  using assms by (cases r) (auto simp: append_or_def split: if_splits)

text \<open>A message under construction of an agent that keeps the attribute types as they are.\<close>

definition plain :: "StunMessage \<Rightarrow> bool" where
  "plain m \<longleftrightarrow> buildable m \<and> (\<forall>t. ms_turn_swap m t = t)"

lemma plain_swap: "plain m \<Longrightarrow> ms_turn_swap m t = t"
  by (simp add: plain_def)

lemma plain_buildable: "plain m \<Longrightarrow> buildable m"
  by (simp add: plain_def)

lemma extends_plain: "extends m xs m' \<Longrightarrow> plain m \<Longrightarrow> plain m'"
  by (simp add: plain_def extends_buildable same_frameD(1) [OF extends_frame])

lemma plain_extends:
  assumes "plain m"
  shows "stun_message_append_flag m t = Some (STUN_MESSAGE_RETURN_SUCCESS, m') \<Longrightarrow> extends m [(t, [])] m'"
    and "stun_message_append32 m t x = Some (STUN_MESSAGE_RETURN_SUCCESS, m') \<Longrightarrow> extends m [(t, be_enc 4 x)] m'"
    and "stun_message_append64 m t y = Some (STUN_MESSAGE_RETURN_SUCCESS, m') \<Longrightarrow> extends m [(t, be_enc 8 y)] m'"
    and "stun_message_append_bytes m t d n = Some (STUN_MESSAGE_RETURN_SUCCESS, m') \<Longrightarrow>
      extends m [(t, appended_value m (take n d))] m'"
  using append_flag_extends [OF plain_buildable [OF assms], of t m']
    append32_extends [OF plain_buildable [OF assms], of t x m']
    append64_extends [OF plain_buildable [OF assms], of t y m']
    append_bytes_extends [OF plain_buildable [OF assms], of t d n m']
  by (simp_all add: plain_swap [OF assms])

lemma append_if_extends:
  assumes "append_if c r m = Some (STUN_MESSAGE_RETURN_SUCCESS, m')" and "plain m"
    and "r = Some (STUN_MESSAGE_RETURN_SUCCESS, m') \<Longrightarrow> extends m [a] m'"
  shows "extends m (if c then [a] else []) m'"
  using assms extends_refl [of m] by (auto simp: append_if_def buildable_def plain_def split: if_splits)

lemma append_identifier_extends:
  assumes b: "buildable m" and ap: "append_identifier i mode m = Some (STUN_MESSAGE_RETURN_SUCCESS, m')"
  shows "\<exists>xs. extends m xs m' \<and> fst ` set xs \<subseteq>
    {ms_turn_swap m (stun_attribute_code STUN_ATTRIBUTE_CANDIDATE_IDENTIFIER),
     ms_turn_swap m (stun_attribute_code STUN_ATTRIBUTE_MS_IMPLEMENTATION_VERSION)}"
proof (cases "i \<noteq> Null \<and> mode = STUN_USAGE_ICE_COMPATIBILITY_MSICE2")
  case False
  then show ?thesis using ap b extends_refl [of m]
    by (auto simp: append_identifier_def buildable_def split: ptr.splits)
next
  case True
  with ap obtain s buf where "append_or (stun_message_append_bytes m
      (stun_attribute_code STUN_ATTRIBUTE_CANDIDATE_IDENTIFIER) buf (length buf)) (\<lambda>val msg. Some (val, msg))
      (\<lambda>msg. stun_message_append32 msg (stun_attribute_code STUN_ATTRIBUTE_MS_IMPLEMENTATION_VERSION) 2) =
    Some (STUN_MESSAGE_RETURN_SUCCESS, m')" and "i = Ptr s"
    by (auto simp: append_identifier_def bind_eq_Some_conv simp del: stun_attribute_code.simps split: ptr.splits)
  then obtain m1 where "stun_message_append_bytes m
      (stun_attribute_code STUN_ATTRIBUTE_CANDIDATE_IDENTIFIER) buf (length buf) = Some (STUN_MESSAGE_RETURN_SUCCESS, m1)"
    and v: "stun_message_append32 m1 (stun_attribute_code STUN_ATTRIBUTE_MS_IMPLEMENTATION_VERSION) 2 =
      Some (STUN_MESSAGE_RETURN_SUCCESS, m')"
    by (auto simp: append_or_def bind_eq_Some_conv simp del: stun_attribute_code.simps split: if_splits)
  from append_bytes_extends [OF b this(1)] have e1: "extends m
      [(ms_turn_swap m (stun_attribute_code STUN_ATTRIBUTE_CANDIDATE_IDENTIFIER), appended_value m buf)] m1"
    by simp
  from append32_extends [OF extends_buildable [OF e1 b] v] have e2: "extends m1
      [(ms_turn_swap m (stun_attribute_code STUN_ATTRIBUTE_MS_IMPLEMENTATION_VERSION), be_enc 4 (2 :: u32))] m'"
    using same_frameD(1) [OF extends_frame [OF e1]] by simp
  show ?thesis using extends_trans [OF e1 e2] by fastforce
qed

definition check_trailer :: "u16 set" where
  "check_trailer = {stun_attribute_code STUN_ATTRIBUTE_USERNAME,
     stun_attribute_code STUN_ATTRIBUTE_CANDIDATE_IDENTIFIER,
     stun_attribute_code STUN_ATTRIBUTE_MS_IMPLEMENTATION_VERSION, MI, FP}"

definition check_attrs :: "bool \<Rightarrow> bool \<Rightarrow> u32 \<Rightarrow> u64 \<Rightarrow> (u16 \<times> bytes) list \<Rightarrow> bool" where
  "check_attrs cand_use controlling priority tie as \<longleftrightarrow> (\<exists>xs ys.
     as = xs @ (if cand_use then [(stun_attribute_code STUN_ATTRIBUTE_USE_CANDIDATE, [])] else []) @
       [(stun_attribute_code STUN_ATTRIBUTE_PRIORITY, be_enc 4 priority), (role_attribute controlling, be_enc 8 tie)] @ ys \<and>
     fst ` set xs \<subseteq> {stun_attribute_code STUN_ATTRIBUTE_SOFTWARE} \<and> fst ` set ys \<subseteq> check_trailer)"

lemma check_lookups:
  assumes "check_attrs cand_use controlling priority tie as"
  shows "find_attr as (role_attribute c) = (if c = controlling then Some (be_enc 8 tie) else None)"
    and "find_attr as (stun_attribute_code STUN_ATTRIBUTE_PRIORITY) = Some (be_enc 4 priority)"
    and "find_attr as (stun_attribute_code STUN_ATTRIBUTE_USE_CANDIDATE) = (if cand_use then Some [] else None)"
proof -
  from assms obtain xs ys where as: "as = xs @
      (if cand_use then [(stun_attribute_code STUN_ATTRIBUTE_USE_CANDIDATE, [])] else []) @
      [(stun_attribute_code STUN_ATTRIBUTE_PRIORITY, be_enc 4 priority), (role_attribute controlling, be_enc 8 tie)] @ ys"
    and xs: "fst ` set xs \<subseteq> {0x8022}" and ys: "fst ` set ys \<subseteq> check_trailer"
    by (auto simp: check_attrs_def)
  have "open_attrs xs" using xs by (auto simp: open_attrs_def)
  then have skip: "find_attr (xs @ bs) t = find_attr bs t" if "t \<noteq> 0x8022" for bs t
    using that xs by (intro find_attr_open) auto
  have none: "find_attr ys t = None" if "t \<notin> check_trailer" for t
    using that ys by (intro find_attr_absent) auto
  show "find_attr as (role_attribute c) = (if c = controlling then Some (be_enc 8 tie) else None)"
    "find_attr as (stun_attribute_code STUN_ATTRIBUTE_PRIORITY) = Some (be_enc 4 priority)"
    "find_attr as (stun_attribute_code STUN_ATTRIBUTE_USE_CANDIDATE) = (if cand_use then Some [] else None)"
    unfolding as by (auto simp: skip none role_attribute_def check_trailer_def MI_def FP_def)
qed

text \<open>A buffer for a message and the transaction identifier drawn for it.\<close>

definition check_buffer :: "bytes \<Rightarrow> nat \<Rightarrow> bytes \<Rightarrow> bool" where
  "check_buffer buf n tid \<longleftrightarrow> 20 \<le> n \<and> n \<le> length buf \<and> length buf < 65536 \<and> length tid = 16"

definition sent :: "StunAgent \<Rightarrow> StunClass \<Rightarrow> u16 \<Rightarrow> nat \<Rightarrow> StunMessage \<Rightarrow> bool" where
  "sent agt c k n m \<longleftrightarrow> buildable m \<and> agent m = Ptr (agent_cfg agt) \<and>
     stun_message_get_class m = Some c \<and> stun_message_get_method m = Some k \<and>
     stun_message_length m = Some (of_nat n) \<and> n < 65536"

lemma sent_of_fresh:
  assumes f: "fresh agt c k m0" and e: "extends m0 xs m" and fin: "stun_agent_finish_message env agt m key = Some (n, agt', m')"
    and n: "n \<noteq> 0" and env: "wf_env env"
  shows "sent agt c k n m'" and "\<exists>ys. msg_attrs m' = Some (the (msg_attrs m0) @ xs @ ys) \<and> seals m0 ys"
    and "stun_message_id m' = stun_message_id m0"
proof -
  have b0: "buildable m0" using f by (simp add: fresh_def)
  have b: "buildable m" by (rule extends_buildable [OF e b0])
  from finish_message_extends [OF env b fin n] obtain ys where
    ys: "extends m ys m'" "seals m ys" and l: "stun_message_length m' = Some (of_nat n)" "n < 65536" by blast
  have e': "extends m0 (xs @ ys) m'" by (rule extends_trans [OF e ys(1)])
  note frame = extends_frame [OF e']
  have "2 \<le> length (buffer m0)" using buildable_20 [OF b0] by simp
  then show "sent agt c k n m'"
    using f l extends_buildable [OF e' b0] frame same_frameD(3,4) [OF frame]
    by (auto simp: sent_def fresh_def same_frame_def)
  show "stun_message_id m' = stun_message_id m0" by (rule same_frameD(5) [OF frame buildable_20 [OF b0]])
  have "seals m0 ys" using ys(2) same_frameD(1) [OF extends_frame [OF e]] by (simp add: seals_def)
  moreover obtain as where "msg_attrs m0 = Some as" using b0 by (auto simp: buildable_def)
  ultimately show "\<exists>ys. msg_attrs m' = Some (the (msg_attrs m0) @ xs @ ys) \<and> seals m0 ys"
    using extends_attrs [OF e'] by auto
qed

lemma conncheck_create_sent:
  assumes env: "wf_env env" and oc: "compatibility agt \<noteq> STUN_COMPATIBILITY_OC2007" and mode: "ice_roles mode"
    and buf: "check_buffer buf len tid"
    and cr: "stun_usage_ice_conncheck_create env agt msg buf len tid username password
        cand_use controlling priority tie ident mode = Some (n, agt', m')" and n: "n \<noteq> 0"
  shows "sent agt STUN_REQUEST 1 n m'" and "\<exists>as. msg_attrs m' = Some as \<and> check_attrs cand_use controlling priority tie as"
proof -
  from cr obtain ok m0 where init: "stun_agent_init_request env agt msg buf len 1 tid = Some (ok, m0)"
    by (auto simp: stun_usage_ice_conncheck_create_def bind_eq_Some_conv)
  with buf have f: "fresh agt STUN_REQUEST 1 m0" by (auto simp: check_buffer_def dest: init_request_fresh)
  then have b0: "buildable m0" and ag: "agent m0 = Ptr (agent_cfg agt)" by (simp_all add: fresh_def)
  note chain = cr [unfolded stun_usage_ice_conncheck_create_def Let_def stun_method_code.simps init bind.bind_lunit prod.case]
  obtain m1 m2 m3 m4 m5 where
    m1: "append_if (ice_roles mode \<and> cand_use)
      (stun_message_append_flag m0 (stun_attribute_code STUN_ATTRIBUTE_USE_CANDIDATE)) m0 = Some (STUN_MESSAGE_RETURN_SUCCESS, m1)"
    and m2: "append_if (ice_roles mode)
      (stun_message_append32 m1 (stun_attribute_code STUN_ATTRIBUTE_PRIORITY) priority) m1 = Some (STUN_MESSAGE_RETURN_SUCCESS, m2)"
    and m3: "append_if (ice_roles mode)
      (stun_message_append64 m2 (role_attribute controlling) tie) m2 = Some (STUN_MESSAGE_RETURN_SUCCESS, m3)"
    and m4: "append_if (username \<noteq> Null \<and> deref username \<noteq> [])
      (stun_message_append_bytes m3 (stun_attribute_code STUN_ATTRIBUTE_USERNAME)
         (deref username) (length (deref username))) m3 = Some (STUN_MESSAGE_RETURN_SUCCESS, m4)"
    and m5: "append_identifier ident mode m4 = Some (STUN_MESSAGE_RETURN_SUCCESS, m5)"
    and fin: "stun_agent_finish_message env agt m5 password = Some (n, agt', m')"
    using chain n by (elim append_or_sent)
  have p0: "plain m0" using b0 swap_id [OF ag oc] by (simp add: plain_def)
  have e1: "extends m0 (if cand_use then [(stun_attribute_code STUN_ATTRIBUTE_USE_CANDIDATE, [])] else []) m1"
    using append_if_extends [OF m1 p0, OF plain_extends(1) [OF p0]] mode by simp
  note p1 = extends_plain [OF e1 p0]
  have e2: "extends m1 [(stun_attribute_code STUN_ATTRIBUTE_PRIORITY, be_enc 4 priority)] m2"
    using append_if_extends [OF m2 p1, OF plain_extends(2) [OF p1]] mode by simp
  note p2 = extends_plain [OF e2 p1]
  have e3: "extends m2 [(role_attribute controlling, be_enc 8 tie)] m3"
    using append_if_extends [OF m3 p2, OF plain_extends(3) [OF p2]] mode by simp
  note p3 = extends_plain [OF e3 p2]
  define us where "us = (if username \<noteq> Null \<and> deref username \<noteq> []
    then [(stun_attribute_code STUN_ATTRIBUTE_USERNAME, appended_value m3 (deref username))] else [])"
  have e4: "extends m3 us m4" unfolding us_def
    by (rule append_if_extends [OF m4 p3]) (use plain_extends(4) [OF p3] in force)
  have us: "fst ` set us \<subseteq> {stun_attribute_code STUN_ATTRIBUTE_USERNAME}" by (auto simp: us_def)
  note p4 = extends_plain [OF e4 p3]
  obtain zs where e5: "extends m4 zs m5" and zs: "fst ` set zs \<subseteq> check_trailer"
    using append_identifier_extends [OF plain_buildable [OF p4] m5]
    unfolding check_trailer_def plain_swap [OF p4] by blast
  note e = extends_trans [OF e1 extends_trans [OF e2 extends_trans [OF e3 extends_trans [OF e4 e5]]]]
  show "sent agt STUN_REQUEST 1 n m'" by (rule sent_of_fresh(1) [OF f e fin n env])
  obtain ys where as: "msg_attrs m' = Some (the (msg_attrs m0) @ ((if cand_use then
      [(stun_attribute_code STUN_ATTRIBUTE_USE_CANDIDATE, [])] else []) @
      [(stun_attribute_code STUN_ATTRIBUTE_PRIORITY, be_enc 4 priority)] @
      [(role_attribute controlling, be_enc 8 tie)] @ us @ zs) @ ys)" and ys: "seals m0 ys"
    using sent_of_fresh(2) [OF f e fin n env] by blast
  have "fst ` set (the (msg_attrs m0)) \<subseteq> {stun_attribute_code STUN_ATTRIBUTE_SOFTWARE}"
    using f unfolding fresh_def plain_swap [OF p0] by (elim conjE exE) simp
  moreover have "fst ` set (us @ zs @ ys) \<subseteq> check_trailer"
    using us zs ys unfolding seals_def plain_swap [OF p0] by (auto simp: check_trailer_def)
  ultimately show "\<exists>as. msg_attrs m' = Some as \<and> check_attrs cand_use controlling priority tie as"
    unfolding as check_attrs_def by (intro exI conjI) (auto simp only: append_assoc append.simps)
qed

section \<open>Delivery and roles\<close>

text \<open>The receiver uses the alignment of the sender; neither swaps attribute types.\<close>

definition peers :: "StunAgent \<Rightarrow> StunAgent \<Rightarrow> bool" where
  "peers a b \<longleftrightarrow> compatibility a \<noteq> STUN_COMPATIBILITY_OC2007 \<and> compatibility b \<noteq> STUN_COMPATIBILITY_OC2007 \<and>
     has_usage a STUN_AGENT_USAGE_NO_ALIGNED_ATTRIBUTES = has_usage b STUN_AGENT_USAGE_NO_ALIGNED_ATTRIBUTES"

lemma received_swap: "peers a b \<Longrightarrow> ms_turn_swap (received_msg b msg x n) t = t"
  by (rule swap_id [of _ b]) (simp_all add: peers_def received_msg_def)

lemma sent_received:
  fixes msg
  assumes "sent a c k n m" and "peers a b"
  defines "r \<equiv> received_msg b msg (take n (buffer m)) n"
  shows "msg_attrs r = msg_attrs m" and "stun_message_get_class r = Some c"
    and "stun_message_get_method r = Some k" and "stun_message_id r = stun_message_id m"
proof -
  have "msg_unaligned (received_msg b msg x n) = msg_unaligned m" for x
    using assms(1,2) by (simp add: msg_unaligned_def received_msg_def sent_def peers_def)
  then show "msg_attrs r = msg_attrs m" "stun_message_get_class r = Some c"
    "stun_message_get_method r = Some k" "stun_message_id r = stun_message_id m"
    using delivered_view [of m n b msg] assms(1) unfolding r_def sent_def by simp_all
qed

text \<open>A role conflict leaves the side with the greater tie-breaker in control.\<close>

lemma reply_role:
  assumes "stun_message_get_class req = Some STUN_REQUEST" and "stun_message_get_method req = Some 1"
    and "stun_message_find64 req (role_attribute control) None = Some (STUN_MESSAGE_RETURN_SUCCESS, Some q)"
    and "stun_usage_ice_conncheck_create_reply env agt req msg buf len src srclen control tie mode =
      Some (ret, l, control', agt', m')"
  shows "control' \<longleftrightarrow> q \<le> tie"
  using assms
  by (cases "tie < q \<and> control \<or> q \<le> tie \<and> \<not> control")
    (auto simp: stun_usage_ice_conncheck_create_reply_def bind_eq_Some_conv split: if_splits)

lemma conncheck_received_role:
  fixes msg'
  assumes env: "wf_env env" and ab: "peers a b" and mode: "ice_roles mode" and buf: "check_buffer buf len tid"
    and cr: "stun_usage_ice_conncheck_create env a msg buf len tid username password
        cand_use controlling priority tie ident mode = Some (n, a', m')" and n: "n \<noteq> 0"
  defines "r \<equiv> received_msg b msg' (take n (buffer m')) n"
  shows "stun_message_get_class r = Some STUN_REQUEST" and "stun_message_get_method r = Some 1"
    and "stun_message_find64 r (role_attribute controlling) None = Some (STUN_MESSAGE_RETURN_SUCCESS, Some tie)"
    and "stun_usage_ice_conncheck_priority r = Some priority"
    and "stun_usage_ice_conncheck_use_candidate r = Some cand_use"
proof -
  have oc: "compatibility a \<noteq> STUN_COMPATIBILITY_OC2007" using ab by (simp add: peers_def)
  note s = conncheck_create_sent [OF env oc mode buf cr n]
  note view = sent_received [OF s(1) ab, of msg', folded r_def]
  show "stun_message_get_class r = Some STUN_REQUEST" "stun_message_get_method r = Some 1"
    using view by simp_all
  from s(2) view(1) obtain as where as: "msg_attrs r = Some as" and c: "check_attrs cand_use controlling priority tie as"
    by auto
  have swap: "ms_turn_swap r t = t" for t using received_swap [OF ab] by (simp add: r_def)
  show "stun_message_find64 r (role_attribute controlling) None = Some (STUN_MESSAGE_RETURN_SUCCESS, Some tie)"
    "stun_usage_ice_conncheck_priority r = Some priority"
    "stun_usage_ice_conncheck_use_candidate r = Some cand_use"
    unfolding stun_usage_ice_conncheck_priority_def stun_usage_ice_conncheck_use_candidate_def
    by (simp_all only: find_specs [OF as] swap check_lookups [OF c])
      (simp_all add: be_dec_enc)
qed

section \<open>The address in the answer\<close>

lemma xor_addr_delivered:
  assumes as: "msg_attrs r = Some as" and v: "find_attr as (ms_turn_swap r t) = Some (encode_addr (mask_addr m k a))"
    and wf: "wf_sockaddr a" "is_inet a" "addr_len a \<le> n"
    and len: "20 \<le> length (buffer m)" and id: "stun_message_id r = stun_message_id m"
  shows "stun_message_find_xor_addr_full r t old n k = Some (STUN_MESSAGE_RETURN_SUCCESS, a, addr_len a)"
proof -
  note s = mask_addr_shape [OF len wf(1,2), of k]
  have r: "20 \<le> length (buffer r)" by (rule msg_attrs_length_ge [OF as])
  have "take 16 (drop 4 (buffer r)) = take 16 (drop 4 (buffer m))"
    using id len r by (simp add: stun_message_id_def stun_pos_defs rd_bytes_def)
  then have "stun_xor_address r (mask_addr m k a) (addr_len a) k = Some (STUN_MESSAGE_RETURN_SUCCESS, a)"
    using stun_xor_address_twice [OF s(1) wf(1)] r by simp
  moreover have "stun_message_find_addr r t old n = Some (STUN_MESSAGE_RETURN_SUCCESS, mask_addr m k a, addr_len a)"
    using find_addr_reads [OF as s(2,3)] v s(4) wf(3) by simp
  ultimately show ?thesis by (simp add: stun_message_find_xor_addr_full_def)
qed

definition XMA :: u16 where "XMA = stun_attribute_code STUN_ATTRIBUTE_XOR_MAPPED_ADDRESS"
definition MA :: u16 where "MA = stun_attribute_code STUN_ATTRIBUTE_MAPPED_ADDRESS"

definition mask_key :: "StunUsageIceCompatibility \<Rightarrow> StunMessage \<Rightarrow> u32" where
  "mask_key mode m = (if mode = STUN_USAGE_ICE_COMPATIBILITY_MSN
     then be_dec (take 4 (the (stun_message_id m))) else STUN_MAGIC_COOKIE)"

lemma append_mapped_extends:
  assumes p: "plain m" and wf: "wf_sockaddr a" and n: "n \<le> sizeof_sockaddr_storage"
    and ap: "append_mapped m a n mode = Some (STUN_MESSAGE_RETURN_SUCCESS, m')"
  shows "(extends m [(XMA, encode_addr (mask_addr m (mask_key mode m) a))] m' \<or>
      mode \<noteq> STUN_USAGE_ICE_COMPATIBILITY_MSN \<and> extends m [(MA, encode_addr a)] m') \<and>
    is_inet a \<and> addr_len a \<le> n"
  using ap append_xor_addr_extends [OF plain_buildable [OF p] wf n, of XMA]
    append_addr_extends [OF plain_buildable [OF p] wf, of MA n m']
  unfolding append_mapped_def XMA_def [symmetric] MA_def [symmetric] xor_addr_magic plain_swap [OF p] mask_key_def
  by (auto simp: bind_eq_Some_conv split: if_splits)

lemma process_reads:
  assumes as: "msg_attrs r = Some (xs @ [(t, v)] @ ys)" and swap: "\<And>t. ms_turn_swap r t = t"
    and xs: "fst ` set xs \<subseteq> {stun_attribute_code STUN_ATTRIBUTE_SOFTWARE}" and ys: "XMA \<notin> fst ` set ys"
    and hd: "stun_message_get_class r = Some STUN_RESPONSE" "stun_message_get_method r = Some 1"
    and id: "stun_message_id r = stun_message_id m" and len: "20 \<le> length (buffer m)"
    and wf: "wf_sockaddr a" "is_inet a" "addr_len a \<le> n"
    and tv: "(t, v) = (XMA, encode_addr (mask_addr m (mask_key mode m) a)) \<or>
      mode \<noteq> STUN_USAGE_ICE_COMPATIBILITY_MSN \<and> (t, v) = (MA, encode_addr a)"
  shows "stun_usage_ice_conncheck_process r old n mode = Some (STUN_USAGE_ICE_RETURN_SUCCESS, a, addr_len a)"
proof -
  have "open_attrs xs" using xs by (auto simp: open_attrs_def)
  then have skip: "find_attr (xs @ bs) u = find_attr bs u" if "u = XMA \<or> u = MA" for bs u
    using that xs by (intro find_attr_open) (auto simp: XMA_def MA_def)
  obtain i where i: "stun_message_id m = Some i" using len by (simp add: stun_message_id_def stun_pos_defs rd_bytes_def)
  have xor: "(if mode = STUN_USAGE_ICE_COMPATIBILITY_MSN then do {
        transid \<leftarrow> stun_message_id r; stun_message_find_xor_addr_full r XMA old n (be_dec (take 4 transid)) }
      else stun_message_find_xor_addr r XMA old n) = stun_message_find_xor_addr_full r XMA old n (mask_key mode m)"
    using id i by (simp add: mask_key_def xor_addr_magic)
  show ?thesis
  proof (cases "t = XMA")
    case True
    with tv have "find_attr (xs @ [(t, v)] @ ys) (ms_turn_swap r XMA) = Some (encode_addr (mask_addr m (mask_key mode m) a))"
      by (auto simp: skip swap XMA_def MA_def)
    from xor_addr_delivered [OF as this wf len id] show ?thesis
      using hd by (simp add: stun_usage_ice_conncheck_process_def XMA_def [symmetric, simplified] xor [unfolded XMA_def, simplified])
  next
    case False
    with tv have t: "t = MA" "v = encode_addr a" "mode \<noteq> STUN_USAGE_ICE_COMPATIBILITY_MSN" by auto
    have "find_attr (xs @ [(t, v)] @ ys) XMA = None"
      using t ys by (auto simp: skip find_attr_absent MA_def XMA_def)
    then have "stun_message_find_xor_addr r XMA old n = Some (STUN_MESSAGE_RETURN_NOT_FOUND, old, n)"
      by (simp add: stun_message_find_xor_addr_def stun_message_find_addr_spec [OF as] swap)
    moreover have "stun_message_find_addr r MA old n = Some (STUN_MESSAGE_RETURN_SUCCESS, a, addr_len a)"
      using find_addr_reads [OF as wf(1,2,3)] t by (simp add: skip swap)
    ultimately show ?thesis
      using hd t by (simp add: stun_usage_ice_conncheck_process_def XMA_def MA_def)
  qed
qed

lemma append_or_reply:
  assumes "append_or r (\<lambda>val msg. map_option (\<lambda>x. (x, 0, agt, msg)) (reply_failure val)) k = Some (x, n, y)"
    and "n \<noteq> (0 :: nat)"
  obtains m where "r = Some (STUN_MESSAGE_RETURN_SUCCESS, m)" and "k m = Some (x, n, y)"
  using assms by (cases r) (auto simp: append_or_def split: if_splits)

lemma append_username_extends:
  assumes "plain m" and "append_username req m = Some (STUN_MESSAGE_RETURN_SUCCESS, m')"
  shows "\<exists>us. extends m us m' \<and> fst ` set us \<subseteq> {stun_attribute_code STUN_ATTRIBUTE_USERNAME}"
proof -
  from assms(2) obtain u where "stun_message_find req (stun_attribute_code STUN_ATTRIBUTE_USERNAME) = Some u"
    by (auto simp: append_username_def bind_eq_Some_conv)
  with assms(2) have "m' = m \<or> (\<exists>d l. stun_message_append_bytes m (stun_attribute_code STUN_ATTRIBUTE_USERNAME) d l =
      Some (STUN_MESSAGE_RETURN_SUCCESS, m'))"
    by (auto simp: append_username_def split: ptr.splits)
  then show ?thesis
    using plain_extends(4) [OF assms(1)] extends_refl [of m] assms(1)
    by (fastforce simp: plain_def buildable_def)
qed

lemma reply_response_sent:
  assumes env: "wf_env env" and oc: "compatibility agt \<noteq> STUN_COMPATIBILITY_OC2007"
    and buf: "len \<le> length buf" "length buf < 65536" and req: "stun_message_get_method req = Some 1"
    and wf: "wf_sockaddr src" "srclen \<le> sizeof_sockaddr_storage"
    and re: "reply_response env agt req msg buf len src srclen mode ret = Some (ret', n, agt', m')" and n: "n \<noteq> 0"
  shows "\<exists>m xs t v ys. sent agt STUN_RESPONSE 1 n m' \<and> msg_attrs m' = Some (xs @ [(t, v)] @ ys) \<and>
    fst ` set xs \<subseteq> {stun_attribute_code STUN_ATTRIBUTE_SOFTWARE} \<and> XMA \<notin> fst ` set ys \<and>
    20 \<le> length (buffer m) \<and> stun_message_id m' = stun_message_id m \<and> is_inet src \<and> addr_len src \<le> srclen \<and>
    ((t, v) = (XMA, encode_addr (mask_addr m (mask_key mode m) src)) \<or>
      mode \<noteq> STUN_USAGE_ICE_COMPATIBILITY_MSN \<and> (t, v) = (MA, encode_addr src))"
proof -
  from re n obtain m0 where init: "stun_agent_init_response env agt msg buf len req = Some (True, m0)"
    by (auto simp: reply_response_def Let_def bind_eq_Some_conv split: if_splits)
  have f: "fresh agt STUN_RESPONSE 1 m0" by (rule init_response_fresh [OF init req buf]) simp
  then have b0: "buildable m0" and ag: "agent m0 = Ptr (agent_cfg agt)" by (simp_all add: fresh_def)
  have p0: "plain m0" using b0 swap_id [OF ag oc] by (simp add: plain_def)
  note chain = re [unfolded reply_response_def Let_def init bind.bind_lunit prod.case not_True_eq_False if_False]
  obtain m1 m2 m3 where m1: "append_mapped m0 src srclen mode = Some (STUN_MESSAGE_RETURN_SUCCESS, m1)"
    and m2: "append_username req m1 = Some (STUN_MESSAGE_RETURN_SUCCESS, m2)"
    and m3: "append_if (mode = STUN_USAGE_ICE_COMPATIBILITY_MSICE2) (stun_message_append32 m2
      (stun_attribute_code STUN_ATTRIBUTE_MS_IMPLEMENTATION_VERSION) 2) m2 = Some (STUN_MESSAGE_RETURN_SUCCESS, m3)"
    and m4: "(stun_agent_finish_message env agt m3 Null \<bind> (\<lambda>(len, agt', msg).
      if len = 0 then map_option (\<lambda>r. (r, 0, agt, msg)) (reply_failure STUN_MESSAGE_RETURN_SUCCESS)
      else Some (ret, len, agt', msg))) = Some (ret', n, agt', m')"
    using chain n by (elim append_or_reply) 
  have fin: "stun_agent_finish_message env agt m3 Null = Some (n, agt', m')"
    using m4 by (auto simp: bind_eq_Some_conv split: if_splits)
  obtain t v where e1: "extends m0 [(t, v)] m1" and a: "is_inet src" "addr_len src \<le> srclen"
    and tv: "(t, v) = (XMA, encode_addr (mask_addr m0 (mask_key mode m0) src)) \<or>
      mode \<noteq> STUN_USAGE_ICE_COMPATIBILITY_MSN \<and> (t, v) = (MA, encode_addr src)"
    using append_mapped_extends [OF p0 wf m1] by auto
  note p1 = extends_plain [OF e1 p0]
  obtain us where e2: "extends m1 us m2" and us: "fst ` set us \<subseteq> {stun_attribute_code STUN_ATTRIBUTE_USERNAME}"
    using append_username_extends [OF p1 m2] by auto
  note p2 = extends_plain [OF e2 p1]
  note e3 = append_if_extends [OF m3 p2, OF plain_extends(2) [OF p2]]
  note e = extends_trans [OF e1 extends_trans [OF e2 e3]]
  obtain ys where as: "msg_attrs m' = Some (the (msg_attrs m0) @ ([(t, v)] @ us @ (if mode = STUN_USAGE_ICE_COMPATIBILITY_MSICE2
      then [(stun_attribute_code STUN_ATTRIBUTE_MS_IMPLEMENTATION_VERSION, be_enc 4 (2 :: u32))] else [])) @ ys)"
    and ys: "seals m0 ys" using sent_of_fresh(2) [OF f e fin n env] by blast
  define zs where "zs = us @ (if mode = STUN_USAGE_ICE_COMPATIBILITY_MSICE2
      then [(stun_attribute_code STUN_ATTRIBUTE_MS_IMPLEMENTATION_VERSION, be_enc 4 (2 :: u32))] else []) @ ys"
  have "msg_attrs m' = Some (the (msg_attrs m0) @ [(t, v)] @ zs)" by (simp add: as zs_def)
  moreover have "fst ` set (the (msg_attrs m0)) \<subseteq> {stun_attribute_code STUN_ATTRIBUTE_SOFTWARE}"
    using f unfolding fresh_def plain_swap [OF p0] by (elim conjE exE) simp
  moreover have "fst ` set zs \<subseteq> check_trailer"
    using us ys unfolding zs_def seals_def plain_swap [OF p0] by (auto simp: check_trailer_def)
  then have "XMA \<notin> fst ` set zs" by (auto simp: check_trailer_def XMA_def MI_def FP_def)
  ultimately show ?thesis
    using sent_of_fresh(1,3) [OF f e fin n env] buildable_20 [OF b0] a tv by blast
qed

lemma reply_success:
  assumes "stun_usage_ice_conncheck_create_reply env agt req msg buf len src srclen control tie mode =
      Some (ret, n, control', agt', m')"
    and "ret = STUN_USAGE_ICE_RETURN_SUCCESS \<or> control' \<noteq> control"
  shows "stun_message_get_method req = Some 1 \<and>
    (\<exists>ret0. reply_response env agt req msg buf len src srclen mode ret0 = Some (ret, n, agt', m'))"
  using assms by (auto simp: stun_usage_ice_conncheck_create_reply_def bind_eq_Some_conv split: if_splits)

section \<open>Properties\<close>


definition example_check :: "bool \<Rightarrow> u64 \<Rightarrow> (nat \<times> StunAgent \<times> StunMessage) option" where
  "example_check role tie = stun_usage_ice_conncheck_create example_env example_agent_3489 example_msg
     (replicate 44 0) 44 (replicate 16 7) Null Null True role 5 tie Null
     STUN_USAGE_ICE_COMPATIBILITY_RFC5245"

definition example_answer ::
  "bytes \<Rightarrow> nat \<Rightarrow> bool \<Rightarrow> u64 \<Rightarrow> (StunUsageIceReturn \<times> nat \<times> bool \<times> StunAgent \<times> StunMessage) option" where
  "example_answer b n role tie = stun_usage_ice_conncheck_create_reply example_env example_agent_3489
     (received_msg example_agent_3489 example_msg b n) example_msg (replicate 44 0) 44
     (Sock_in [1, 2] [10, 0, 0, 1]) 16 role tie STUN_USAGE_ICE_COMPATIBILITY_RFC5245"

definition example_check_bytes :: "u8 \<Rightarrow> bytes" where
  "example_check_bytes tie = [0, 1, 0, 24] @ replicate 16 7 @ [0, 0x25, 0, 0] @ [0, 0x24, 0, 4, 0, 0, 0, 5] @
     [0x80, 0x2A, 0, 8, 0, 0, 0, 0, 0, 0, 0, tie]"

lemma example_check_5:
  "map_option (\<lambda>(n, agt, m). (n, take n (buffer m))) (example_check True 5) = Some (44, example_check_bytes 5)"
  by code_simp

lemma example_check_3:
  "map_option (\<lambda>(n, agt, m). (n, take n (buffer m))) (example_check True 3) = Some (44, example_check_bytes 3)"
  by code_simp

lemma example_answer_3:
  "map_option (\<lambda>(ret, l, c, x). (l, c)) (example_answer (example_check_bytes 5) 44 True 3) = Some (32, False)"
  by code_simp

lemma example_answer_5:
  "map_option (\<lambda>(ret, l, c, x). (l, c)) (example_answer (example_check_bytes 3) 44 True 5) = Some (44, True)"
  by code_simp

lemma example_peers: "peers example_agent_3489 example_agent_3489"
  by code_simp

lemma example_buffer: "check_buffer (replicate 44 0) 44 (replicate 16 7)"
  by (simp add: check_buffer_def)




text \<open>C7.  The peer that evaluates the success answer to its check obtains the address the check
  was seen to come from, in every compatibility mode, masked or not.\<close>

theorem mapped_address_travels:
  assumes env: "wf_env env" and ab: "peers a b" and buf: "len \<le> length buf" "length buf < 65536"
    and src: "wf_sockaddr src" "srclen \<le> sizeof_sockaddr_storage"
    and re: "stun_usage_ice_conncheck_create_reply env a req msg buf len src srclen control tie mode =
      Some (ret, n, control', a', m')"
    and ok: "ret = STUN_USAGE_ICE_RETURN_SUCCESS \<or> control' \<noteq> control" and n: "n \<noteq> 0"
  shows "stun_usage_ice_conncheck_process (received_msg b msg' (take n (buffer m')) n) old sizeof_sockaddr_storage mode =
    Some (STUN_USAGE_ICE_RETURN_SUCCESS, src, addr_len src)"
proof -
  have oc: "compatibility a \<noteq> STUN_COMPATIBILITY_OC2007" using ab by (simp add: peers_def)
  from reply_success [OF re ok] obtain ret0 where req: "stun_message_get_method req = Some 1"
    and rr: "reply_response env a req msg buf len src srclen mode ret0 = Some (ret, n, a', m')" by blast
  from reply_response_sent [OF env oc buf req src rr n] obtain m xs t v ys where
    s: "sent a STUN_RESPONSE 1 n m'" and as: "msg_attrs m' = Some (xs @ [(t, v)] @ ys)"
    and xs: "fst ` set xs \<subseteq> {stun_attribute_code STUN_ATTRIBUTE_SOFTWARE}" and ys: "XMA \<notin> fst ` set ys"
    and m: "20 \<le> length (buffer m)" "stun_message_id m' = stun_message_id m"
    and a: "is_inet src" "addr_len src \<le> srclen"
    and tv: "(t, v) = (XMA, encode_addr (mask_addr m (mask_key mode m) src)) \<or>
      mode \<noteq> STUN_USAGE_ICE_COMPATIBILITY_MSN \<and> (t, v) = (MA, encode_addr src)" by blast
  note view = sent_received [OF s ab, of msg']
  have len: "addr_len src \<le> sizeof_sockaddr_storage" using a(2) src(2) by simp
  show ?thesis
    by (rule process_reads [OF view(1) [unfolded as] received_swap [OF ab] xs ys view(2,3)
        view(4) [unfolded m(2)] m(1) src(1) a(1) len tv])
qed

theorem mapped_address_travels_witness:
  "\<exists>ret l c b' r'. example_answer (example_check_bytes 5) 44 True 3 = Some (ret, l, c, b', r') \<and>
    stun_usage_ice_conncheck_process (received_msg example_agent_3489 example_msg (take l (buffer r')) l)
      (Sock_other 0) sizeof_sockaddr_storage STUN_USAGE_ICE_COMPATIBILITY_RFC5245 =
    Some (STUN_USAGE_ICE_RETURN_SUCCESS, Sock_in [1, 2] [10, 0, 0, 1], 16)"
proof -
  obtain ret b' r' where e: "example_answer (example_check_bytes 5) 44 True 3 = Some (ret, 32, False, b', r')"
    using example_answer_3 by auto
  have "stun_usage_ice_conncheck_process (received_msg example_agent_3489 example_msg (take 32 (buffer r')) 32)
      (Sock_other 0) sizeof_sockaddr_storage STUN_USAGE_ICE_COMPATIBILITY_RFC5245 =
    Some (STUN_USAGE_ICE_RETURN_SUCCESS, Sock_in [1, 2] [10, 0, 0, 1], addr_len (Sock_in [1, 2] [10, 0, 0, 1]))"
    by (rule mapped_address_travels [OF example_env_wf example_peers _ _ _ _ e [unfolded example_answer_def]])
      (simp_all add: sizeof_defs)
  with e show ?thesis by (auto simp: sizeof_defs)
qed

text \<open>C33.  A buffer too small for the header of the answer makes the call fail its own assertion
  instead of reporting the lack of memory.\<close>

theorem reply_small_buffer_asserts:
  assumes "stun_message_get_class req = Some STUN_REQUEST" and "stun_message_get_method req = Some 1"
    and "msg_attrs req = Some as" and "find_attr as (ms_turn_swap req (role_attribute control)) = None"
    and "len < 20"
  shows "stun_usage_ice_conncheck_create_reply env agt req msg buf len src srclen control tie mode = None"
proof -
  obtain tid where tid: "stun_message_id req = Some tid"
    using msg_attrs_length_ge [OF assms(3)] by (simp add: stun_message_id_def stun_pos_defs rd_bytes_def)
  have "reply_response env agt req msg buf len src srclen mode ret = None" for ret
    using assms(1,2,5) tid
    by (simp add: reply_response_def stun_agent_init_response_def Let_def stun_message_init_short)
  then show ?thesis
    using assms(1,2,4)
    by (simp add: stun_usage_ice_conncheck_create_reply_def stun_message_find64_spec [OF assms(3)] Let_def
        split: option.splits)
qed

theorem reply_small_buffer_asserts_witness:
  "stun_usage_ice_conncheck_create_reply example_env example_agent_3489
     (received_msg example_agent_3489 example_msg ([0, 1, 0, 0] @ replicate 16 7) 20) example_msg (replicate 44 0) 19
     (Sock_in [1, 2] [10, 0, 0, 1]) 16 True 5 STUN_USAGE_ICE_COMPATIBILITY_RFC5245 = None"
proof -
  let ?r = "received_msg example_agent_3489 example_msg ([0, 1, 0, 0] @ replicate 16 7) 20"
  have "stun_message_get_class ?r = Some STUN_REQUEST" "stun_message_get_method ?r = Some 1" "msg_attrs ?r = Some []"
    by code_simp+
  then show ?thesis by (rule reply_small_buffer_asserts) simp_all
qed

end
