(* ===== verification/Stun_Turn.thy ===== *)
theory Stun_Turn
  imports Stun_Ice_Props
begin

text \<open>
  Binding requests and TURN allocations over STUN (\<open>src/libnice/stun/usages/bind.c\<close> and
  \<open>src/libnice/stun/usages/turn.c\<close>): the requests, and the evaluation of the answers.  As in the ICE
  usage the transaction identifier that is drawn for a request is an argument.  The blocking
  \<open>stun_usage_bind_run\<close> with its sockets is not part of the model.
\<close>

section \<open>Binding\<close>

datatype StunUsageBindReturn =
    STUN_USAGE_BIND_RETURN_SUCCESS
  | STUN_USAGE_BIND_RETURN_ERROR
  | STUN_USAGE_BIND_RETURN_INVALID
  | STUN_USAGE_BIND_RETURN_ALTERNATE_SERVER
  | STUN_USAGE_BIND_RETURN_TIMEOUT

definition stun_usage_bind_create :: "StunEnv \<Rightarrow> StunAgent \<Rightarrow> StunMessage \<Rightarrow> bytes \<Rightarrow> nat \<Rightarrow> bytes \<Rightarrow>
    (nat \<times> StunAgent \<times> StunMessage) option" where
  "stun_usage_bind_create env agt msg buf buf_len tid = do {
     (ok, msg) \<leftarrow> stun_agent_init_request env agt msg buf buf_len (stun_method_code STUN_BINDING) tid;
     stun_agent_finish_message env agt msg Null
   }"

definition stun_usage_bind_keepalive :: "StunEnv \<Rightarrow> StunAgent \<Rightarrow> StunMessage \<Rightarrow> bytes \<Rightarrow> nat \<Rightarrow> bytes \<Rightarrow>
    (nat \<times> StunAgent \<times> StunMessage) option" where
  "stun_usage_bind_keepalive env agt msg buf len tid = do {
     (ok, msg) \<leftarrow> stun_agent_init_indication agt msg buf len (stun_method_code STUN_BINDING) tid;
     stun_agent_finish_message env agt msg Null
   }"

text \<open>
  An address with its length that the caller may leave out, for the two pointers
  \<open>alternate_server\<close> and \<open>alternate_server_len\<close>.  The mechanism for alternate servers is that of both usages: the
  result tells whether an alternate server was announced.
\<close>

type_synonym addr_out = "(sockaddr \<times> nat) ptr"

definition find_alternate :: "StunMessage \<Rightarrow> addr_out \<Rightarrow> (bool \<times> addr_out) option" where
  "find_alternate msg alternate = (case alternate of
     Ptr (a, n) \<Rightarrow> do {
       (val, a, n) \<leftarrow> stun_message_find_addr msg (stun_attribute_code STUN_ATTRIBUTE_ALTERNATE_SERVER) a n;
       Some (val = STUN_MESSAGE_RETURN_SUCCESS, Ptr (a, n))
     }
   | Null \<Rightarrow> do {
       found \<leftarrow> stun_message_has_attribute msg (stun_attribute_code STUN_ATTRIBUTE_ALTERNATE_SERVER);
       Some (found, Null)
     })"

definition stun_usage_bind_process :: "StunMessage \<Rightarrow> sockaddr \<Rightarrow> nat \<Rightarrow> addr_out \<Rightarrow>
    (StunUsageBindReturn \<times> sockaddr \<times> nat \<times> addr_out) option" where
  "stun_usage_bind_process msg addr addrlen alternate = do {
     method \<leftarrow> stun_message_get_method msg;
     if method \<noteq> stun_method_code STUN_BINDING then Some (STUN_USAGE_BIND_RETURN_INVALID, addr, addrlen, alternate)
     else do {
       cls \<leftarrow> stun_message_get_class msg;
       (case cls of
          STUN_REQUEST \<Rightarrow> Some (STUN_USAGE_BIND_RETURN_INVALID, addr, addrlen, alternate)
        | STUN_INDICATION \<Rightarrow> Some (STUN_USAGE_BIND_RETURN_INVALID, addr, addrlen, alternate)
        | STUN_ERROR \<Rightarrow> do {
            (r, code) \<leftarrow> stun_message_find_error msg (Some (- 1));
            if r \<noteq> STUN_MESSAGE_RETURN_SUCCESS then Some (STUN_USAGE_BIND_RETURN_INVALID, addr, addrlen, alternate)
            else do {
              code \<leftarrow> code;
              if code div 100 = 3 then do {
                (found, alternate) \<leftarrow> find_alternate msg alternate;
                Some (if found then STUN_USAGE_BIND_RETURN_ALTERNATE_SERVER else STUN_USAGE_BIND_RETURN_ERROR,
                      addr, addrlen, alternate)
              }
              else Some (STUN_USAGE_BIND_RETURN_ERROR, addr, addrlen, alternate)
            }
          }
        | STUN_RESPONSE \<Rightarrow> do {
            (val, addr, addrlen) \<leftarrow> stun_message_find_xor_addr msg
              (stun_attribute_code STUN_ATTRIBUTE_XOR_MAPPED_ADDRESS) addr addrlen;
            if val = STUN_MESSAGE_RETURN_SUCCESS then Some (STUN_USAGE_BIND_RETURN_SUCCESS, addr, addrlen, alternate)
            else do {
              (val, addr, addrlen) \<leftarrow> stun_message_find_addr msg (stun_attribute_code STUN_ATTRIBUTE_MAPPED_ADDRESS) addr addrlen;
              Some (if val \<noteq> STUN_MESSAGE_RETURN_SUCCESS then STUN_USAGE_BIND_RETURN_ERROR else STUN_USAGE_BIND_RETURN_SUCCESS,
                    addr, addrlen, alternate)
            }
          })
     }
   }"

section \<open>TURN requests\<close>

datatype StunUsageTurnRequestPorts =
    STUN_USAGE_TURN_REQUEST_PORT_NORMAL
  | STUN_USAGE_TURN_REQUEST_PORT_EVEN
  | STUN_USAGE_TURN_REQUEST_PORT_EVEN_AND_RESERVE

datatype StunUsageTurnCompatibility =
    STUN_USAGE_TURN_COMPATIBILITY_DRAFT9
  | STUN_USAGE_TURN_COMPATIBILITY_GOOGLE
  | STUN_USAGE_TURN_COMPATIBILITY_MSN
  | STUN_USAGE_TURN_COMPATIBILITY_OC2007
  | STUN_USAGE_TURN_COMPATIBILITY_RFC5766

datatype StunUsageTurnReturn =
    STUN_USAGE_TURN_RETURN_RELAY_SUCCESS
  | STUN_USAGE_TURN_RETURN_MAPPED_SUCCESS
  | STUN_USAGE_TURN_RETURN_ERROR
  | STUN_USAGE_TURN_RETURN_INVALID
  | STUN_USAGE_TURN_RETURN_ALTERNATE_SERVER

definition REQUESTED_PROPS_E :: u32 where "REQUESTED_PROPS_E = 0x80000000"
definition REQUESTED_PROPS_R :: u32 where "REQUESTED_PROPS_R = 0x40000000"
definition STUN_ATTRIBUTE_MSN_MAPPED_ADDRESS :: u16 where "STUN_ATTRIBUTE_MSN_MAPPED_ADDRESS = 0x8000"
definition TURN_REQUESTED_TRANSPORT_UDP :: u32 where "TURN_REQUESTED_TRANSPORT_UDP = 0x11000000"

definition turn_standard :: "StunUsageTurnCompatibility \<Rightarrow> bool" where
  "turn_standard c \<longleftrightarrow> c = STUN_USAGE_TURN_COMPATIBILITY_DRAFT9 \<or> c = STUN_USAGE_TURN_COMPATIBILITY_RFC5766"

primrec request_ports_code :: "StunUsageTurnRequestPorts \<Rightarrow> u32" where
  "request_ports_code STUN_USAGE_TURN_REQUEST_PORT_NORMAL = 0"
| "request_ports_code STUN_USAGE_TURN_REQUEST_PORT_EVEN = 1"
| "request_ports_code STUN_USAGE_TURN_REQUEST_PORT_EVEN_AND_RESERVE = 2"

definition requested_props :: "StunUsageTurnRequestPorts \<Rightarrow> u32" where
  "requested_props request_props =
     (if request_ports_code request_props AND request_ports_code STUN_USAGE_TURN_REQUEST_PORT_EVEN_AND_RESERVE \<noteq> 0
      then 0 OR REQUESTED_PROPS_R OR REQUESTED_PROPS_E
      else if request_ports_code request_props AND request_ports_code STUN_USAGE_TURN_REQUEST_PORT_EVEN \<noteq> 0
      then 0 OR REQUESTED_PROPS_E else 0)"

text \<open>An attribute of the previous response that is sent back.\<close>

definition append_found :: "StunMessage \<Rightarrow> StunAttribute \<Rightarrow> StunMessage \<Rightarrow> (StunMessageReturn \<times> StunMessage) option" where
  "append_found previous t msg = do {
     r \<leftarrow> stun_message_find previous (stun_attribute_code t);
     (case r of
        Null \<Rightarrow> Some (STUN_MESSAGE_RETURN_SUCCESS, msg)
      | Ptr (p, l) \<Rightarrow> stun_message_append_bytes msg (stun_attribute_code t) (drop p (buffer previous)) (unat l))
   }"

definition append_reservation :: "StunMessage \<Rightarrow> StunMessage \<Rightarrow> (StunMessageReturn \<times> StunMessage) option" where
  "append_reservation previous msg = do {
     (r, v) \<leftarrow> stun_message_find64 previous (stun_attribute_code STUN_ATTRIBUTE_RESERVATION_TOKEN) None;
     if r = STUN_MESSAGE_RETURN_SUCCESS then do {
       v \<leftarrow> v;
       stun_message_append64 msg (stun_attribute_code STUN_ATTRIBUTE_RESERVATION_TOKEN) v
     } else Some (STUN_MESSAGE_RETURN_SUCCESS, msg)
   }"

definition with_previous :: "StunMessage ptr \<Rightarrow> (StunMessage \<Rightarrow> StunMessage \<Rightarrow> (StunMessageReturn \<times> StunMessage) option) \<Rightarrow>
    StunMessage \<Rightarrow> (StunMessageReturn \<times> StunMessage) option" where
  "with_previous previous f msg = (case previous of Null \<Rightarrow> Some (STUN_MESSAGE_RETURN_SUCCESS, msg) | Ptr p \<Rightarrow> f p msg)"

definition append_user :: "StunAgent \<Rightarrow> bytes ptr \<Rightarrow> bool \<Rightarrow> StunMessage \<Rightarrow> (StunMessageReturn \<times> StunMessage) option" where
  "append_user agt username challenged msg =
     append_if (username \<noteq> Null \<and> (has_usage agt STUN_AGENT_USAGE_SHORT_TERM_CREDENTIALS \<or> challenged))
       (stun_message_append_bytes msg (stun_attribute_code STUN_ATTRIBUTE_USERNAME) (deref username) (length (deref username))) msg"

text \<open>\<open>bandwidth\<close> and \<open>lifetime\<close> are signed.\<close>

definition stun_usage_turn_create :: "StunEnv \<Rightarrow> StunAgent \<Rightarrow> StunMessage \<Rightarrow> bytes \<Rightarrow> nat \<Rightarrow> bytes \<Rightarrow> StunMessage ptr \<Rightarrow>
    StunUsageTurnRequestPorts \<Rightarrow> u32 \<Rightarrow> u32 \<Rightarrow> bytes ptr \<Rightarrow> bytes ptr \<Rightarrow> StunUsageTurnCompatibility \<Rightarrow>
    (nat \<times> StunAgent \<times> StunMessage) option" where
  "stun_usage_turn_create env agt msg buf buf_len tid previous request_props bandwidth lifetime username password mode = do {
     (ok, msg) \<leftarrow> stun_agent_init_request env agt msg buf buf_len (stun_method_code STUN_ALLOCATE) tid;
     let fail = (\<lambda>val msg. Some (0, agt, msg));
     append_or (if turn_standard mode
         then stun_message_append32 msg (stun_attribute_code STUN_ATTRIBUTE_REQUESTED_TRANSPORT) TURN_REQUESTED_TRANSPORT_UDP
         else stun_message_append32 msg (stun_attribute_code STUN_ATTRIBUTE_MAGIC_COOKIE) TURN_MAGIC_COOKIE) fail (\<lambda>msg.
     append_or (append_if (turn_standard mode \<and> sint bandwidth \<ge> 0)
         (stun_message_append32 msg (stun_attribute_code STUN_ATTRIBUTE_BANDWIDTH) bandwidth) msg) fail (\<lambda>msg.
     append_or (append_if (mode = STUN_USAGE_TURN_COMPATIBILITY_OC2007)
         (stun_message_append32 msg (stun_attribute_code STUN_ATTRIBUTE_MS_VERSION) 1) msg) fail (\<lambda>msg.
     append_or (append_if (sint lifetime \<ge> 0)
         (stun_message_append32 msg (stun_attribute_code STUN_ATTRIBUTE_LIFETIME) lifetime) msg) fail (\<lambda>msg.
     append_or (append_if (turn_standard mode \<and> request_props \<noteq> STUN_USAGE_TURN_REQUEST_PORT_NORMAL)
         (stun_message_append32 msg (stun_attribute_code STUN_ATTRIBUTE_REQUESTED_PORT_PROPS) (requested_props request_props)) msg)
       fail (\<lambda>msg.
     append_or (with_previous previous (\<lambda>p. append_found p STUN_ATTRIBUTE_REALM) msg) fail (\<lambda>msg.
     append_or (with_previous previous (\<lambda>p. append_found p STUN_ATTRIBUTE_NONCE) msg) fail (\<lambda>msg.
     append_or (with_previous previous append_reservation msg) fail (\<lambda>msg.
     append_or (append_if (username \<noteq> Null \<and> deref username \<noteq> []) (append_user agt username (previous \<noteq> Null) msg) msg) fail (\<lambda>msg.
     stun_agent_finish_message env agt msg password)))))))))
   }"

definition stun_usage_turn_create_refresh :: "StunEnv \<Rightarrow> StunAgent \<Rightarrow> StunMessage \<Rightarrow> bytes \<Rightarrow> nat \<Rightarrow> bytes \<Rightarrow> StunMessage ptr \<Rightarrow>
    u32 \<Rightarrow> bytes ptr \<Rightarrow> bytes ptr \<Rightarrow> StunUsageTurnCompatibility \<Rightarrow> (nat \<times> StunAgent \<times> StunMessage) option" where
  "stun_usage_turn_create_refresh env agt msg buf buf_len tid previous lifetime username password mode =
     (if \<not> turn_standard mode
      then stun_usage_turn_create env agt msg buf buf_len tid previous STUN_USAGE_TURN_REQUEST_PORT_NORMAL 0 lifetime
             username password mode
      else do {
        (ok, msg) \<leftarrow> stun_agent_init_request env agt msg buf buf_len (stun_method_code STUN_REFRESH) tid;
        let fail = (\<lambda>val msg. Some (0, agt, msg));
        append_or (append_if (sint lifetime \<ge> 0)
            (stun_message_append32 msg (stun_attribute_code STUN_ATTRIBUTE_LIFETIME) lifetime) msg) fail (\<lambda>msg.
        append_or (with_previous previous (\<lambda>p. append_found p STUN_ATTRIBUTE_REALM) msg) fail (\<lambda>msg.
        append_or (with_previous previous (\<lambda>p. append_found p STUN_ATTRIBUTE_NONCE) msg) fail (\<lambda>msg.
        append_or (append_if (username \<noteq> Null \<and> deref username \<noteq> []) (append_user agt username (previous \<noteq> Null) msg) msg) fail (\<lambda>msg.
        stun_agent_finish_message env agt msg password))))
      })"

definition append_optional :: "bytes ptr \<Rightarrow> StunAttribute \<Rightarrow> StunMessage \<Rightarrow> (StunMessageReturn \<times> StunMessage) option" where
  "append_optional d t msg = append_if (d \<noteq> Null)
     (stun_message_append_bytes msg (stun_attribute_code t) (deref d) (length (deref d))) msg"

definition stun_usage_turn_create_permission :: "StunEnv \<Rightarrow> StunAgent \<Rightarrow> StunMessage \<Rightarrow> bytes \<Rightarrow> nat \<Rightarrow> bytes \<Rightarrow> bytes ptr \<Rightarrow>
    bytes ptr \<Rightarrow> bytes ptr \<Rightarrow> bytes ptr \<Rightarrow> sockaddr ptr \<Rightarrow> (nat \<times> StunAgent \<times> StunMessage) option" where
  "stun_usage_turn_create_permission env agt msg buf buf_len tid username password realm nonce peer = (case peer of
     Null \<Rightarrow> Some (0, agt, msg)
   | Ptr peer \<Rightarrow> do {
       (ok, msg) \<leftarrow> stun_agent_init_request env agt msg buf buf_len (stun_method_code STUN_CREATEPERMISSION) tid;
       let fail = (\<lambda>val msg. Some (0, agt, msg));
       append_or (stun_message_append_xor_addr msg (stun_attribute_code STUN_ATTRIBUTE_XOR_PEER_ADDRESS)
           peer sizeof_sockaddr_storage) fail (\<lambda>msg.
       append_or (append_optional nonce STUN_ATTRIBUTE_NONCE msg) fail (\<lambda>msg.
       append_or (append_optional realm STUN_ATTRIBUTE_REALM msg) fail (\<lambda>msg.
       append_or (append_user agt username (nonce \<noteq> Null \<and> realm \<noteq> Null) msg) fail (\<lambda>msg.
       stun_agent_finish_message env agt msg password))))
     })"

section \<open>TURN answers\<close>

text \<open>What the evaluation of an answer to an allocation tells the caller; the numbers may be unassigned.\<close>

record TurnOut =
  relay_addr :: sockaddr
  relay_addrlen :: nat
  mapped_addr :: sockaddr
  mapped_addrlen :: nat
  alternate_server :: addr_out
  out_bandwidth :: "u32 option"
  out_lifetime :: "u32 option"

definition find_relay :: "(sockaddr \<Rightarrow> nat \<Rightarrow> (StunMessageReturn \<times> sockaddr \<times> nat) option) \<Rightarrow> TurnOut \<Rightarrow>
    (bool \<times> TurnOut) option" where
  "find_relay f out = do {
     (val, a, n) \<leftarrow> f (relay_addr out) (relay_addrlen out);
     Some (val = STUN_MESSAGE_RETURN_SUCCESS, out\<lparr>relay_addr := a, relay_addrlen := n\<rparr>)
   }"

definition find_mapped :: "(sockaddr \<Rightarrow> nat \<Rightarrow> (StunMessageReturn \<times> sockaddr \<times> nat) option) \<Rightarrow> TurnOut \<Rightarrow>
    (StunUsageTurnReturn \<times> TurnOut) option" where
  "find_mapped f out = do {
     (val, a, n) \<leftarrow> f (mapped_addr out) (mapped_addrlen out);
     Some (if val = STUN_MESSAGE_RETURN_SUCCESS then STUN_USAGE_TURN_RETURN_MAPPED_SUCCESS
           else STUN_USAGE_TURN_RETURN_RELAY_SUCCESS, out\<lparr>mapped_addr := a, mapped_addrlen := n\<rparr>)
   }"

text \<open>The addresses in an answer: the return value so far, and whether there is a relay address.\<close>

definition turn_addresses :: "StunMessage \<Rightarrow> StunUsageTurnCompatibility \<Rightarrow> TurnOut \<Rightarrow>
    (StunUsageTurnReturn \<times> bool \<times> TurnOut) option" where
  "turn_addresses msg mode out = (case mode of
     STUN_USAGE_TURN_COMPATIBILITY_GOOGLE \<Rightarrow> do {
       (ok, out) \<leftarrow> find_relay (stun_message_find_addr msg (stun_attribute_code STUN_ATTRIBUTE_MAPPED_ADDRESS)) out;
       Some (STUN_USAGE_TURN_RETURN_RELAY_SUCCESS, ok, out)
     }
   | STUN_USAGE_TURN_COMPATIBILITY_MSN \<Rightarrow> do {
       (ret, out) \<leftarrow> find_mapped (stun_message_find_addr msg STUN_ATTRIBUTE_MSN_MAPPED_ADDRESS) out;
       (ok, out) \<leftarrow> find_relay (stun_message_find_addr msg (stun_attribute_code STUN_ATTRIBUTE_MAPPED_ADDRESS)) out;
       Some (ret, ok, out)
     }
   | STUN_USAGE_TURN_COMPATIBILITY_OC2007 \<Rightarrow> do {
       transid \<leftarrow> stun_message_id msg;
       (ret, out) \<leftarrow> find_mapped (\<lambda>a n. stun_message_find_xor_addr_full msg
         (stun_attribute_code STUN_ATTRIBUTE_MS_XOR_MAPPED_ADDRESS) a n (be_dec (take 4 transid))) out;
       (ok, out) \<leftarrow> find_relay (stun_message_find_addr msg (stun_attribute_code STUN_ATTRIBUTE_MAPPED_ADDRESS)) out;
       Some (ret, ok, out)
     }
   | _ \<Rightarrow> do {
       (ret, out) \<leftarrow> find_mapped (stun_message_find_xor_addr msg (stun_attribute_code STUN_ATTRIBUTE_XOR_MAPPED_ADDRESS)) out;
       (ok, out) \<leftarrow> find_relay (stun_message_find_xor_addr msg (stun_attribute_code STUN_ATTRIBUTE_RELAY_ADDRESS)) out;
       Some (ret, ok, out)
     })"

definition turn_error :: "StunMessage \<Rightarrow> StunUsageTurnCompatibility \<Rightarrow> TurnOut \<Rightarrow> (StunUsageTurnReturn \<times> TurnOut) option" where
  "turn_error msg mode out = do {
     (r, code) \<leftarrow> stun_message_find_error msg (Some (- 1));
     if r \<noteq> STUN_MESSAGE_RETURN_SUCCESS then Some (STUN_USAGE_TURN_RETURN_INVALID, out)
     else do {
       code \<leftarrow> code;
       out \<leftarrow> (case alternate_server out of
          Ptr (a, n) \<Rightarrow>
            if mode = STUN_USAGE_TURN_COMPATIBILITY_OC2007 then do {
              (val, a, n) \<leftarrow> stun_message_find_addr msg (stun_attribute_code STUN_ATTRIBUTE_MS_ALTERNATE_SERVER) a n;
              Some (out\<lparr>alternate_server := Ptr (a, n)\<rparr>)
            } else Some out
        | Null \<Rightarrow> Some out);
       if code div 100 = 3 then do {
         (found, alternate) \<leftarrow> find_alternate msg (alternate_server out);
         Some (if found then STUN_USAGE_TURN_RETURN_ALTERNATE_SERVER else STUN_USAGE_TURN_RETURN_ERROR,
               out\<lparr>alternate_server := alternate\<rparr>)
       }
       else Some (STUN_USAGE_TURN_RETURN_ERROR, out)
     }
   }"

definition stun_usage_turn_process :: "StunMessage \<Rightarrow> StunUsageTurnCompatibility \<Rightarrow> TurnOut \<Rightarrow>
    (StunUsageTurnReturn \<times> TurnOut) option" where
  "stun_usage_turn_process msg mode out = do {
     method \<leftarrow> stun_message_get_method msg;
     if method \<noteq> stun_method_code STUN_ALLOCATE then Some (STUN_USAGE_TURN_RETURN_INVALID, out)
     else do {
       cls \<leftarrow> stun_message_get_class msg;
       (case cls of
          STUN_REQUEST \<Rightarrow> Some (STUN_USAGE_TURN_RETURN_INVALID, out)
        | STUN_INDICATION \<Rightarrow> Some (STUN_USAGE_TURN_RETURN_INVALID, out)
        | STUN_ERROR \<Rightarrow> turn_error msg mode out
        | STUN_RESPONSE \<Rightarrow> do {
            (ret, ok, out) \<leftarrow> turn_addresses msg mode out;
            if \<not> ok then Some (STUN_USAGE_TURN_RETURN_ERROR, out)
            else do {
              (_, l) \<leftarrow> stun_message_find32 msg (stun_attribute_code STUN_ATTRIBUTE_LIFETIME) (out_lifetime out);
              (_, b) \<leftarrow> stun_message_find32 msg (stun_attribute_code STUN_ATTRIBUTE_BANDWIDTH) (out_bandwidth out);
              Some (ret, out\<lparr>out_lifetime := l, out_bandwidth := b\<rparr>)
            }
          })
     }
   }"

definition stun_usage_turn_refresh_process :: "StunMessage \<Rightarrow> u32 option \<Rightarrow> StunUsageTurnCompatibility \<Rightarrow>
    (StunUsageTurnReturn \<times> u32 option) option" where
  "stun_usage_turn_refresh_process msg lifetime mode = do {
     method \<leftarrow> stun_message_get_method msg;
     if method \<noteq> stun_method_code (if turn_standard mode then STUN_REFRESH else STUN_ALLOCATE)
     then Some (STUN_USAGE_TURN_RETURN_INVALID, lifetime)
     else do {
       cls \<leftarrow> stun_message_get_class msg;
       (case cls of
          STUN_REQUEST \<Rightarrow> Some (STUN_USAGE_TURN_RETURN_INVALID, lifetime)
        | STUN_INDICATION \<Rightarrow> Some (STUN_USAGE_TURN_RETURN_INVALID, lifetime)
        | STUN_ERROR \<Rightarrow> do {
            (r, code) \<leftarrow> stun_message_find_error msg (Some (- 1));
            Some (if r \<noteq> STUN_MESSAGE_RETURN_SUCCESS then STUN_USAGE_TURN_RETURN_INVALID else STUN_USAGE_TURN_RETURN_ERROR,
                  lifetime)
          }
        | STUN_RESPONSE \<Rightarrow> do {
            (_, l) \<leftarrow> stun_message_find32 msg (stun_attribute_code STUN_ATTRIBUTE_LIFETIME) lifetime;
            Some (STUN_USAGE_TURN_RETURN_RELAY_SUCCESS, l)
          })
     }
   }"

section \<open>The answer to a challenge\<close>

abbreviation code :: "StunAttribute \<Rightarrow> u16" where
  "code \<equiv> stun_attribute_code"

lemma append_if_part:
  assumes "append_if c r m = Some (STUN_MESSAGE_RETURN_SUCCESS, m')" and "plain m"
    and "r = Some (STUN_MESSAGE_RETURN_SUCCESS, m') \<Longrightarrow> \<exists>xs. extends m xs m' \<and> fst ` set xs \<subseteq> T"
  shows "\<exists>xs. extends m xs m' \<and> fst ` set xs \<subseteq> T"
  using assms extends_refl [of m] by (cases c) (fastforce simp: append_if_def buildable_def plain_def)+

lemma append32_part:
  assumes "plain m" and "stun_message_append32 m t x = Some (STUN_MESSAGE_RETURN_SUCCESS, m')" and "t \<in> T"
  shows "\<exists>xs. extends m xs m' \<and> fst ` set xs \<subseteq> T"
  using plain_extends(2) [OF assms(1,2)] assms(3) by fastforce

definition found_attr :: "(u16 \<times> bytes) list \<Rightarrow> StunAttribute \<Rightarrow> StunMessage \<Rightarrow> (u16 \<times> bytes) list" where
  "found_attr pas t m = (case find_attr pas (code t) of None \<Rightarrow> [] | Some v \<Rightarrow> [(code t, appended_value m v)])"

lemma append_found_extends:
  assumes p: "plain m" and pas: "msg_attrs prev = Some pas" and swap: "\<And>t. ms_turn_swap prev t = t"
    and ap: "append_found prev t m = Some (STUN_MESSAGE_RETURN_SUCCESS, m')"
  shows "extends m (found_attr pas t m) m'"
proof (cases rule: find_cases [OF pas, of "code t", case_names absent present])
  case absent
  then show ?thesis using ap swap p extends_refl [of m]
    by (simp add: append_found_def found_attr_def plain_def buildable_def)
next
  case (present v q l)
  then have "stun_message_append_bytes m (code t) (drop q (buffer prev)) (length v) = Some (STUN_MESSAGE_RETURN_SUCCESS, m')"
    using ap by (simp add: append_found_def)
  from plain_extends(4) [OF p this] show ?thesis using present swap by (simp add: found_attr_def)
qed

lemma append_reservation_part:
  assumes "plain m" and "append_reservation prev m = Some (STUN_MESSAGE_RETURN_SUCCESS, m')"
  shows "\<exists>xs. extends m xs m' \<and> fst ` set xs \<subseteq> {code STUN_ATTRIBUTE_RESERVATION_TOKEN}"
proof -
  from assms(2) have "m' = m \<or> (\<exists>v. stun_message_append64 m (code STUN_ATTRIBUTE_RESERVATION_TOKEN) v = Some (STUN_MESSAGE_RETURN_SUCCESS, m'))"
    by (auto simp: append_reservation_def bind_eq_Some_conv split: if_splits simp del: stun_attribute_code.simps)
  then show ?thesis
    using plain_extends(3) [OF assms(1)] extends_refl [of m] assms(1) by (fastforce simp: plain_def buildable_def)
qed

lemma appended_value_frame: "same_frame m m' \<Longrightarrow> 20 \<le> length (buffer m) \<Longrightarrow> appended_value m' = appended_value m"
  by (intro ext) (simp add: appended_value_def wire_len_def same_frameD)

text \<open>The credentials in a request: what precedes and what follows them never hides one of them.\<close>

lemma found_lookup:
  assumes "open_attrs xs" and "t = STUN_ATTRIBUTE_REALM \<or> t = STUN_ATTRIBUTE_NONCE"
    and "code t \<notin> fst ` set xs" and "code t \<notin> fst ` set zs"
  shows "find_attr (xs @ found_attr pas STUN_ATTRIBUTE_REALM m @ found_attr pas STUN_ATTRIBUTE_NONCE m2 @ zs) (code t) =
    map_option (appended_value (if t = STUN_ATTRIBUTE_REALM then m else m2)) (find_attr pas (code t))"
  using assms(2-4) unfolding find_attr_open [OF assms(1,3)]
  by (auto simp: found_attr_def find_attr_absent split: option.splits)

definition user_attr :: "bytes ptr \<Rightarrow> StunMessage \<Rightarrow> (u16 \<times> bytes) list" where
  "user_attr u m = (if u \<noteq> Null \<and> deref u \<noteq> [] then [(code STUN_ATTRIBUTE_USERNAME, appended_value m (deref u))] else [])"

lemma user_lookup:
  assumes "open_attrs xs" and "open_attrs zs" and "user \<noteq> []"
    and "code STUN_ATTRIBUTE_USERNAME \<notin> fst ` set xs" and "code STUN_ATTRIBUTE_USERNAME \<notin> fst ` set zs"
  shows "find_attr (xs @ found_attr pas STUN_ATTRIBUTE_REALM m @ found_attr pas STUN_ATTRIBUTE_NONCE m2 @ zs @
    user_attr (Ptr user) m3 @ ys) (code STUN_ATTRIBUTE_USERNAME) = Some (appended_value m3 user)"
proof -
  have found: "find_attr (found_attr pas t m @ bs) (code STUN_ATTRIBUTE_USERNAME) = find_attr bs (code STUN_ATTRIBUTE_USERNAME)"
    if "t = STUN_ATTRIBUTE_REALM \<or> t = STUN_ATTRIBUTE_NONCE" for t m bs
    using that by (cases "find_attr pas (code t)") (auto simp: found_attr_def)
  have "find_attr (user_attr (Ptr user) m3 @ ys) (code STUN_ATTRIBUTE_USERNAME) = Some (appended_value m3 user)"
    using assms(3) by (simp add: user_attr_def)
  then show ?thesis
    by (simp only: find_attr_open [OF assms(1,4)] found simp_thms find_attr_open [OF assms(2,5)])
qed

definition allocate_leader :: "u16 set" where
  "allocate_leader = {code STUN_ATTRIBUTE_SOFTWARE, code STUN_ATTRIBUTE_REQUESTED_TRANSPORT, code STUN_ATTRIBUTE_MAGIC_COOKIE,
     code STUN_ATTRIBUTE_BANDWIDTH, code STUN_ATTRIBUTE_MS_VERSION, code STUN_ATTRIBUTE_LIFETIME,
     code STUN_ATTRIBUTE_REQUESTED_PORT_PROPS}"

lemma append_user_extends:
  assumes "plain m" and "append_if (u \<noteq> Null \<and> deref u \<noteq> []) (append_user agt u True m) m =
      Some (STUN_MESSAGE_RETURN_SUCCESS, m')"
  shows "extends m (user_attr u m) m'"
  using assms plain_extends(4) [OF assms(1), of "code STUN_ATTRIBUTE_USERNAME" "deref u" "length (deref u)" m']
    extends_refl [of m]
  by (cases u) (auto simp: user_attr_def append_user_def append_if_def buildable_def plain_def split: if_splits)

lemma part_trans:
  assumes "\<exists>xs. extends a xs b \<and> fst ` set xs \<subseteq> T" and "plain a" and "plain b \<Longrightarrow> \<exists>xs. extends b xs c \<and> fst ` set xs \<subseteq> T"
  shows "\<exists>xs. extends a xs c \<and> fst ` set xs \<subseteq> T"
proof -
  from assms(1) obtain xs where xs: "extends a xs b" "fst ` set xs \<subseteq> T" by blast
  from assms(3) [OF extends_plain [OF xs(1) assms(2)]] obtain ys where ys: "extends b ys c" "fst ` set ys \<subseteq> T" by blast
  from extends_trans [OF xs(1) ys(1)] xs(2) ys(2) show ?thesis by (intro exI [of _ "xs @ ys"]) auto
qed

lemma append32_if_part:
  assumes "plain m" and "append_if c (stun_message_append32 m t x) m = Some (STUN_MESSAGE_RETURN_SUCCESS, m')" and "t \<in> T"
  shows "\<exists>xs. extends m xs m' \<and> fst ` set xs \<subseteq> T"
  by (rule append_if_part [OF assms(2,1)]) (rule append32_part [OF assms(1) _ assms(3)])

lemma leader_extends:
  assumes p: "plain m0"
    and m1: "(if c1 then stun_message_append32 m0 (code STUN_ATTRIBUTE_REQUESTED_TRANSPORT) x1
       else stun_message_append32 m0 (code STUN_ATTRIBUTE_MAGIC_COOKIE) y1) = Some (STUN_MESSAGE_RETURN_SUCCESS, m1)"
    and m2: "append_if c2 (stun_message_append32 m1 (code STUN_ATTRIBUTE_BANDWIDTH) x2) m1 = Some (STUN_MESSAGE_RETURN_SUCCESS, m2)"
    and m3: "append_if c3 (stun_message_append32 m2 (code STUN_ATTRIBUTE_MS_VERSION) x3) m2 = Some (STUN_MESSAGE_RETURN_SUCCESS, m3)"
    and m4: "append_if c4 (stun_message_append32 m3 (code STUN_ATTRIBUTE_LIFETIME) x4) m3 = Some (STUN_MESSAGE_RETURN_SUCCESS, m4)"
    and m5: "append_if c5 (stun_message_append32 m4 (code STUN_ATTRIBUTE_REQUESTED_PORT_PROPS) x5) m4 = Some (STUN_MESSAGE_RETURN_SUCCESS, m5)"
  shows "\<exists>xs. extends m0 xs m5 \<and> fst ` set xs \<subseteq> allocate_leader"
proof -
  let ?P = "\<lambda>m. \<exists>xs. extends m0 xs m \<and> fst ` set xs \<subseteq> allocate_leader"
  have in_leader: "code STUN_ATTRIBUTE_REQUESTED_TRANSPORT \<in> allocate_leader" "code STUN_ATTRIBUTE_MAGIC_COOKIE \<in> allocate_leader"
    "code STUN_ATTRIBUTE_BANDWIDTH \<in> allocate_leader" "code STUN_ATTRIBUTE_MS_VERSION \<in> allocate_leader"
    "code STUN_ATTRIBUTE_LIFETIME \<in> allocate_leader" "code STUN_ATTRIBUTE_REQUESTED_PORT_PROPS \<in> allocate_leader"
    unfolding allocate_leader_def by blast+
  have "?P m1" using m1 append32_part [OF p _ in_leader(1)] append32_part [OF p _ in_leader(2)] by (cases c1) simp_all
  from part_trans [OF this p append32_if_part [OF _ m2 in_leader(3)]] have "?P m2" .
  from part_trans [OF this p append32_if_part [OF _ m3 in_leader(4)]] have "?P m3" .
  from part_trans [OF this p append32_if_part [OF _ m4 in_leader(5)]] have "?P m4" .
  from part_trans [OF this p append32_if_part [OF _ m5 in_leader(6)]] show ?thesis .
qed

lemma turn_create_sent:
  assumes env: "wf_env env" and oc: "compatibility agt \<noteq> STUN_COMPATIBILITY_OC2007"
    and buf: "check_buffer buf len tid"
    and pas: "msg_attrs prev = Some pas" and swap: "\<And>t. ms_turn_swap prev t = t"
    and cr: "stun_usage_turn_create env agt msg buf len tid (Ptr prev) props bandwidth lifetime username password mode =
      Some (n, agt', m')" and n: "n \<noteq> 0"
  shows "sent agt STUN_REQUEST 3 n m' \<and> (cookie_compat agt \<longrightarrow> stun_message_has_cookie m' = Some True) \<and> (\<exists>xs m1 m2 zs m3 ys. msg_attrs m' = Some (xs @
    found_attr pas STUN_ATTRIBUTE_REALM m1 @ found_attr pas STUN_ATTRIBUTE_NONCE m2 @ zs @ user_attr username m3 @ ys) \<and>
    same_frame m1 m' \<and> same_frame m2 m' \<and> same_frame m3 m' \<and> 20 \<le> length (buffer m') \<and> fst ` set xs \<subseteq> allocate_leader \<and>
    fst ` set zs \<subseteq> {code STUN_ATTRIBUTE_RESERVATION_TOKEN} \<and> fst ` set ys \<subseteq> {MI, FP})"
proof -
  from cr obtain ok m0 where init: "stun_agent_init_request env agt msg buf len 3 tid = Some (ok, m0)"
    by (auto simp: stun_usage_turn_create_def bind_eq_Some_conv)
  with buf have f: "fresh agt STUN_REQUEST 3 m0" and cookie: "cookie_compat agt \<longrightarrow> stun_message_has_cookie m0 = Some True"
    by (auto simp: check_buffer_def dest: init_request_fresh)
  then have b0: "buildable m0" and ag: "agent m0 = Ptr (agent_cfg agt)" by (simp_all add: fresh_def)
  have p0: "plain m0" using b0 swap_id [OF ag oc] by (simp add: plain_def)
  note chain = cr [unfolded stun_usage_turn_create_def Let_def stun_method_code.simps init bind.bind_lunit prod.case
      with_previous_def ptr.case]
  obtain m1 m2 m3 m4 m5 m6 m7 m8 m9 where
    m1: "(if turn_standard mode
         then stun_message_append32 m0 (code STUN_ATTRIBUTE_REQUESTED_TRANSPORT) TURN_REQUESTED_TRANSPORT_UDP
         else stun_message_append32 m0 (code STUN_ATTRIBUTE_MAGIC_COOKIE) TURN_MAGIC_COOKIE) = Some (STUN_MESSAGE_RETURN_SUCCESS, m1)"
    and m2: "append_if (turn_standard mode \<and> sint bandwidth \<ge> 0)
         (stun_message_append32 m1 (code STUN_ATTRIBUTE_BANDWIDTH) bandwidth) m1 = Some (STUN_MESSAGE_RETURN_SUCCESS, m2)"
    and m3: "append_if (mode = STUN_USAGE_TURN_COMPATIBILITY_OC2007)
         (stun_message_append32 m2 (code STUN_ATTRIBUTE_MS_VERSION) 1) m2 = Some (STUN_MESSAGE_RETURN_SUCCESS, m3)"
    and m4: "append_if (sint lifetime \<ge> 0)
         (stun_message_append32 m3 (code STUN_ATTRIBUTE_LIFETIME) lifetime) m3 = Some (STUN_MESSAGE_RETURN_SUCCESS, m4)"
    and m5: "append_if (turn_standard mode \<and> props \<noteq> STUN_USAGE_TURN_REQUEST_PORT_NORMAL)
         (stun_message_append32 m4 (code STUN_ATTRIBUTE_REQUESTED_PORT_PROPS) (requested_props props)) m4 =
         Some (STUN_MESSAGE_RETURN_SUCCESS, m5)"
    and m6: "append_found prev STUN_ATTRIBUTE_REALM m5 = Some (STUN_MESSAGE_RETURN_SUCCESS, m6)"
    and m7: "append_found prev STUN_ATTRIBUTE_NONCE m6 = Some (STUN_MESSAGE_RETURN_SUCCESS, m7)"
    and m8: "append_reservation prev m7 = Some (STUN_MESSAGE_RETURN_SUCCESS, m8)"
    and m9: "append_if (username \<noteq> Null \<and> deref username \<noteq> []) (append_user agt username (Ptr prev \<noteq> Null) m8) m8 =
         Some (STUN_MESSAGE_RETURN_SUCCESS, m9)"
    and fin: "stun_agent_finish_message env agt m9 password = Some (n, agt', m')"
    using chain n by (elim append_or_sent)
  obtain x where x: "extends m0 x m5" "fst ` set x \<subseteq> allocate_leader"
    using leader_extends [OF p0 m1 m2 m3 m4 m5] by blast
  note p5 = extends_plain [OF x(1) p0]
  note e6 = append_found_extends [OF p5 pas swap m6]
  note p6 = extends_plain [OF e6 p5]
  note e7 = append_found_extends [OF p6 pas swap m7]
  note p7 = extends_plain [OF e7 p6]
  obtain zs where e8: "extends m7 zs m8" and zs: "fst ` set zs \<subseteq> {code STUN_ATTRIBUTE_RESERVATION_TOKEN}"
    using append_reservation_part [OF p7 m8] by blast
  note p8 = extends_plain [OF e8 p7]
  have e9: "extends m8 (user_attr username m8) m9" using append_user_extends [OF p8, of username agt m9] m9 by simp
  note rest = extends_trans [OF e6 extends_trans [OF e7 extends_trans [OF e8 e9]]]
  note s = sent_of_fresh [OF f extends_trans [OF x(1) rest] fin n env]
  from s(2) obtain ys where as: "msg_attrs m' = Some (the (msg_attrs m0) @ (x @ found_attr pas STUN_ATTRIBUTE_REALM m5 @
      found_attr pas STUN_ATTRIBUTE_NONCE m6 @ zs @ user_attr username m8) @ ys)" and ys: "seals m0 ys" by blast
  have sw: "fst ` set (the (msg_attrs m0)) \<subseteq> {code STUN_ATTRIBUTE_SOFTWARE}"
    using f unfolding fresh_def plain_swap [OF p0] by (elim conjE exE) simp
  obtain w where w: "extends m9 w m'"
    using finish_message_extends [OF env plain_buildable [OF extends_plain [OF e9 p8]] fin n] by blast
  note fr = extends_frame [OF w] extends_frame [OF e9] extends_frame [OF e8] extends_frame [OF e7] extends_frame [OF e6]
  have g: "same_frame m8 m'" "same_frame m6 m'" "same_frame m5 m'" using fr by (blast intro: same_frame_trans)+
  have "cookie_compat agt \<longrightarrow> stun_message_has_cookie m' = Some True"
    using same_frameD(6) [OF same_frame_trans [OF extends_frame [OF x(1)] g(3)] buildable_20 [OF b0]] cookie by simp
  moreover have "20 \<le> length (buffer m')" using s(1) by (auto simp: sent_def dest: buildable_20)
  moreover have "fst ` set (the (msg_attrs m0) @ x) \<subseteq> allocate_leader" using sw x(2) by (auto simp: allocate_leader_def)
  moreover have "fst ` set ys \<subseteq> {MI, FP}" using ys unfolding seals_def plain_swap [OF p0] .
  ultimately show ?thesis using s(1) g zs as
    by (intro conjI exI [of _ "the (msg_attrs m0) @ x"] exI [of _ m5] exI [of _ m6] exI [of _ zs] exI [of _ m8] exI [of _ ys]) simp_all
qed

section \<open>Properties\<close>

text \<open>C5.  The answer to a challenge of a TURN server: an allocation request that is built from the
  error response of the server is a well-formed Allocate request, it carries the realm and the
  nonce of the challenge, or none where the challenge has none, and it names the user.  An agent of a compatibility
  mode with the magic cookie (RFC 5389 and its successors) sends the three values exactly as they were received
  and given; an agent of an older mode sends them padded with zeros to a multiple of four bytes
  (\<open>appended_value\<close>), the padding being counted in the length of the attribute.\<close>

theorem turn_answers_challenge:
  assumes env: "wf_env env" and oc: "compatibility agt \<noteq> STUN_COMPATIBILITY_OC2007"
    and buf: "check_buffer buf len tid"
    and pas: "msg_attrs prev = Some pas" and swap: "\<And>t. ms_turn_swap prev t = t"
    and cr: "stun_usage_turn_create env agt msg buf len tid (Ptr prev) props bandwidth lifetime (Ptr user) password mode =
      Some (n, agt', m')" and n: "n \<noteq> 0" and user: "user \<noteq> []"
  shows "sent agt STUN_REQUEST 3 n m' \<and> (\<exists>as. msg_attrs m' = Some as \<and>
    find_attr as (code STUN_ATTRIBUTE_REALM) = map_option (appended_value m') (find_attr pas (code STUN_ATTRIBUTE_REALM)) \<and>
    find_attr as (code STUN_ATTRIBUTE_NONCE) = map_option (appended_value m') (find_attr pas (code STUN_ATTRIBUTE_NONCE)) \<and>
    find_attr as (code STUN_ATTRIBUTE_USERNAME) = Some (appended_value m' user) \<and>
    (cookie_compat agt \<longrightarrow>
      find_attr as (code STUN_ATTRIBUTE_REALM) = find_attr pas (code STUN_ATTRIBUTE_REALM) \<and>
      find_attr as (code STUN_ATTRIBUTE_NONCE) = find_attr pas (code STUN_ATTRIBUTE_NONCE) \<and>
      find_attr as (code STUN_ATTRIBUTE_USERNAME) = Some user))"
proof -
  from turn_create_sent [OF env oc buf pas swap cr n] obtain xs m1 m2 zs m3 ys where
    s: "sent agt STUN_REQUEST 3 n m'" and ck: "cookie_compat agt \<longrightarrow> stun_message_has_cookie m' = Some True"
    and as: "msg_attrs m' = Some (xs @ found_attr pas STUN_ATTRIBUTE_REALM m1 @
      found_attr pas STUN_ATTRIBUTE_NONCE m2 @ zs @ user_attr (Ptr user) m3 @ ys)"
    and fr: "same_frame m1 m'" "same_frame m2 m'" "same_frame m3 m'" and len: "20 \<le> length (buffer m')"
    and xs: "fst ` set xs \<subseteq> allocate_leader" and zs: "fst ` set zs \<subseteq> {code STUN_ATTRIBUTE_RESERVATION_TOKEN}"
    and ys: "fst ` set ys \<subseteq> {MI, FP}" by (elim conjE exE)
  have ap: "appended_value m' = appended_value k" if "same_frame k m'" for k
    by (rule appended_value_frame [OF that]) (use that len in \<open>simp add: same_frame_def\<close>)
  note ap = fr [THEN this]
  have o: "open_attrs xs" "open_attrs zs" using xs zs by (auto simp: open_attrs_def allocate_leader_def)
  have lead: "t \<notin> allocate_leader \<Longrightarrow> t \<notin> fst ` set xs" for t using xs by blast
  have trail: "t \<notin> fst ` set (zs @ user_attr (Ptr user) m3 @ ys)"
    if "t \<noteq> code STUN_ATTRIBUTE_RESERVATION_TOKEN" "t \<noteq> MI" "t \<noteq> FP" "t \<noteq> code STUN_ATTRIBUTE_USERNAME" for t
    using zs ys that by (auto simp: user_attr_def simp del: stun_attribute_code.simps)
  have rn: "find_attr (xs @ found_attr pas STUN_ATTRIBUTE_REALM m1 @ found_attr pas STUN_ATTRIBUTE_NONCE m2 @
      zs @ user_attr (Ptr user) m3 @ ys) (code t) = map_option (appended_value m') (find_attr pas (code t))"
    if t: "t = STUN_ATTRIBUTE_REALM \<or> t = STUN_ATTRIBUTE_NONCE" for t
  proof -
    have x: "code t \<notin> fst ` set xs" using t by (intro lead) (auto simp: allocate_leader_def)
    have z: "code t \<notin> fst ` set (zs @ user_attr (Ptr user) m3 @ ys)" using t by (intro trail) (auto simp: MI_def FP_def)
    show ?thesis using found_lookup [OF o(1) t x z, of pas m1 m2]
      by (simp only: if_distrib [of appended_value] ap [symmetric] if_cancel)
  qed
  have "find_attr (xs @ found_attr pas STUN_ATTRIBUTE_REALM m1 @ found_attr pas STUN_ATTRIBUTE_NONCE m2 @
      zs @ user_attr (Ptr user) m3 @ ys) (code STUN_ATTRIBUTE_USERNAME) = Some (appended_value m' user)"
    unfolding ap(3) by (rule user_lookup [OF o user]) (use xs zs in \<open>auto simp: allocate_leader_def\<close>)
  moreover have "cookie_compat agt \<Longrightarrow> appended_value m' = (\<lambda>v. v)"
    using ck by (intro ext) (simp add: appended_value_def wire_len_def)
  ultimately show ?thesis
    by (intro conjI s exI impI) (simp_all only: as rn simp_thms option.inject option.map_ident)
qed

text \<open>A challenge with a realm of five and a nonce of four bytes, for an agent of RFC 5389.\<close>

definition example_agent_5389 :: StunAgent where
  "example_agent_5389 = example_agent_3489\<lparr>compatibility := STUN_COMPATIBILITY_RFC5389\<rparr>"

definition example_challenge :: bytes where
  "example_challenge = [1, 0x13, 0, 20] @ [0x21, 0x12, 0xA4, 0x42] @ replicate 12 7 @
     [0, 0x14, 0, 5, 82, 101, 97, 108, 109, 0, 0, 0] @ [0, 0x15, 0, 4, 1, 2, 3, 4]"

definition example_allocate :: "(nat \<times> StunAgent \<times> StunMessage) option" where
  "example_allocate = stun_usage_turn_create example_env example_agent_5389 example_msg (replicate 100 0) 100 (replicate 16 7)
     (Ptr (received_msg example_agent_5389 example_msg example_challenge 40)) STUN_USAGE_TURN_REQUEST_PORT_NORMAL 7 600
     (Ptr [85, 115]) Null STUN_USAGE_TURN_COMPATIBILITY_RFC5766"

lemma example_allocate_length: "map_option fst example_allocate = Some 72"
  unfolding example_allocate_def by code_simp

lemma example_challenge_attrs:
  "msg_attrs (received_msg example_agent_5389 example_msg example_challenge 40) =
    Some [(0x14, [82, 101, 97, 108, 109]), (0x15, [1, 2, 3, 4])]"
  by code_simp

theorem turn_answers_challenge_witness:
  "\<exists>n agt' m' as. example_allocate = Some (n, agt', m') \<and> sent example_agent_5389 STUN_REQUEST 3 n m' \<and> msg_attrs m' = Some as \<and>
    find_attr as (code STUN_ATTRIBUTE_REALM) = Some [82, 101, 97, 108, 109] \<and>
    find_attr as (code STUN_ATTRIBUTE_NONCE) = Some [1, 2, 3, 4] \<and> find_attr as (code STUN_ATTRIBUTE_USERNAME) = Some [85, 115]"
proof -
  obtain a1 m1 where c: "example_allocate = Some (72, a1, m1)" using example_allocate_length by auto
  have cmp: "compatibility example_agent_5389 \<noteq> STUN_COMPATIBILITY_OC2007" "cookie_compat example_agent_5389"
    by (simp_all add: example_agent_5389_def example_agent_3489_def cookie_compat_def)
  have swap: "ms_turn_swap (received_msg example_agent_5389 example_msg example_challenge 40) t = t" for t
    by (rule swap_id [OF _ cmp(1)]) (simp add: received_msg_def)
  have buf: "check_buffer (replicate 100 0) 100 (replicate 16 7)" by (simp add: check_buffer_def)
  have "sent example_agent_5389 STUN_REQUEST 3 72 m1 \<and> (\<exists>as. msg_attrs m1 = Some as \<and>
    find_attr as (code STUN_ATTRIBUTE_REALM) = Some [82, 101, 97, 108, 109] \<and>
    find_attr as (code STUN_ATTRIBUTE_NONCE) = Some [1, 2, 3, 4] \<and> find_attr as (code STUN_ATTRIBUTE_USERNAME) = Some [85, 115])"
    using turn_answers_challenge [OF example_env_wf cmp(1) buf example_challenge_attrs swap c [unfolded example_allocate_def]] cmp(2)
    by fastforce
  with c show ?thesis by blast
qed

end
