(* ===== verification/Nice_Address.thy ===== *)
theory Nice_Address
  imports Nice_Prelude
begin

text \<open>
  Addresses (\<open>src/libnice/agent/address.c\<close>): the union of the socket addresses of IPv4 and IPv6.
  Addresses and ports are in network byte order, as lists of 4, 16 and 2 bytes; the flow
  information of an IPv6 address is not read by any function here.  \<open>inet_ntop\<close> and
  \<open>getaddrinfo\<close> of the system are arguments.  The failing \<open>g_return_if_reached\<close> logs and returns.
\<close>

section \<open>Data\<close>

datatype NiceAddress =
    Addr_ip4 (ip4_addr: bytes) (ip4_port: bytes)
  | Addr_ip6 (ip6_addr: bytes) (ip6_port: bytes) (ip6_scope: u32)
  | Addr_other (sa_family: nat)

fun wf_address :: "NiceAddress \<Rightarrow> bool" where
  "wf_address (Addr_ip4 a p) \<longleftrightarrow> length a = 4 \<and> length p = 2"
| "wf_address (Addr_ip6 a p s) \<longleftrightarrow> length a = 16 \<and> length p = 2"
| "wf_address (Addr_other f) \<longleftrightarrow> True"

section \<open>Operations\<close>

definition nice_address_init :: NiceAddress where
  "nice_address_init = Addr_other 0"

definition nice_address_new :: NiceAddress where
  "nice_address_new = nice_address_init"

definition nice_address_set_ipv4 :: "NiceAddress \<Rightarrow> u32 \<Rightarrow> NiceAddress" where
  "nice_address_set_ipv4 addr addr_ipv4 = Addr_ip4 (if addr_ipv4 \<noteq> 0 then be_enc 4 addr_ipv4 else [0, 0, 0, 0]) [0, 0]"

text \<open>The 16 bytes at \<open>addr_ipv6\<close> are read.\<close>

definition nice_address_set_ipv6 :: "NiceAddress \<Rightarrow> bytes \<Rightarrow> NiceAddress option" where
  "nice_address_set_ipv6 addr addr_ipv6 = do {
     a \<leftarrow> rd_bytes addr_ipv6 0 16;
     Some (Addr_ip6 a [0, 0] 0)
   }"

fun nice_address_set_port :: "NiceAddress \<Rightarrow> u32 \<Rightarrow> NiceAddress" where
  "nice_address_set_port (Addr_ip4 a p) port = Addr_ip4 a (be_enc 2 (ucast port :: u16))"
| "nice_address_set_port (Addr_ip6 a p s) port = Addr_ip6 a (be_enc 2 (ucast port :: u16)) s"
| "nice_address_set_port (Addr_other f) port = Addr_other f"

fun nice_address_get_port :: "NiceAddress ptr \<Rightarrow> u32" where
  "nice_address_get_port Null = 0"
| "nice_address_get_port (Ptr (Addr_ip4 a p)) = ucast (be_dec p :: u16)"
| "nice_address_get_port (Ptr (Addr_ip6 a p s)) = ucast (be_dec p :: u16)"
| "nice_address_get_port (Ptr (Addr_other f)) = 0"

fun nice_address_set_from_sockaddr :: "NiceAddress \<Rightarrow> NiceAddress \<Rightarrow> NiceAddress" where
  "nice_address_set_from_sockaddr addr (Addr_ip4 a p) = Addr_ip4 a p"
| "nice_address_set_from_sockaddr addr (Addr_ip6 a p s) = Addr_ip6 a p s"
| "nice_address_set_from_sockaddr addr (Addr_other f) = addr"

text \<open>The parameter \<open>getaddrinfo\<close> converts a numeric address.\<close>

definition nice_address_set_from_string ::
  "(string \<Rightarrow> NiceAddress option) \<Rightarrow> NiceAddress \<Rightarrow> string \<Rightarrow> bool \<times> NiceAddress" where
  "nice_address_set_from_string getaddrinfo addr str =
     (case getaddrinfo str of None \<Rightarrow> (False, addr)
      | Some res \<Rightarrow> (True, nice_address_set_from_sockaddr addr res))"

fun nice_address_copy_to_sockaddr :: "NiceAddress \<Rightarrow> NiceAddress \<Rightarrow> NiceAddress" where
  "nice_address_copy_to_sockaddr (Addr_ip4 a p) sa = Addr_ip4 a p"
| "nice_address_copy_to_sockaddr (Addr_ip6 a p s) sa = Addr_ip6 a p s"
| "nice_address_copy_to_sockaddr (Addr_other f) sa = sa"

text \<open>
  The parameter \<open>inet_ntop\<close> prints the 4 or 16 bytes of an address.  The result is what the
  destination holds afterwards, \<open>None\<close> where it was never assigned.
\<close>

fun nice_address_to_string :: "(bytes \<Rightarrow> string) \<Rightarrow> NiceAddress \<Rightarrow> string option \<Rightarrow> string option" where
  "nice_address_to_string inet_ntop (Addr_ip4 a p) dst = Some (inet_ntop a)"
| "nice_address_to_string inet_ntop (Addr_ip6 a p s) dst = Some (inet_ntop a)"
| "nice_address_to_string inet_ntop (Addr_other f) dst = dst"

definition nice_address_dup_string :: "(bytes \<Rightarrow> string) \<Rightarrow> NiceAddress \<Rightarrow> string option" where
  "nice_address_dup_string inet_ntop addr = nice_address_to_string inet_ntop addr (Some '''')"

definition scope_match :: "u32 \<Rightarrow> u32 \<Rightarrow> bool" where
  "scope_match s t \<longleftrightarrow> s = 0 \<or> t = 0 \<or> s = t"

fun nice_address_equal :: "NiceAddress \<Rightarrow> NiceAddress \<Rightarrow> bool" where
  "nice_address_equal (Addr_ip4 a p) (Addr_ip4 b q) \<longleftrightarrow> a = b \<and> p = q"
| "nice_address_equal (Addr_ip6 a p s) (Addr_ip6 b q t) \<longleftrightarrow> a = b \<and> p = q \<and> scope_match s t"
| "nice_address_equal _ _ \<longleftrightarrow> False"

fun nice_address_equal_no_port :: "NiceAddress \<Rightarrow> NiceAddress \<Rightarrow> bool" where
  "nice_address_equal_no_port (Addr_ip4 a p) (Addr_ip4 b q) \<longleftrightarrow> a = b"
| "nice_address_equal_no_port (Addr_ip6 a p s) (Addr_ip6 b q t) \<longleftrightarrow> a = b \<and> scope_match s t"
| "nice_address_equal_no_port _ _ \<longleftrightarrow> False"

definition nice_address_dup :: "NiceAddress \<Rightarrow> NiceAddress" where
  "nice_address_dup a = a"

definition ipv4_address_is_private :: "bytes \<Rightarrow> bool" where
  "ipv4_address_is_private a =
     (let addr = be_dec a :: u32
      in addr AND 0xff000000 = 0x0a000000 \<or> addr AND 0xfff00000 = 0xac100000 \<or> addr AND 0xffff0000 = 0xc0a80000 \<or>
         addr AND 0xffff0000 = 0xa9fe0000 \<or> addr AND 0xff000000 = 0x7f000000)"

definition ipv6_address_is_private :: "bytes \<Rightarrow> bool" where
  "ipv6_address_is_private addr \<longleftrightarrow>
     addr ! 0 = 0xfe \<and> addr ! 1 AND 0xc0 = 0x80 \<or> addr ! 0 = 0xfd \<or> addr ! 0 AND 0xfe = 0xfc \<or>
     take 16 addr = replicate 15 0 @ [1]"

fun nice_address_is_private :: "NiceAddress \<Rightarrow> bool" where
  "nice_address_is_private (Addr_ip4 a p) \<longleftrightarrow> ipv4_address_is_private a"
| "nice_address_is_private (Addr_ip6 a p s) \<longleftrightarrow> ipv6_address_is_private a"
| "nice_address_is_private (Addr_other f) \<longleftrightarrow> False"

definition ipv4_address_is_linklocal :: "bytes \<Rightarrow> bool" where
  "ipv4_address_is_linklocal a \<longleftrightarrow> (be_dec a :: u32) AND 0xffff0000 = 0xa9fe0000"

definition ipv6_address_is_linklocal :: "bytes \<Rightarrow> bool" where
  "ipv6_address_is_linklocal addr \<longleftrightarrow> addr ! 0 = 0xfe \<and> addr ! 1 AND 0xc0 = 0x80"

fun nice_address_is_linklocal :: "NiceAddress \<Rightarrow> bool" where
  "nice_address_is_linklocal (Addr_ip4 a p) \<longleftrightarrow> ipv4_address_is_linklocal a"
| "nice_address_is_linklocal (Addr_ip6 a p s) \<longleftrightarrow> ipv6_address_is_linklocal a"
| "nice_address_is_linklocal (Addr_other f) \<longleftrightarrow> False"

fun nice_address_is_valid :: "NiceAddress \<Rightarrow> bool" where
  "nice_address_is_valid (Addr_ip4 a p) \<longleftrightarrow> True"
| "nice_address_is_valid (Addr_ip6 a p s) \<longleftrightarrow> True"
| "nice_address_is_valid (Addr_other f) \<longleftrightarrow> False"

fun nice_address_ip_version :: "NiceAddress \<Rightarrow> int" where
  "nice_address_ip_version (Addr_ip4 a p) = 4"
| "nice_address_ip_version (Addr_ip6 a p s) = 6"
| "nice_address_ip_version (Addr_other f) = 0"

section \<open>Well-formed addresses\<close>

lemma wf_address_operations:
  "wf_address nice_address_init" "wf_address (nice_address_set_ipv4 a x)"
  "nice_address_set_ipv6 a d = Some b \<Longrightarrow> wf_address b"
  "wf_address a \<Longrightarrow> wf_address (nice_address_set_port a port)"
  "wf_address a \<Longrightarrow> wf_address b \<Longrightarrow> wf_address (nice_address_set_from_sockaddr a b)"
  by (auto simp: nice_address_init_def nice_address_set_ipv4_def nice_address_set_ipv6_def bind_eq_Some_conv rd_bytes_def
      split: if_splits) (cases a; cases b; simp)+

lemma port_read_back:
  assumes "nice_address_is_valid a"
  shows "nice_address_get_port (Ptr (nice_address_set_port a port)) = take_bit 16 port"
proof -
  have "(ucast (ucast port :: u16)   :: u32) = take_bit 16 port"
    by (rule bit_word_eqI) (simp add: bit_simps)
  then show ?thesis using assms by (cases a) simp_all
qed

lemma equal_laws:
  "nice_address_is_valid a \<Longrightarrow> nice_address_equal a a"
  "nice_address_equal a b \<Longrightarrow> nice_address_equal b a"
  "nice_address_equal a b \<Longrightarrow> nice_address_equal_no_port a b"
  "nice_address_is_linklocal a \<Longrightarrow> nice_address_is_private a"
  by (cases a; cases b; auto simp: scope_match_def ipv4_address_is_private_def ipv4_address_is_linklocal_def
      ipv6_address_is_private_def ipv6_address_is_linklocal_def)+

section \<open>The private ranges\<close>

text \<open>A comparison under a mask of the upper bits is one of the upper bits alone.\<close>

lemma masked_eq:
  assumes "k < 2 ^ (32 - n)" and "n \<le> 32"
  shows "(w :: u32) AND NOT (mask n) = push_bit n (of_nat k) \<longleftrightarrow> unat w div 2 ^ n = k"
proof -
  have u: "unat (push_bit n (of_nat k) :: u32) = k * 2 ^ n" if "k * 2 ^ n < 4294967296" for k
  proof -
    have "(push_bit n (of_nat k) :: u32) = of_nat (k * 2 ^ n)" by (simp add: push_bit_eq_mult)
    then show ?thesis using that by (simp only: unat_of_nat_u32)
  qed
  have k: "k * 2 ^ n < 4294967296"
    using mult_strict_right_mono [OF assms(1), of "2 ^ n"] assms(2) by (simp flip: power_add)
  have "w AND NOT (mask n) = push_bit n (drop_bit n w)"
    by (rule bit_word_eqI) (auto simp: bit_simps)
  also have "drop_bit n w = of_nat (unat w div 2 ^ n)"
  proof -
    have "unat (drop_bit n w) = unat w div 2 ^ n" by (simp only: unat_drop_bit_eq) (simp add: drop_bit_eq_div)
    moreover have "unat (of_nat (unat w div 2 ^ n) :: u32) = unat w div 2 ^ n"
      by (rule unat_of_nat_u32 [OF le_less_trans [OF div_le_dividend unat_u32_less]])
    ultimately show ?thesis by (simp only: word_unat_eq_iff)
  qed
  finally have "w AND NOT (mask n) = push_bit n (of_nat (unat w div 2 ^ n))" .
  moreover have "unat w div 2 ^ n * 2 ^ n < 4294967296"
    using le_less_trans [OF div_times_less_eq_dividend unat_u32_less] .
  ultimately show ?thesis using u [OF k] u [of "unat w div 2 ^ n"] by (simp add: word_unat_eq_iff)
qed

lemma unat_shift_in:
  assumes "unat (x :: u32) < 16777216"
  shows "unat (push_bit 8 x OR ucast (b :: u8)) = 256 * unat x + unat b"
proof -
  have "push_bit 8 x OR ucast b = push_bit 8 x + ucast b"
    by (rule disjunctive_add_eq_or [symmetric]) (auto simp: bit_eq_iff bit_simps dest: bit_imp_le_length)
  moreover have "unat (push_bit 8 x) = 256 * unat x"
    using assms by (simp add: push_bit_eq_mult unat_word_ariths)
  moreover have "unat (ucast b :: u32) = unat b"
    by (simp add: unsigned_ucast_eq take_bit_nat_eq_self less_trans [OF unat_u8])
  moreover have "256 * unat x + unat b < 4294967296" using assms unat_u8 [of b] by linarith
  ultimately show ?thesis by (simp add: unat_word_ariths(1))
qed

lemma unat_be_dec_four:
  "unat (be_dec [a, b, c, d] :: u32) = 16777216 * unat a + 65536 * unat b + 256 * unat c + unat d"
proof -
  let ?s = "\<lambda>x b. push_bit 8 x OR ucast b :: u32"
  have n: "256 * unat a + unat b < 65536" "65536 * unat a + 256 * unat b + unat c < 16777216"
    using unat_u8 [of a] unat_u8 [of b] unat_u8 [of c] by linarith+
  have 1: "unat (?s 0 a) = unat a" using unat_shift_in [of 0 a] by simp
  have 2: "unat (?s (?s 0 a) b) = 256 * unat a + unat b"
    using unat_shift_in [of "?s 0 a" b] 1 less_trans [OF unat_u8, of 16777216 a] by simp
  have 3: "unat (?s (?s (?s 0 a) b) c) = 256 * (256 * unat a + unat b) + unat c"
    using unat_shift_in [of "?s (?s 0 a) b" c] n(1) unfolding 2 by linarith
  have "unat (?s (?s (?s (?s 0 a) b) c) d) = 256 * (256 * (256 * unat a + unat b) + unat c) + unat d"
    using unat_shift_in [of "?s (?s (?s 0 a) b) c" d] n(2) unfolding 3 by simp
  then show ?thesis by (simp add: be_dec_def)
qed

lemma network_mask:
  fixes w :: u32
  assumes "k < 256" and "l < 4096" and "m < 65536"
  shows "w AND 0xff000000 = push_bit 24 (of_nat k) \<longleftrightarrow> unat w div 16777216 = k"
    and "w AND 0xfff00000 = push_bit 20 (of_nat l) \<longleftrightarrow> unat w div 1048576 = l"
    and "w AND 0xffff0000 = push_bit 16 (of_nat m) \<longleftrightarrow> unat w div 65536 = m"
proof -
  have "NOT (mask 24) = (0xff000000 :: u32)" "NOT (mask 20) = (0xfff00000 :: u32)" "NOT (mask 16) = (0xffff0000 :: u32)"
    by code_simp+
  then show "w AND 0xff000000 = push_bit 24 (of_nat k) \<longleftrightarrow> unat w div 16777216 = k"
    "w AND 0xfff00000 = push_bit 20 (of_nat l) \<longleftrightarrow> unat w div 1048576 = l"
    "w AND 0xffff0000 = push_bit 16 (of_nat m) \<longleftrightarrow> unat w div 65536 = m"
    using masked_eq [of k 24 w] masked_eq [of l 20 w] masked_eq [of m 16 w] assms by simp_all
qed

lemma two_digits:
  assumes "y < B" and "b < B"
  shows "B * x + y = B * a + b \<longleftrightarrow> x = a \<and> y = (b :: nat)"
proof
  assume eq: "B * x + y = B * a + b"
  have "x = (B * x + y) div B" "a = (B * a + b) div B" "y = (B * x + y) mod B" "b = (B * a + b) mod B"
    using assms by simp_all
  then show "x = a \<and> y = b" using eq by metis
qed simp

lemma ipv4_private_ranges:
  "ipv4_address_is_private [a, b, c, d] \<longleftrightarrow>
     a = 10 \<or> a = 172 \<and> 16 \<le> b \<and> b \<le> 31 \<or> a = 192 \<and> b = 168 \<or> a = 169 \<and> b = 254 \<or> a = 127"
proof -
  let ?w = "be_dec [a, b, c, d] :: u32"
  have n: "unat a < 256" "unat b < 256" "unat c < 256" "unat d < 256" by simp_all
  have "unat ?w = 65536 * (256 * unat a + unat b) + (256 * unat c + unat d)" unfolding unat_be_dec_four by simp
  moreover have "256 * unat c + unat d < 65536" using n by linarith
  ultimately have h: "unat ?w div 65536 = 256 * unat a + unat b" by simp
  have "unat ?w div 16777216 = unat ?w div 65536 div 256" "unat ?w div 1048576 = unat ?w div 65536 div 16"
    by (simp_all add: div_mult2_eq [symmetric])
  then have w: "unat ?w div 16777216 = unat a" "unat ?w div 1048576 = 16 * unat a + unat b div 16"
    "unat ?w div 65536 = 256 * unat a + unat b"
    using h n(2) by simp_all
  have "ipv4_address_is_private [a, b, c, d] \<longleftrightarrow>
      unat ?w div 16777216 = 10 \<or> unat ?w div 1048576 = 0xac1 \<or> unat ?w div 65536 = 0xc0a8 \<or>
      unat ?w div 65536 = 0xa9fe \<or> unat ?w div 16777216 = 127"
    using network_mask [where w = ?w and k = 10 and l = "0xac1" and m = "0xc0a8"]
      network_mask [where w = ?w and k = 127 and l = "0xac1" and m = "0xa9fe"]
    by (simp add: ipv4_address_is_private_def Let_def)
  also have "\<dots> \<longleftrightarrow> unat a = 10 \<or> unat a = 172 \<and> 16 \<le> unat b \<and> unat b \<le> 31 \<or>
      unat a = 192 \<and> unat b = 168 \<or> unat a = 169 \<and> unat b = 254 \<or> unat a = 127"
  proof -
    have "16 * unat a + unat b div 16 = 0xac1 \<longleftrightarrow> unat a = 172 \<and> unat b div 16 = 1"
      using two_digits [of "unat b div 16" 16 1 "unat a" 172] less_mult_imp_div_less [of "unat b" 16 16] n(2) by simp
    moreover have "unat b div 16 = 1 \<longleftrightarrow> 16 \<le> unat b \<and> unat b \<le> 31" by presburger
    moreover have "256 * unat a + unat b = 0xc0a8 \<longleftrightarrow> unat a = 192 \<and> unat b = 168"
      "256 * unat a + unat b = 0xa9fe \<longleftrightarrow> unat a = 169 \<and> unat b = 254"
      using two_digits [of "unat b" 256 168 "unat a" 192] two_digits [of "unat b" 256 254 "unat a" 169] n(2) by simp_all
    ultimately show ?thesis unfolding w by simp
  qed
  finally show ?thesis by (simp add: word_unat_eq_iff word_le_nat_alt)
qed

end
