(* ===== verification/Nice_Candidate.thy ===== *)
theory Nice_Candidate
  imports Nice_Address
begin

text \<open>
  Candidates (\<open>src/libnice/agent/candidate.c\<close>): their priorities, the priorities of pairs, copies and
  comparisons.  The list of the local addresses of the host and \<open>inet_ntop\<close> are arguments.  The
  underlying socket of a candidate is an opaque number.
\<close>

section \<open>Data\<close>

datatype NiceCandidateType =
    NICE_CANDIDATE_TYPE_HOST
  | NICE_CANDIDATE_TYPE_SERVER_REFLEXIVE
  | NICE_CANDIDATE_TYPE_PEER_REFLEXIVE
  | NICE_CANDIDATE_TYPE_RELAYED

datatype NiceCandidateTransport =
    NICE_CANDIDATE_TRANSPORT_UDP
  | NICE_CANDIDATE_TRANSPORT_TCP_ACTIVE
  | NICE_CANDIDATE_TRANSPORT_TCP_PASSIVE
  | NICE_CANDIDATE_TRANSPORT_TCP_SO

datatype NiceRelayType = NICE_RELAY_TYPE_TURN_UDP | NICE_RELAY_TYPE_TURN_TCP | NICE_RELAY_TYPE_TURN_TLS

text \<open>The reference count and the decoded credentials of a relay server are not read by any function here.\<close>

record TurnServer =
  server :: NiceAddress
  server_address :: "string ptr"
  server_port :: u32
  turn_username :: "string ptr"
  turn_password :: "string ptr"
  relay_type :: NiceRelayType
  preference :: u32
  resolution_failed :: bool

record NiceCandidate =
  type :: NiceCandidateType
  transport :: NiceCandidateTransport
  addr :: NiceAddress
  base_addr :: NiceAddress
  priority :: u32
  stream_id :: u32
  component_id :: u32
  foundation :: string
  username :: "string ptr"
  password :: "string ptr"
  turn :: "TurnServer ptr"
  sockptr :: "nat ptr"
  keepalive_next_tick :: u64
  stun_server :: "NiceAddress ptr"

definition NICE_CANDIDATE_MAX_TURN_SERVERS :: u32 where "NICE_CANDIDATE_MAX_TURN_SERVERS = 8"
definition NICE_CANDIDATE_MAX_LOCAL_ADDRESSES :: u32 where "NICE_CANDIDATE_MAX_LOCAL_ADDRESSES = 64"

definition NICE_CANDIDATE_TYPE_PREF_HOST :: u8 where "NICE_CANDIDATE_TYPE_PREF_HOST = 120"
definition NICE_CANDIDATE_TYPE_PREF_PEER_REFLEXIVE :: u8 where "NICE_CANDIDATE_TYPE_PREF_PEER_REFLEXIVE = 110"
definition NICE_CANDIDATE_TYPE_PREF_NAT_ASSISTED :: u8 where "NICE_CANDIDATE_TYPE_PREF_NAT_ASSISTED = 105"
definition NICE_CANDIDATE_TYPE_PREF_SERVER_REFLEXIVE :: u8 where "NICE_CANDIDATE_TYPE_PREF_SERVER_REFLEXIVE = 100"
definition NICE_CANDIDATE_TYPE_PREF_RELAYED_UDP :: u8 where "NICE_CANDIDATE_TYPE_PREF_RELAYED_UDP = 30"
definition NICE_CANDIDATE_TYPE_PREF_RELAYED :: u8 where "NICE_CANDIDATE_TYPE_PREF_RELAYED = 20"

definition NICE_CANDIDATE_TRANSPORT_MS_PREF_UDP :: u32 where "NICE_CANDIDATE_TRANSPORT_MS_PREF_UDP = 15"
definition NICE_CANDIDATE_TRANSPORT_MS_PREF_TCP :: u32 where "NICE_CANDIDATE_TRANSPORT_MS_PREF_TCP = 6"
definition NICE_CANDIDATE_DIRECTION_MS_PREF_PASSIVE :: u32 where "NICE_CANDIDATE_DIRECTION_MS_PREF_PASSIVE = 2"
definition NICE_CANDIDATE_DIRECTION_MS_PREF_ACTIVE :: u32 where "NICE_CANDIDATE_DIRECTION_MS_PREF_ACTIVE = 5"

lemmas pref_defs = NICE_CANDIDATE_MAX_TURN_SERVERS_def NICE_CANDIDATE_MAX_LOCAL_ADDRESSES_def
  NICE_CANDIDATE_TYPE_PREF_HOST_def NICE_CANDIDATE_TYPE_PREF_PEER_REFLEXIVE_def NICE_CANDIDATE_TYPE_PREF_NAT_ASSISTED_def
  NICE_CANDIDATE_TYPE_PREF_SERVER_REFLEXIVE_def NICE_CANDIDATE_TYPE_PREF_RELAYED_UDP_def NICE_CANDIDATE_TYPE_PREF_RELAYED_def
  NICE_CANDIDATE_TRANSPORT_MS_PREF_UDP_def NICE_CANDIDATE_TRANSPORT_MS_PREF_TCP_def
  NICE_CANDIDATE_DIRECTION_MS_PREF_PASSIVE_def NICE_CANDIDATE_DIRECTION_MS_PREF_ACTIVE_def

definition g_assert :: "bool \<Rightarrow> unit option" where
  "g_assert c = (if c then Some () else None)"

section \<open>Candidates\<close>

definition nice_candidate_new :: "NiceCandidateType \<Rightarrow> NiceCandidate" where
  "nice_candidate_new t =
     \<lparr>type = t, transport = NICE_CANDIDATE_TRANSPORT_UDP, addr = Addr_other 0, base_addr = Addr_other 0, priority = 0,
      stream_id = 0, component_id = 0, foundation = '''', username = Null, password = Null, turn = Null, sockptr = Null,
      keepalive_next_tick = 0, stun_server = Null\<rparr>"

definition nice_candidate_jingle_priority :: "NiceCandidate \<Rightarrow> u32" where
  "nice_candidate_jingle_priority candidate = (case type candidate of
     NICE_CANDIDATE_TYPE_HOST \<Rightarrow> 1000 | NICE_CANDIDATE_TYPE_SERVER_REFLEXIVE \<Rightarrow> 900
   | NICE_CANDIDATE_TYPE_PEER_REFLEXIVE \<Rightarrow> 900 | NICE_CANDIDATE_TYPE_RELAYED \<Rightarrow> 500)"

definition nice_candidate_msn_priority :: "NiceCandidate \<Rightarrow> u32" where
  "nice_candidate_msn_priority candidate = (case type candidate of
     NICE_CANDIDATE_TYPE_HOST \<Rightarrow> 830 | NICE_CANDIDATE_TYPE_SERVER_REFLEXIVE \<Rightarrow> 550
   | NICE_CANDIDATE_TYPE_PEER_REFLEXIVE \<Rightarrow> 550 | NICE_CANDIDATE_TYPE_RELAYED \<Rightarrow> 450)"

definition nice_candidate_ice_priority_full :: "u32 \<Rightarrow> u32 \<Rightarrow> u32 \<Rightarrow> u32" where
  "nice_candidate_ice_priority_full type_preference local_preference component =
     0x1000000 * type_preference + 0x100 * local_preference + (0x100 - component)"

definition nice_candidate_ice_local_preference_full :: "u32 \<Rightarrow> u32 \<Rightarrow> u32 \<Rightarrow> u16 option" where
  "nice_candidate_ice_local_preference_full direction_preference turn_preference other_preference = do {
     g_assert (other_preference < NICE_CANDIDATE_MAX_LOCAL_ADDRESSES);
     g_assert (turn_preference < NICE_CANDIDATE_MAX_TURN_SERVERS);
     g_assert (direction_preference < 8);
     Some (ucast (push_bit 13 direction_preference + push_bit 6 turn_preference + other_preference))
   }"

text \<open>The loop over the local addresses; the scope of an IPv6 address is cut off.\<close>

fun ip_position :: "string \<Rightarrow> string list \<Rightarrow> u32 \<Rightarrow> u32" where
  "ip_position ip_string [] pos = pos"
| "ip_position ip_string (ip # ips) pos =
     (if ip \<noteq> [] \<and> takeWhile (\<lambda>c. c \<noteq> CHR ''%'') ip = ip_string then pos else ip_position ip_string ips (pos + 1))"

definition nice_candidate_ip_local_preference :: "(bytes \<Rightarrow> string) \<Rightarrow> string list \<Rightarrow> NiceCandidate \<Rightarrow> u32 option" where
  "nice_candidate_ip_local_preference inet_ntop ips candidate = do {
     ip_string \<leftarrow> (if type candidate = NICE_CANDIDATE_TYPE_HOST then nice_address_to_string inet_ntop (addr candidate) None
                   else nice_address_to_string inet_ntop (base_addr candidate) None);
     Some (ip_position ip_string ips 0)
   }"

definition is_direct :: "NiceCandidate \<Rightarrow> bool" where
  "is_direct candidate \<longleftrightarrow> type candidate = NICE_CANDIDATE_TYPE_SERVER_REFLEXIVE \<or> type candidate = NICE_CANDIDATE_TYPE_HOST"

definition direction_preference :: "NiceCandidate \<Rightarrow> u32" where
  "direction_preference candidate = (case transport candidate of
     NICE_CANDIDATE_TRANSPORT_TCP_ACTIVE \<Rightarrow> if is_direct candidate then 4 else 6
   | NICE_CANDIDATE_TRANSPORT_TCP_PASSIVE \<Rightarrow> if is_direct candidate then 2 else 4
   | NICE_CANDIDATE_TRANSPORT_TCP_SO \<Rightarrow> if is_direct candidate then 6 else 2
   | NICE_CANDIDATE_TRANSPORT_UDP \<Rightarrow> 1)"

definition turn_preference :: "NiceCandidate \<Rightarrow> u32 option" where
  "turn_preference candidate =
     (if type candidate = NICE_CANDIDATE_TYPE_RELAYED
      then (case turn candidate of Null \<Rightarrow> None | Ptr t \<Rightarrow> Some (preference t))
      else Some 0)"

definition nice_candidate_ice_local_preference :: "(bytes \<Rightarrow> string) \<Rightarrow> string list \<Rightarrow> NiceCandidate \<Rightarrow> u16 option" where
  "nice_candidate_ice_local_preference inet_ntop ips candidate = do {
     tp \<leftarrow> turn_preference candidate;
     ip \<leftarrow> nice_candidate_ip_local_preference inet_ntop ips candidate;
     nice_candidate_ice_local_preference_full (direction_preference candidate) tp ip
   }"

definition nice_candidate_ms_ice_local_preference_full :: "u32 \<Rightarrow> u32 \<Rightarrow> u32 \<Rightarrow> u32 \<Rightarrow> u16 option" where
  "nice_candidate_ms_ice_local_preference_full transport_preference direction turn_pref other_preference = do {
     g_assert (other_preference < NICE_CANDIDATE_MAX_LOCAL_ADDRESSES);
     g_assert (turn_pref < NICE_CANDIDATE_MAX_TURN_SERVERS);
     g_assert (direction < 8);
     g_assert (transport_preference < 16);
     Some (ucast (push_bit 12 transport_preference + push_bit 9 direction + push_bit 6 turn_pref + other_preference))
   }"

definition ms_preferences :: "NiceCandidate \<Rightarrow> u32 \<times> u32" where
  "ms_preferences candidate = (case transport candidate of
     NICE_CANDIDATE_TRANSPORT_TCP_SO \<Rightarrow> (NICE_CANDIDATE_TRANSPORT_MS_PREF_TCP, NICE_CANDIDATE_DIRECTION_MS_PREF_ACTIVE)
   | NICE_CANDIDATE_TRANSPORT_TCP_ACTIVE \<Rightarrow> (NICE_CANDIDATE_TRANSPORT_MS_PREF_TCP, NICE_CANDIDATE_DIRECTION_MS_PREF_ACTIVE)
   | NICE_CANDIDATE_TRANSPORT_TCP_PASSIVE \<Rightarrow> (NICE_CANDIDATE_TRANSPORT_MS_PREF_TCP, NICE_CANDIDATE_DIRECTION_MS_PREF_PASSIVE)
   | NICE_CANDIDATE_TRANSPORT_UDP \<Rightarrow> (NICE_CANDIDATE_TRANSPORT_MS_PREF_UDP, 0))"

definition nice_candidate_ms_ice_local_preference :: "(bytes \<Rightarrow> string) \<Rightarrow> string list \<Rightarrow> NiceCandidate \<Rightarrow> u32 option" where
  "nice_candidate_ms_ice_local_preference inet_ntop ips candidate = do {
     tp \<leftarrow> turn_preference candidate;
     ip \<leftarrow> nice_candidate_ip_local_preference inet_ntop ips candidate;
     let (transport_preference, direction) = ms_preferences candidate;
     map_option ucast (nice_candidate_ms_ice_local_preference_full transport_preference direction tp ip)
   }"

definition nice_candidate_ice_type_preference :: "NiceCandidate \<Rightarrow> bool \<Rightarrow> bool \<Rightarrow> u8 option" where
  "nice_candidate_ice_type_preference candidate reliable nat_assisted = do {
     type_preference \<leftarrow> (case type candidate of
        NICE_CANDIDATE_TYPE_HOST \<Rightarrow> Some NICE_CANDIDATE_TYPE_PREF_HOST
      | NICE_CANDIDATE_TYPE_PEER_REFLEXIVE \<Rightarrow> Some NICE_CANDIDATE_TYPE_PREF_PEER_REFLEXIVE
      | NICE_CANDIDATE_TYPE_SERVER_REFLEXIVE \<Rightarrow>
          Some (if nat_assisted then NICE_CANDIDATE_TYPE_PREF_NAT_ASSISTED else NICE_CANDIDATE_TYPE_PREF_SERVER_REFLEXIVE)
      | NICE_CANDIDATE_TYPE_RELAYED \<Rightarrow>
          (case turn candidate of Null \<Rightarrow> None
           | Ptr t \<Rightarrow> Some (if relay_type t = NICE_RELAY_TYPE_TURN_UDP then NICE_CANDIDATE_TYPE_PREF_RELAYED_UDP
                           else NICE_CANDIDATE_TYPE_PREF_RELAYED)));
     Some (if reliable \<and> transport candidate = NICE_CANDIDATE_TRANSPORT_UDP \<or>
              \<not> reliable \<and> transport candidate \<noteq> NICE_CANDIDATE_TRANSPORT_UDP
           then type_preference div 2 else type_preference)
   }"

definition nice_candidate_ice_priority :: "(bytes \<Rightarrow> string) \<Rightarrow> string list \<Rightarrow> NiceCandidate \<Rightarrow> bool \<Rightarrow> bool \<Rightarrow> u32 option" where
  "nice_candidate_ice_priority inet_ntop ips candidate reliable nat_assisted = do {
     type_preference \<leftarrow> nice_candidate_ice_type_preference candidate reliable nat_assisted;
     local_preference \<leftarrow> nice_candidate_ice_local_preference inet_ntop ips candidate;
     Some (nice_candidate_ice_priority_full (ucast type_preference) (ucast local_preference) (component_id candidate))
   }"

definition nice_candidate_ms_ice_priority :: "(bytes \<Rightarrow> string) \<Rightarrow> string list \<Rightarrow> NiceCandidate \<Rightarrow> bool \<Rightarrow> bool \<Rightarrow> u32 option" where
  "nice_candidate_ms_ice_priority inet_ntop ips candidate reliable nat_assisted = do {
     type_preference \<leftarrow> nice_candidate_ice_type_preference candidate reliable nat_assisted;
     local_preference \<leftarrow> nice_candidate_ms_ice_local_preference inet_ntop ips candidate;
     Some (nice_candidate_ice_priority_full (ucast type_preference) (ucast (ucast local_preference :: u16)) (component_id candidate))
   }"

section \<open>Pairs\<close>

text \<open>The product \<open>2 * max\<close> is taken in 32 bits.\<close>

definition nice_candidate_pair_priority :: "u32 \<Rightarrow> u32 \<Rightarrow> u64" where
  "nice_candidate_pair_priority o_prio a_prio =
     (let mx = (if o_prio > a_prio then o_prio else a_prio);
          mn = (if o_prio < a_prio then o_prio else a_prio)
      in push_bit 32 1 * ucast mn + ucast (2 * mx) + (if o_prio > a_prio then 1 else 0))"

definition agent_candidate_pair_priority :: "bool \<Rightarrow> NiceCandidate \<Rightarrow> NiceCandidate \<Rightarrow> u64" where
  "agent_candidate_pair_priority controlling_mode local remote =
     (if controlling_mode then nice_candidate_pair_priority (priority local) (priority remote)
      else nice_candidate_pair_priority (priority remote) (priority local))"

text \<open>The formats \<open>%08x\<close> and \<open>%u\<close>, the latter for one bit; the at most 19 characters fit the buffer of 32.\<close>

definition digit :: "nat \<Rightarrow> char" where
  "digit n = char_of (if n < 10 then 48 + n else 87 + n)"

fun hex_string :: "nat \<Rightarrow> string" where
  "hex_string n = (if n < 16 then [digit n] else hex_string (n div 16) @ [digit (n mod 16)])"

definition hex8 :: "nat \<Rightarrow> string" where
  "hex8 n = replicate (8 - length (hex_string n)) (CHR ''0'') @ hex_string n"

definition nice_candidate_pair_priority_to_string :: "u64 \<Rightarrow> string" where
  "nice_candidate_pair_priority_to_string prio =
     hex8 (unat (drop_bit 32 prio)) @ '':'' @ hex8 (unat (drop_bit 1 prio AND 0x7fffffff)) @ '':'' @ [digit (unat (prio AND 1))]"

declare hex_string.simps [simp del]

section \<open>Copies and comparisons\<close>

definition nice_candidate_copy :: "NiceCandidate ptr \<Rightarrow> NiceCandidate ptr" where
  "nice_candidate_copy candidate = (case candidate of Null \<Rightarrow> Null | Ptr c \<Rightarrow> Ptr (c\<lparr>turn := Null\<rparr>))"

definition nice_candidate_equal_target :: "NiceCandidate ptr \<Rightarrow> NiceCandidate ptr \<Rightarrow> bool" where
  "nice_candidate_equal_target candidate1 candidate2 =
     (case (candidate1, candidate2) of
        (Ptr c, Ptr d) \<Rightarrow> transport c = transport d \<and> nice_address_equal (addr c) (addr d)
      | _ \<Rightarrow> False)"

primrec nice_candidate_type_to_string :: "NiceCandidateType \<Rightarrow> string" where
  "nice_candidate_type_to_string NICE_CANDIDATE_TYPE_HOST = ''host''"
| "nice_candidate_type_to_string NICE_CANDIDATE_TYPE_SERVER_REFLEXIVE = ''srflx''"
| "nice_candidate_type_to_string NICE_CANDIDATE_TYPE_PEER_REFLEXIVE = ''prflx''"
| "nice_candidate_type_to_string NICE_CANDIDATE_TYPE_RELAYED = ''relay''"

primrec nice_candidate_transport_to_string :: "NiceCandidateTransport \<Rightarrow> string" where
  "nice_candidate_transport_to_string NICE_CANDIDATE_TRANSPORT_UDP = ''udp''"
| "nice_candidate_transport_to_string NICE_CANDIDATE_TRANSPORT_TCP_ACTIVE = ''tcp-act''"
| "nice_candidate_transport_to_string NICE_CANDIDATE_TRANSPORT_TCP_PASSIVE = ''tcp-pass''"
| "nice_candidate_transport_to_string NICE_CANDIDATE_TRANSPORT_TCP_SO = ''tcp-so''"

text \<open>The new value of \<open>*addr\<close>; the early return of \<open>g_return_if_fail\<close> leaves it.\<close>

definition nice_candidate_relay_address :: "NiceCandidate ptr \<Rightarrow> NiceAddress \<Rightarrow> NiceAddress option" where
  "nice_candidate_relay_address candidate a =
     (case candidate of Null \<Rightarrow> Some a
      | Ptr c \<Rightarrow> if type c \<noteq> NICE_CANDIDATE_TYPE_RELAYED then Some a
                 else (case turn c of Null \<Rightarrow> None | Ptr t \<Rightarrow> Some (server t)))"

definition nice_candidate_stun_server_address :: "NiceCandidate ptr \<Rightarrow> NiceAddress \<Rightarrow> bool \<times> NiceAddress" where
  "nice_candidate_stun_server_address candidate a =
     (case candidate of Null \<Rightarrow> (False, a)
      | Ptr c \<Rightarrow> if type c \<noteq> NICE_CANDIDATE_TYPE_SERVER_REFLEXIVE then (False, a)
                 else (case stun_server c of Null \<Rightarrow> (False, a) | Ptr s \<Rightarrow> (True, s)))"

section \<open>The priorities of pairs\<close>

lemma unat_double: "unat (ucast (2 * (x :: u32)) :: u64) = 2 * unat x - (if 0x80000000 \<le> x then 4294967296 else 0)"
proof -
  have x: "unat x < 4294967296" by (rule unat_u32_less)
  have "unat (2 * x) = 2 * unat x mod 4294967296" by (simp add: unat_word_ariths)
  also have "\<dots> = 2 * unat x - (if 0x80000000 \<le> x then 4294967296 else 0)"
    using x by (auto simp: word_le_nat_alt mod_if)
  finally show ?thesis using x by (simp add: unsigned_ucast_eq take_bit_nat_eq_self split: if_splits)
qed

text \<open>The formula of the specification, less \<open>2 ^ 32\<close> where the greater priority is \<open>2 ^ 31\<close> or more.\<close>

lemma pair_priority_full:
  "unat (nice_candidate_pair_priority p q) =
    4294967296 * min (unat p) (unat q) + 2 * max (unat p) (unat q) + (if p > q then 1 else 0) -
    (if 0x80000000 \<le> max p q then 4294967296 else 0)"
proof -
  define mx mn where "mx = (if p > q then p else q)" and "mn = (if p < q then p else q)"
  define b :: u64 where "b = (if p > q then 1 else 0)"
  have m: "unat mx = max (unat p) (unat q)" "unat mn = min (unat p) (unat q)" "mx = max p q"
    by (auto simp: mx_def mn_def word_less_nat_alt max_def word_le_nat_alt)
  have n: "unat mn \<le> 4294967295" "unat mx \<le> 4294967295"
    using unat_u32_less [of mn] unat_u32_less [of mx] by simp_all
  define d where "d = 2 * unat mx - (if 0x80000000 \<le> mx then 4294967296 else 0)"
  have d: "d \<le> 4294967294" "d + (if 0x80000000 \<le> mx then 4294967296 else 0) = 2 * unat mx"
    using n(2) by (auto simp: d_def word_le_nat_alt split: if_splits)
  have "unat (push_bit 32 1 * ucast mn :: u64) = 4294967296 * unat mn"
    using n(1) by (simp add: unat_word_ariths unsigned_ucast_eq take_bit_nat_eq_self)
  moreover have "unat b = (if p > q then 1 else 0)" by (simp add: b_def)
  moreover have "unat (ucast (2 * mx) :: u64) = d" by (simp only: unat_double d_def)
  ultimately have "unat (push_bit 32 1 * ucast mn + ucast (2 * mx) + b) =
      4294967296 * unat mn + d + (if p > q then 1 else 0)"
    using n(1) d(1) by (simp add: unat_word_ariths(1))
  then show ?thesis
    using d(2) unfolding nice_candidate_pair_priority_def Let_def mx_def [symmetric] mn_def [symmetric] b_def [symmetric] m(1,2) m(3) [symmetric]
    by (simp split: if_splits)
qed

lemma pair_priority_value:
  assumes "p < 0x80000000" and "q < 0x80000000"
  shows "unat (nice_candidate_pair_priority p q) =
    4294967296 * min (unat p) (unat q) + (2 * max (unat p) (unat q) + (if p > q then 1 else 0))"
proof -
  have "\<not> 0x80000000 \<le> max p q" using assms by (simp add: max_def not_le)
  then show ?thesis by (simp add: pair_priority_full)
qed

lemma pair_priority_less:
  assumes "p < 0x80000000" and "q < 0x80000000" and "p' < 0x80000000" and "q' < 0x80000000"
  shows "nice_candidate_pair_priority p q < nice_candidate_pair_priority p' q' \<longleftrightarrow>
    min p q < min p' q' \<or> min p q = min p' q' \<and>
      (max p q < max p' q' \<or> max p q = max p' q' \<and> p \<le> q \<and> q' < p')"
proof -
  have digits: "4294967296 * x + (2 * y + u) < 4294967296 * x' + (2 * y' + u') \<longleftrightarrow>
      x < x' \<or> x = x' \<and> (y < y' \<or> y = y' \<and> u < u')"
    if "u \<le> 1" "u' \<le> 1" "y < 2147483648" "y' < 2147483648" for x y u x' y' u' :: nat
  proof -
    consider "x < x'" | "x = x'" | "x' < x" by linarith
    then show ?thesis
    proof cases
      case 1
      then have "4294967296 * x + 4294967296 \<le> 4294967296 * x'" by simp
      then show ?thesis using that 1 by linarith
    next
      case 2
      then show ?thesis using that by auto
    next
      case 3
      then have "4294967296 * x' + 4294967296 \<le> 4294967296 * x" by simp
      then show ?thesis using that 3 by linarith
    qed
  qed
  have c: "(if p > q then 1 else 0 :: nat) < (if p' > q' then 1 else 0) \<longleftrightarrow> p \<le> q \<and> q' < p'" by auto
  have "unat p < 2147483648" "unat q < 2147483648" "unat p' < 2147483648" "unat q' < 2147483648"
    using assms by (simp_all add: word_less_nat_alt)
  then have "unat (nice_candidate_pair_priority p q) < unat (nice_candidate_pair_priority p' q') \<longleftrightarrow>
    min (unat p) (unat q) < min (unat p') (unat q') \<or> min (unat p) (unat q) = min (unat p') (unat q') \<and>
      (max (unat p) (unat q) < max (unat p') (unat q') \<or> max (unat p) (unat q) = max (unat p') (unat q') \<and>
       p \<le> q \<and> q' < p')"
    unfolding c [symmetric] pair_priority_value [OF assms(1,2)] pair_priority_value [OF assms(3,4)]
    by (intro digits) auto
  moreover have "min (unat x) (unat y) = unat (min x y)" "max (unat x) (unat y) = unat (max x y)" for x y :: u32
    by (auto simp: min_def max_def word_le_nat_alt)
  ultimately show ?thesis
    by (simp only: word_less_nat_alt [symmetric] word_unat_eq_iff [symmetric])
qed

text \<open>C6. The two agents agree on the order of the pairs: a pair has the same priority on either side, and for
  priorities below \<open>2 ^ 31\<close> pairs are ordered by the smaller priority of their candidates, then by the
  greater one, then by which of the two the controlling side has.\<close>

theorem pair_order_agreed:
  assumes "priority l < 0x80000000" and "priority r < 0x80000000" and "priority l' < 0x80000000" and "priority r' < 0x80000000"
  shows "agent_candidate_pair_priority True l r = agent_candidate_pair_priority False r l \<and>
    (agent_candidate_pair_priority True l r < agent_candidate_pair_priority True l' r' \<longleftrightarrow>
      min (priority l) (priority r) < min (priority l') (priority r') \<or>
      min (priority l) (priority r) = min (priority l') (priority r') \<and>
        (max (priority l) (priority r) < max (priority l') (priority r') \<or>
         max (priority l) (priority r) = max (priority l') (priority r') \<and> priority l \<le> priority r \<and> priority r' < priority l'))"
  using pair_priority_less [OF assms] by (simp_all add: agent_candidate_pair_priority_def)

theorem pair_order_agreed_witness:
  "let c = (\<lambda>p. (nice_candidate_new NICE_CANDIDATE_TYPE_HOST)\<lparr>priority := p\<rparr>)
   in agent_candidate_pair_priority True (c 5) (c 9) = agent_candidate_pair_priority False (c 9) (c 5) \<and>
      agent_candidate_pair_priority True (c 5) (c 9) < agent_candidate_pair_priority True (c 9) (c 5)"
proof -
  let ?c = "\<lambda>p. (nice_candidate_new NICE_CANDIDATE_TYPE_HOST)\<lparr>priority := p\<rparr>"
  have "priority (?c 5) < 0x80000000" "priority (?c 9) < 0x80000000" by simp_all
  from pair_order_agreed [OF this this(2,1)]
  have "agent_candidate_pair_priority True (?c 5) (?c 9) = agent_candidate_pair_priority False (?c 9) (?c 5) \<and>
    agent_candidate_pair_priority True (?c 5) (?c 9) < agent_candidate_pair_priority True (?c 9) (?c 5)" by auto
  then show ?thesis unfolding Let_def .
qed

text \<open>C39. The priority of a pair, for all priorities of its candidates: it is
  \<open>2 ^ 32 * min + 2 * max + (1 if the controlling side has the greater one)\<close>, the formula of the specification, but smaller by
  \<open>2 ^ 32\<close> exactly where the greater priority is \<open>2 ^ 31\<close> or more, because \<open>2 * max\<close> is computed in 32 bits.  So
  a pair whose remote priority is \<open>2 ^ 31\<close> is ordered behind one whose remote priority is \<open>2 ^ 31 - 1\<close>.\<close>

theorem pair_priority_wraps:
  "unat (nice_candidate_pair_priority p q) =
    2 ^ 32 * min (unat p) (unat q) + 2 * max (unat p) (unat q) + (if p > q then 1 else 0) -
      (if 2 ^ 31 \<le> max (unat p) (unat q) then 2 ^ 32 else 0) \<and>
   nice_candidate_pair_priority 0x80000000 5 < nice_candidate_pair_priority 0x7fffffff 5"
proof -
  have "0x80000000 \<le> max p q \<longleftrightarrow> (2147483648 :: nat) \<le> max (unat p) (unat q)"
    by (auto simp: max_def word_le_nat_alt)
  moreover have "nice_candidate_pair_priority 0x80000000 5 < nice_candidate_pair_priority 0x7fffffff 5"
    by (simp add: word_less_nat_alt pair_priority_full)
  ultimately show ?thesis by (simp add: pair_priority_full)
qed

section \<open>The priorities of candidates\<close>

lemma g_assert_Some [simp]: "g_assert c = Some u \<longleftrightarrow> c"
  by (simp add: g_assert_def)

lemma local_preference_value:
  assumes "nice_candidate_ice_local_preference_full d t i = Some w"
  shows "unat w = 8192 * unat d + (64 * unat t + unat i) \<and> unat d < 8 \<and> unat t < 8 \<and> unat i < 64"
proof -
  have b: "unat d < 8" "unat t < 8" "unat i < 64"
    and w: "w = ucast (push_bit 13 d + push_bit 6 t + i)"
    using assms by (auto simp: nice_candidate_ice_local_preference_full_def pref_defs bind_eq_Some_conv word_less_nat_alt)
  have "unat (push_bit 13 d) = 8192 * unat d" "unat (push_bit 6 t) = 64 * unat t"
    using b by (simp_all add: push_bit_eq_mult unat_word_ariths)
  then have "unat (push_bit 13 d + push_bit 6 t + i) = 8192 * unat d + 64 * unat t + unat i"
    using b by (simp add: unat_word_ariths(1))
  then show ?thesis using b by (simp add: w unsigned_ucast_eq take_bit_nat_eq_self)
qed

lemma type_preference_value:
  assumes "nice_candidate_ice_type_preference c r n = Some t"
  shows "unat t \<le> 120 \<and> 10 \<le> unat t"
  using assms by (auto simp: nice_candidate_ice_type_preference_def bind_eq_Some_conv pref_defs unat_div
      split: NiceCandidateType.splits ptr.splits if_splits)

lemma priority_full_value:
  assumes "unat (t :: u8) \<le> 120" and "1 \<le> unat c" and "unat c \<le> 256"
  shows "unat (nice_candidate_ice_priority_full (ucast t) (ucast (l :: u16)) c) =
    16777216 * unat t + (256 * unat l + (256 - unat c))"
proof -
  have m: "256 * unat l mod 4294967296 = 256 * unat l"
    "(16777216 * unat t + 256 * unat l) mod 4294967296 = 16777216 * unat t + 256 * unat l"
    "(16777216 * unat t + 256 * unat l + (256 - unat c)) mod 4294967296 = 16777216 * unat t + 256 * unat l + (256 - unat c)"
    using unat_u16 [of l] assms(1) by (intro mod_less; linarith)+
  have u: "unat (ucast t :: u32) = unat t" "unat (ucast l :: u32) = unat l"
    by (simp_all add: unsigned_ucast_eq take_bit_nat_eq_self less_trans [OF unat_u8] less_trans [OF unat_u16])
  have "unat (0x1000000 * (ucast t :: u32)) = 16777216 * unat t" "unat (0x100 * (ucast l :: u32)) = 256 * unat l"
    using assms(1) by (simp_all add: unat_word_ariths u m)
  moreover have "unat (0x100 - c) = 256 - unat c" using assms(3) by (simp add: unat_sub word_le_nat_alt)
  ultimately show ?thesis
    by (simp add: nice_candidate_ice_priority_full_def unat_word_ariths(1) m)
qed

lemma ice_priority_parts:
  assumes "nice_candidate_ice_priority inet_ntop ips c rel na = Some p" and "1 \<le> component_id c" and "component_id c \<le> 256"
  obtains t tp i where "nice_candidate_ice_type_preference c rel na = Some t" and "turn_preference c = Some tp"
    and "nice_candidate_ip_local_preference inet_ntop ips c = Some i"
    and "unat p = 16777216 * unat t + (256 * (8192 * unat (direction_preference c) + (64 * unat tp + unat i)) + (256 - unat (component_id c)))"
    and "10 \<le> unat t" and "unat t \<le> 120" and "unat (direction_preference c) < 8" and "unat tp < 8" and "unat i < 64"
proof -
  obtain t tp i w where t: "nice_candidate_ice_type_preference c rel na = Some t" "turn_preference c = Some tp"
    "nice_candidate_ip_local_preference inet_ntop ips c = Some i"
    and w: "nice_candidate_ice_local_preference_full (direction_preference c) tp i = Some w"
    and p: "p = nice_candidate_ice_priority_full (ucast t) (ucast w) (component_id c)"
    using assms(1) by (auto simp: nice_candidate_ice_priority_def nice_candidate_ice_local_preference_def bind_eq_Some_conv)
  have "unat p = 16777216 * unat t + (256 * unat w + (256 - unat (component_id c)))"
    unfolding p using type_preference_value [OF t(1)] assms(2,3)
    by (intro priority_full_value) (simp_all add: word_le_nat_alt)
  then show thesis using that t type_preference_value [OF t(1)] local_preference_value [OF w] by simp
qed

text \<open>C14. The priorities of candidates are unique: where they are equal the candidates have the same component, the
  same preference of type and of direction, the same TURN server preference and the same local address; and
  they stay below \<open>2 ^ 31\<close>.\<close>

theorem ice_priority_unique:
  assumes "nice_candidate_ice_priority inet_ntop ips c rel na = Some p" and "1 \<le> component_id c" and "component_id c \<le> 256"
    and "nice_candidate_ice_priority inet_ntop ips c' rel' na' = Some p" and "1 \<le> component_id c'" and "component_id c' \<le> 256"
  shows "0 < p \<and> p < 0x7f000000 \<and> component_id c = component_id c' \<and>
    nice_candidate_ice_type_preference c rel na = nice_candidate_ice_type_preference c' rel' na' \<and>
    direction_preference c = direction_preference c' \<and> turn_preference c = turn_preference c' \<and>
    nice_candidate_ip_local_preference inet_ntop ips c = nice_candidate_ip_local_preference inet_ntop ips c'"
proof -
  obtain t tp i where 1: "nice_candidate_ice_type_preference c rel na = Some t" "turn_preference c = Some tp"
    "nice_candidate_ip_local_preference inet_ntop ips c = Some i"
    "unat p = 16777216 * unat t + (256 * (8192 * unat (direction_preference c) + (64 * unat tp + unat i)) + (256 - unat (component_id c)))"
    "10 \<le> unat t" "unat t \<le> 120" "unat (direction_preference c) < 8" "unat tp < 8" "unat i < 64"
    using ice_priority_parts [OF assms(1-3)] by metis
  obtain t' tp' i' where 2: "nice_candidate_ice_type_preference c' rel' na' = Some t'" "turn_preference c' = Some tp'"
    "nice_candidate_ip_local_preference inet_ntop ips c' = Some i'"
    "unat p = 16777216 * unat t' + (256 * (8192 * unat (direction_preference c') + (64 * unat tp' + unat i')) + (256 - unat (component_id c')))"
    "10 \<le> unat t'" "unat t' \<le> 120" "unat (direction_preference c') < 8" "unat tp' < 8" "unat i' < 64"
    using ice_priority_parts [OF assms(4-6)] by metis
  have c: "1 \<le> unat (component_id c)" "unat (component_id c) \<le> 256" "1 \<le> unat (component_id c')" "unat (component_id c') \<le> 256"
    using assms by (simp_all add: word_le_nat_alt)
  define x x' where "x = 64 * unat tp + unat i" and "x' = 64 * unat tp' + unat i'"
  have x: "x < 512" "x' < 512" using 1 2 by (auto simp: x_def x'_def)
  define y y' where "y = 8192 * unat (direction_preference c) + x" and "y' = 8192 * unat (direction_preference c') + x'"
  have y: "y < 65536" "y' < 65536" using 1 2 x unfolding y_def y'_def by linarith+
  define z z' where "z = 256 * y + (256 - unat (component_id c))" and "z' = 256 * y' + (256 - unat (component_id c'))"
  have z: "z < 16777216" "z' < 16777216" using y c unfolding z_def z'_def by linarith+
  have "16777216 * unat t + z = 16777216 * unat t' + z'" using 1(4) 2(4) by (simp add: z_def z'_def y_def y'_def x_def x'_def)
  then have e1: "unat t = unat t'" "z = z'" using two_digits [OF z] by blast+
  have e2: "y = y'" "256 - unat (component_id c) = 256 - unat (component_id c')"
    using two_digits [of "256 - unat (component_id c)" 256 "256 - unat (component_id c')" y y'] e1(2) c by (auto simp: z_def z'_def)
  have e3: "unat (direction_preference c) = unat (direction_preference c')" "x = x'"
    using two_digits [of x 8192 x'] e2(1) x by (auto simp: y_def y'_def)
  have e4: "unat tp = unat tp'" "unat i = unat i'"
    using two_digits [of "unat i" 64 "unat i'"] e3(2) 1 2 by (auto simp: x_def x'_def)
  have "0 < unat p" "unat p < 2130706432"
    using 1(4-6) z(1) unfolding z_def y_def x_def by linarith+
  moreover have "unat (component_id c) = unat (component_id c')" using e2(2) c by linarith
  ultimately show ?thesis
    using 1(1-3) 2(1-3) e1(1) e3(1) e4 by (simp add: word_unat_eq_iff word_less_nat_alt)
qed

text \<open>A host candidate of the only local address.\<close>

definition example_candidate :: NiceCandidate where
  "example_candidate = (nice_candidate_new NICE_CANDIDATE_TYPE_HOST)
     \<lparr>addr := Addr_ip4 [10, 0, 0, 1] [0, 9], base_addr := Addr_ip4 [10, 0, 0, 1] [0, 9], component_id := 1\<rparr>"

theorem ice_priority_unique_witness:
  "let c = example_candidate; c' = example_candidate\<lparr>foundation := ''1''\<rparr>; ntop = (\<lambda>_. ''10.0.0.1''); ips = [''10.0.0.1'']
   in nice_candidate_ice_priority ntop ips c False False = Some 2015363327 \<and>
      nice_candidate_ice_priority ntop ips c' False False = Some 2015363327 \<and> 2015363327 < (0x7f000000 :: u32) \<and>
      direction_preference c = direction_preference c'"
proof -
  let ?c = example_candidate
  let ?c' = "example_candidate\<lparr>foundation := ''1''\<rparr>"
  have p: "nice_candidate_ice_priority (\<lambda>_. ''10.0.0.1'') [''10.0.0.1''] ?c False False = Some 2015363327"
    "nice_candidate_ice_priority (\<lambda>_. ''10.0.0.1'') [''10.0.0.1''] ?c' False False = Some 2015363327"
    by code_simp+
  have "1 \<le> component_id ?c" "component_id ?c \<le> 256" "1 \<le> component_id ?c'" "component_id ?c' \<le> 256"
    by (simp_all add: example_candidate_def)
  from ice_priority_unique [OF p(1) this(1,2) p(2) this(3,4)] p show ?thesis unfolding Let_def by blast
qed

text \<open>The position of an address is the number of entries in front of the first that matches it.\<close>

definition ip_matches :: "string \<Rightarrow> string \<Rightarrow> bool" where
  "ip_matches s ip \<longleftrightarrow> ip \<noteq> [] \<and> takeWhile (\<lambda>c. c \<noteq> CHR ''%'') ip = s"

lemma ip_position_value:
  assumes "unat pos + length ips < 4294967296"
  shows "unat (ip_position s ips pos) = unat pos + length (takeWhile (\<lambda>ip. \<not> ip_matches s ip) ips)"
  using assms
proof (induction ips arbitrary: pos)
  case (Cons ip ips)
  have "unat (pos + 1) = unat pos + 1" using Cons.prems by (simp add: unat_word_ariths(1))
  then show ?case using Cons.IH [of "pos + 1"] Cons.prems by (auto simp: ip_matches_def)
qed simp

lemma takeWhile_far: "n \<le> length (takeWhile P xs) \<longleftrightarrow> n \<le> length xs \<and> (\<forall>x \<in> set (take n xs). P x)"
proof (induction xs arbitrary: n)
  case (Cons x xs)
  then show ?case by (cases n) auto
qed simp

lemma direction_preference_less: "direction_preference c < 8"
  by (simp add: direction_preference_def split: NiceCandidateTransport.splits)

text \<open>C40. The computation of the priority of a candidate that is not relayed ends the program exactly where the host
  has 64 or more local addresses and none of the first 64 is the address of the candidate (for a
  host candidate its own, otherwise that of its base): the position in the list of local addresses then violates the
  assertion on the local preference.  With fewer than 64 addresses there is always a priority.\<close>

theorem many_addresses_abort:
  assumes "type c \<noteq> NICE_CANDIDATE_TYPE_RELAYED" and "length ips < 2 ^ 32"
    and "nice_address_to_string inet_ntop (if type c = NICE_CANDIDATE_TYPE_HOST then addr c else base_addr c) None = Some s"
  shows "nice_candidate_ice_priority inet_ntop ips c reliable nat_assisted = None \<longleftrightarrow>
    64 \<le> length ips \<and> (\<forall>ip \<in> set (take 64 ips). \<not> ip_matches s ip)"
proof -
  have t: "nice_candidate_ice_type_preference c reliable nat_assisted \<noteq> None"
    using assms(1) by (cases "type c") (simp_all add: nice_candidate_ice_type_preference_def)
  have ip: "nice_candidate_ip_local_preference inet_ntop ips c = Some (ip_position s ips 0)"
    using assms(3) by (simp add: nice_candidate_ip_local_preference_def split: if_splits)
  have "ip_position s ips 0 < 64 \<longleftrightarrow> \<not> 64 \<le> length (takeWhile (\<lambda>ip. \<not> ip_matches s ip) ips)"
    using ip_position_value [of 0 ips s] assms(2) by (simp add: word_less_nat_alt not_le)
  then have "nice_candidate_ice_local_preference inet_ntop ips c = None \<longleftrightarrow>
      64 \<le> length (takeWhile (\<lambda>ip. \<not> ip_matches s ip) ips)"
    using assms(1) direction_preference_less [of c]
    by (simp add: nice_candidate_ice_local_preference_def turn_preference_def ip
        nice_candidate_ice_local_preference_full_def pref_defs g_assert_def)
  then show ?thesis
    using t by (auto simp: nice_candidate_ice_priority_def takeWhile_far [symmetric] bind_eq_None_conv)
qed

theorem many_addresses_abort_witness:
  "nice_candidate_ice_priority (\<lambda>_. ''10.0.0.1'') (replicate 64 ''10.0.0.2'' @ [''10.0.0.1'']) example_candidate False False = None \<and>
   nice_candidate_ice_priority (\<lambda>_. ''10.0.0.1'') [''10.0.0.2''] example_candidate False False \<noteq> None"
proof -
  have "type example_candidate = NICE_CANDIDATE_TYPE_HOST" "addr example_candidate = Addr_ip4 [10, 0, 0, 1] [0, 9]"
    by (simp_all add: example_candidate_def nice_candidate_new_def)
  then have c: "type example_candidate \<noteq> NICE_CANDIDATE_TYPE_RELAYED"
    "nice_address_to_string (\<lambda>_. ''10.0.0.1'') (if type example_candidate = NICE_CANDIDATE_TYPE_HOST
      then addr example_candidate else base_addr example_candidate) None = Some ''10.0.0.1''" by simp_all
  show ?thesis
    using many_addresses_abort [OF c(1) _ c(2), of "replicate 64 ''10.0.0.2'' @ [''10.0.0.1'']" False False]
      many_addresses_abort [OF c(1) _ c(2), of "[''10.0.0.2'']" False False]
    by (simp add: ip_matches_def)
qed

end
