(* ===== verification/Pseudo_Tcp_Time.thy ===== *)
theory Pseudo_Tcp_Time
  imports Nice_Prelude
begin

text \<open>
  Constants, clock and sequence number arithmetic of the pseudo-TCP socket
  (\<open>src/libnice/agent/pseudotcp.c\<close>).  Times and sequence numbers are 32-bit words that wrap
  around; the lemmas give the circular comparisons a meaning in terms of the signed difference
  and of distances on the circle.
\<close>

section \<open>Constants\<close>

definition PACKET_MAXIMUMS :: "u16 list" where
  "PACKET_MAXIMUMS = [65535, 32000, 17914, 8166, 4352, 2002, 1492, 1006, 508, 296, 0]"

definition DEF_MTU :: u32 where "DEF_MTU = 1400"
definition MAX_PACKET :: nat where "MAX_PACKET = 65532"
definition MIN_PACKET :: u32 where "MIN_PACKET = 296"
definition IP_HEADER_SIZE :: u32 where "IP_HEADER_SIZE = 20"
definition UDP_HEADER_SIZE :: u32 where "UDP_HEADER_SIZE = 8"
definition JINGLE_HEADER_SIZE :: u32 where "JINGLE_HEADER_SIZE = 64"
definition HEADER_SIZE :: nat where "HEADER_SIZE = 24"

definition PACKET_OVERHEAD :: u32 where
  "PACKET_OVERHEAD = of_nat HEADER_SIZE + UDP_HEADER_SIZE + IP_HEADER_SIZE + JINGLE_HEADER_SIZE"

definition MIN_RTO :: u32 where "MIN_RTO = 1000"
definition DEF_RTO :: u32 where "DEF_RTO = 1000"
definition MAX_RTO :: u32 where "MAX_RTO = 60000"
definition DEFAULT_ACK_DELAY :: u32 where "DEFAULT_ACK_DELAY = 100"
definition DEFAULT_NO_DELAY :: bool where "DEFAULT_NO_DELAY = True"
definition DEFAULT_RCV_BUF_SIZE :: u32 where "DEFAULT_RCV_BUF_SIZE = 60 * 1024"
definition DEFAULT_SND_BUF_SIZE :: u32 where "DEFAULT_SND_BUF_SIZE = 90 * 1024"
definition CTL_CONNECT :: u8 where "CTL_CONNECT = 0"
definition DEFAULT_TIMEOUT :: u32 where "DEFAULT_TIMEOUT = 4000"
definition CLOSED_TIMEOUT :: u32 where "CLOSED_TIMEOUT = 60 * 1000"
definition TIME_WAIT_TIMEOUT :: u32 where "TIME_WAIT_TIMEOUT = 1"

text \<open>The option kinds and the flags, as they stand on the wire.\<close>

definition TCP_OPT_EOL :: u8 where "TCP_OPT_EOL = 0"
definition TCP_OPT_NOOP :: u8 where "TCP_OPT_NOOP = 1"
definition TCP_OPT_MSS :: u8 where "TCP_OPT_MSS = 2"
definition TCP_OPT_WND_SCALE :: u8 where "TCP_OPT_WND_SCALE = 3"
definition TCP_OPT_FIN_ACK :: u8 where "TCP_OPT_FIN_ACK = 254"

definition FLAG_NONE :: u8 where "FLAG_NONE = 0"
definition FLAG_FIN :: u8 where "FLAG_FIN = push_bit 0 1"
definition FLAG_CTL :: u8 where "FLAG_CTL = push_bit 1 1"
definition FLAG_RST :: u8 where "FLAG_RST = push_bit 2 1"

lemmas tcp_option_defs =
  TCP_OPT_EOL_def TCP_OPT_NOOP_def TCP_OPT_MSS_def TCP_OPT_WND_SCALE_def TCP_OPT_FIN_ACK_def

lemmas tcp_flag_defs = FLAG_NONE_def FLAG_FIN_def FLAG_CTL_def FLAG_RST_def

section \<open>Helper functions\<close>

definition bound :: "u32 \<Rightarrow> u32 \<Rightarrow> u32 \<Rightarrow> u32" where
  "bound lower middle upper = min (max lower middle) upper"

definition time_is_between :: "u32 \<Rightarrow> u32 \<Rightarrow> u32 \<Rightarrow> bool" where
  "time_is_between later middle earlier =
     (if earlier \<le> later then earlier \<le> middle \<and> middle \<le> later
      else \<not> (later < middle \<and> middle < earlier))"

text \<open>The \<open>long\<close> values are converted to the 32-bit result type.\<close>

definition gint32 :: "int \<Rightarrow> int" where
  "gint32 x = sint (of_int x :: u32)"

definition time_diff :: "u32 \<Rightarrow> u32 \<Rightarrow> int" where
  "time_diff later earlier =
     (let LAST = 0xFFFFFFFF; HALF = 0x80000000
      in if time_is_between (earlier + HALF) later earlier
         then if earlier \<le> later then gint32 (uint (later - earlier))
              else gint32 (uint (later + (LAST - earlier) + 1))
         else if later \<le> earlier then gint32 (- uint (earlier - later))
              else gint32 (- uint (earlier + (LAST - later) + 1)))"

definition LARGER :: "u32 \<Rightarrow> u32 \<Rightarrow> bool" where
  "LARGER a b \<longleftrightarrow> a - b - 1 < drop_bit 1 0xFFFFFFFF"

definition LARGER_OR_EQUAL :: "u32 \<Rightarrow> u32 \<Rightarrow> bool" where
  "LARGER_OR_EQUAL a b \<longleftrightarrow> a - b < drop_bit 1 0xFFFFFFFF"

definition SMALLER :: "u32 \<Rightarrow> u32 \<Rightarrow> bool" where
  "SMALLER a b = LARGER b a"

definition SMALLER_OR_EQUAL :: "u32 \<Rightarrow> u32 \<Rightarrow> bool" where
  "SMALLER_OR_EQUAL a b = LARGER_OR_EQUAL b a"

section \<open>Meaning of the circular comparisons\<close>

lemma gint32_uint: "gint32 (uint (x :: u32)) = sint x"
  by (simp add: gint32_def)

lemma gint32_minus_uint: "gint32 (- uint (x :: u32)) = sint (- x)"
  by (simp add: gint32_def)

lemma u32_wrap: "(4294967296 :: u32) = 0"
  using word_of_int_2p [where 'a = 32] by simp

text \<open>A sequence number ahead of another one by less than half the circle is the larger one.\<close>

lemma half_u32: "drop_bit 1 (0xFFFFFFFF :: u32) = 0x7FFFFFFF"
  by simp

lemma LARGER_ahead:
  assumes "k \<le> 0xFFFFFFFF"
  shows "LARGER (b + of_nat k) b \<longleftrightarrow> 0 < k \<and> k \<le> 0x7FFFFFFF"
proof (cases k)
  case (Suc j)
  then have "b + of_nat k - b - 1 = (of_nat j :: u32)" by simp
  moreover have "(of_nat j :: u32) < 0x7FFFFFFF \<longleftrightarrow> j < 0x7FFFFFFF"
    using assms Suc by (simp add: word_less_nat_alt unat_of_nat_u32)
  ultimately show ?thesis using Suc by (auto simp: LARGER_def half_u32)
qed (simp add: LARGER_def)

lemma LARGER_OR_EQUAL_ahead:
  assumes "k \<le> 0xFFFFFFFF"
  shows "LARGER_OR_EQUAL (b + of_nat k) b \<longleftrightarrow> k < 0x7FFFFFFF"
  using assms by (simp add: LARGER_OR_EQUAL_def half_u32 word_less_nat_alt unat_of_nat_u32)

section \<open>Properties\<close>

text \<open>C34.  The time difference is the signed 32-bit difference of the two clock readings,
  whether or not the clock has wrapped around between them.\<close>

theorem time_diff_signed: "time_diff later earlier = sint (later - earlier)"
proof -
  have "later + (0xFFFFFFFF - earlier) + 1 = later - earlier"
    "- (earlier + (0xFFFFFFFF - later) + 1) = later - earlier"
    using u32_wrap by (simp_all add: algebra_simps)
  then show ?thesis
    by (simp only: time_diff_def Let_def gint32_uint gint32_minus_uint) (simp add: gint32_def)
qed

end
