(* ===== verification/Pseudo_Tcp_Fifo.thy ===== *)
theory Pseudo_Tcp_Fifo
  imports Nice_Prelude
begin

text \<open>
  The ring buffer of the pseudo-TCP socket (\<open>PseudoTcpFifo\<close> in
  \<open>src/libnice/agent/pseudotcp.c\<close>).  A new block of memory is an argument of the operations
  that allocate one.  A copy outside the block, a remainder by a length of zero and a failed
  assertion are faults.  The lemmas relate the buffer to the list of bytes it holds, also for
  the reads and writes at an offset; the locale \<open>byte_queue\<close> is the contract of a queue of
  bytes with a bounded capacity, which the buffer implements.
\<close>

section \<open>Operations\<close>

record PseudoTcpFifo =
  fifo_buffer :: bytes
  buffer_length :: nat
  data_length :: nat
  read_position :: nat

definition pseudo_tcp_fifo_init :: "PseudoTcpFifo \<Rightarrow> bytes \<Rightarrow> PseudoTcpFifo" where
  "pseudo_tcp_fifo_init b mem = b\<lparr>fifo_buffer := mem, buffer_length := length mem\<rparr>"

definition pseudo_tcp_fifo_clear :: "PseudoTcpFifo \<Rightarrow> PseudoTcpFifo" where
  "pseudo_tcp_fifo_clear b = b\<lparr>fifo_buffer := [], buffer_length := 0\<rparr>"

definition pseudo_tcp_fifo_get_buffered :: "PseudoTcpFifo \<Rightarrow> nat" where
  "pseudo_tcp_fifo_get_buffered b = data_length b"

definition pseudo_tcp_fifo_set_capacity :: "PseudoTcpFifo \<Rightarrow> bytes \<Rightarrow> (bool \<times> PseudoTcpFifo) option" where
  "pseudo_tcp_fifo_set_capacity b mem =
     (let size = length mem in
      if data_length b > size then Some (False, b)
      else if size \<noteq> data_length b then do {
        let copy = data_length b;
        let tail_copy = min copy (buffer_length b - read_position b);
        x \<leftarrow> rd_bytes (fifo_buffer b) (read_position b) tail_copy;
        buf \<leftarrow> wr_bytes mem 0 x;
        y \<leftarrow> rd_bytes (fifo_buffer b) 0 (copy - tail_copy);
        buf \<leftarrow> wr_bytes buf tail_copy y;
        Some (True, b\<lparr>fifo_buffer := buf, buffer_length := size, read_position := 0\<rparr>)
      } else Some (True, b))"

definition pseudo_tcp_fifo_consume_read_data :: "PseudoTcpFifo \<Rightarrow> nat \<Rightarrow> PseudoTcpFifo option" where
  "pseudo_tcp_fifo_consume_read_data b n =
     (if n \<le> data_length b \<and> buffer_length b \<noteq> 0
      then Some (b\<lparr>read_position := (read_position b + n) mod buffer_length b,
                   data_length := data_length b - n\<rparr>)
      else None)"

definition pseudo_tcp_fifo_consume_write_buffer :: "PseudoTcpFifo \<Rightarrow> nat \<Rightarrow> PseudoTcpFifo option" where
  "pseudo_tcp_fifo_consume_write_buffer b n =
     (if n \<le> buffer_length b - data_length b then Some (b\<lparr>data_length := data_length b + n\<rparr>) else None)"

definition pseudo_tcp_fifo_get_write_remaining :: "PseudoTcpFifo \<Rightarrow> nat" where
  "pseudo_tcp_fifo_get_write_remaining b = buffer_length b - data_length b"

text \<open>The result is the list of the bytes copied to the caller.\<close>

definition pseudo_tcp_fifo_read_offset :: "PseudoTcpFifo \<Rightarrow> nat \<Rightarrow> nat \<Rightarrow> bytes option" where
  "pseudo_tcp_fifo_read_offset b n offset =
     (if buffer_length b = 0 then None
      else if data_length b \<le> offset then Some []
      else do {
        let available = data_length b - offset;
        let position = (read_position b + offset) mod buffer_length b;
        let copy = min n available;
        let tail_copy = min copy (buffer_length b - position);
        x \<leftarrow> rd_bytes (fifo_buffer b) position tail_copy;
        y \<leftarrow> rd_bytes (fifo_buffer b) 0 (copy - tail_copy);
        Some (x @ y)
      })"

definition pseudo_tcp_fifo_write_offset ::
  "PseudoTcpFifo \<Rightarrow> bytes \<Rightarrow> nat \<Rightarrow> nat \<Rightarrow> (nat \<times> PseudoTcpFifo) option" where
  "pseudo_tcp_fifo_write_offset b src n offset =
     (if buffer_length b = 0 then None
      else if buffer_length b \<le> data_length b + offset then Some (0, b)
      else do {
        let available = buffer_length b - data_length b - offset;
        let position = (read_position b + data_length b + offset) mod buffer_length b;
        let copy = min n available;
        let tail_copy = min copy (buffer_length b - position);
        x \<leftarrow> rd_bytes src 0 tail_copy;
        buf \<leftarrow> wr_bytes (fifo_buffer b) position x;
        y \<leftarrow> rd_bytes src tail_copy (copy - tail_copy);
        buf \<leftarrow> wr_bytes buf 0 y;
        Some (copy, b\<lparr>fifo_buffer := buf\<rparr>)
      })"

definition pseudo_tcp_fifo_read :: "PseudoTcpFifo \<Rightarrow> nat \<Rightarrow> (bytes \<times> PseudoTcpFifo) option" where
  "pseudo_tcp_fifo_read b n = do {
     d \<leftarrow> pseudo_tcp_fifo_read_offset b n 0;
     Some (d, b\<lparr>read_position := (read_position b + length d) mod buffer_length b,
                data_length := data_length b - length d\<rparr>)
   }"

definition pseudo_tcp_fifo_write :: "PseudoTcpFifo \<Rightarrow> bytes \<Rightarrow> nat \<Rightarrow> (nat \<times> PseudoTcpFifo) option" where
  "pseudo_tcp_fifo_write b src n = do {
     (copy, b) \<leftarrow> pseudo_tcp_fifo_write_offset b src n 0;
     Some (copy, b\<lparr>data_length := data_length b + copy\<rparr>)
   }"

section \<open>The list of bytes in the buffer\<close>

definition wf_fifo :: "PseudoTcpFifo \<Rightarrow> bool" where
  "wf_fifo b \<longleftrightarrow> buffer_length b = length (fifo_buffer b) \<and> read_position b < buffer_length b \<and>
     data_length b \<le> buffer_length b"

text \<open>The block of memory seen from the read position, and its part that holds data.\<close>

definition ring :: "PseudoTcpFifo \<Rightarrow> bytes" where
  "ring b = drop (read_position b) (fifo_buffer b) @ take (read_position b) (fifo_buffer b)"

definition fifo_data :: "PseudoTcpFifo \<Rightarrow> bytes" where
  "fifo_data b = take (data_length b) (ring b)"

lemma length_ring [simp]: "wf_fifo b \<Longrightarrow> length (ring b) = buffer_length b"
  by (simp add: ring_def wf_fifo_def)

lemma length_fifo_data [simp]: "wf_fifo b \<Longrightarrow> length (fifo_data b) = data_length b"
  by (simp add: fifo_data_def) (simp add: wf_fifo_def)

lemma wf_fifo_pos: "wf_fifo b \<Longrightarrow> 0 < buffer_length b"
  by (auto simp: wf_fifo_def)

lemma mod_once: "(x :: nat) < 2 * n \<Longrightarrow> x mod n = (if x < n then x else x - n)"
  by (simp add: mod_if)

lemma ring_slice:
  assumes "wf_fifo b" and "off + c \<le> buffer_length b" and "off < buffer_length b"
  defines "p \<equiv> (read_position b + off) mod buffer_length b"
  defines "t \<equiv> min c (buffer_length b - p)"
  shows "take t (drop p (fifo_buffer b)) @ take (c - t) (fifo_buffer b) = take c (drop off (ring b))"
    and "p + t \<le> buffer_length b" and "c - t \<le> buffer_length b" and "p < buffer_length b"
proof -
  let ?r = "read_position b" and ?L = "buffer_length b" and ?B = "fifo_buffer b"
  have wf: "?L = length ?B" "?r < ?L" using assms(1) by (simp_all add: wf_fifo_def)
  show p: "p < ?L" using wf_fifo_pos [OF assms(1)] by (simp add: p_def)
  then show "p + t \<le> ?L" "c - t \<le> ?L" using assms(2) by (auto simp: t_def)
  show "take t (drop p ?B) @ take (c - t) ?B = take c (drop off (ring b))"
  proof (cases "?r + off < ?L")
    case True
    then have pr: "p = ?r + off" by (simp add: p_def)
    have "take (c - t) ?B = take (c - (?L - p)) (take ?r ?B)"
      using assms(2) wf True by (auto simp: t_def pr min_def)
    then show ?thesis using wf True by (simp add: ring_def pr t_def min_def add.commute)
  next
    case False
    then have pr: "p = ?r + off - ?L" using wf assms(3) by (simp add: p_def mod_once)
    then have "t = c" "p + c \<le> ?r" using assms(2,3) wf False by (auto simp: t_def)
    moreover have "drop off (ring b) = drop p (take ?r ?B)"
      using False wf by (simp add: ring_def pr add.commute)
    ultimately show ?thesis using wf by (simp add: take_drop min_absorb1)
  qed
qed

lemma read_offset_spec:
  assumes "wf_fifo b"
  shows "pseudo_tcp_fifo_read_offset b n off = Some (take n (drop off (fifo_data b)))"
proof (cases "data_length b \<le> off")
  case True
  then show ?thesis using assms wf_fifo_pos [OF assms] by (simp add: pseudo_tcp_fifo_read_offset_def)
next
  case False
  define c where "c = min n (data_length b - off)"
  have c: "off + c \<le> buffer_length b" "off < buffer_length b" using assms False by (auto simp: c_def wf_fifo_def)
  note s = ring_slice [OF assms c]
  have "take n (drop off (fifo_data b)) = take c (drop off (ring b))"
    by (simp add: fifo_data_def c_def drop_take min.commute)
  then show ?thesis
    using assms False s wf_fifo_pos [OF assms]
    by (simp add: pseudo_tcp_fifo_read_offset_def Let_def c_def [symmetric] rd_bytes_def wf_fifo_def)
qed

text \<open>Writing \<open>xs\<close> at the position \<open>off\<close> of the ring, in two parts when it wraps around.\<close>

definition ring_write :: "PseudoTcpFifo \<Rightarrow> nat \<Rightarrow> bytes \<Rightarrow> bytes" where
  "ring_write b off xs =
     (let p = (read_position b + off) mod buffer_length b;
          t = min (length xs) (buffer_length b - p);
          buf = take p (fifo_buffer b) @ take t xs @ drop (p + t) (fifo_buffer b)
      in drop t xs @ drop (length xs - t) buf)"

lemma ring_update:
  assumes "wf_fifo b" and "off + length xs \<le> buffer_length b" and "off < buffer_length b"
  shows "ring (b\<lparr>fifo_buffer := ring_write b off xs\<rparr>) =
           take off (ring b) @ xs @ drop (off + length xs) (ring b)"
proof -
  let ?r = "read_position b" and ?L = "buffer_length b" and ?B = "fifo_buffer b" and ?c = "length xs"
  define p where "p = (?r + off) mod ?L"
  have wf: "?L = length ?B" "?r < ?L" using assms(1) by (simp_all add: wf_fifo_def)
  consider "?r + off + ?c \<le> ?L" "?r + off < ?L" | "?r + off < ?L" "?L < ?r + off + ?c" | "?L \<le> ?r + off" by linarith
  then show ?thesis
  proof cases
    case 1
    then have "ring_write b off xs = take (?r + off) ?B @ xs @ drop (?r + off + ?c) ?B"
      by (simp add: ring_write_def Let_def)
    with 1 wf show ?thesis by (simp add: ring_def take_drop add.commute add.left_commute)
  next
    case 2
    define k where "k = ?L - (?r + off)"
    define d where "d = ?c - k"
    have kd: "k < ?c" "k + d = ?c" "d \<le> ?r" "?r + off + k = ?L"
      using 2 assms(2) by (auto simp: k_def d_def)
    moreover have "?L - (?r + off) = k" "?c - k = d" "length ?B = ?L" using wf by (simp_all add: k_def d_def)
    ultimately have "ring_write b off xs = drop k xs @ drop d (take (?r + off) ?B) @ take k xs"
      using 2(1) by (simp add: ring_write_def Let_def min_absorb2)
    then have "ring (b\<lparr>fifo_buffer := ring_write b off xs\<rparr>) =
        take off (drop ?r ?B) @ take k xs @ drop k xs @ drop d (take ?r ?B)"
      using kd(3,4) wf 2(1) by (simp add: ring_def drop_take kd(2) [symmetric])
    moreover have e: "length ?B = ?r + off + k" using kd(4) wf(1) by simp
    then have "drop (off + ?c) (ring b) = drop d (take ?r ?B)" "take off (ring b) = take off (drop ?r ?B)"
      using e kd(3) wf by (simp_all add: ring_def drop_take kd(2) [symmetric])
    ultimately show ?thesis by simp
  next
    case 3
    then have "p = ?r + off - ?L" using wf assms(3) by (simp add: p_def mod_once)
    with 3 assms(2,3) wf have pr: "p + ?c \<le> ?r" "off = p + (?L - ?r)" by auto
    then have "ring_write b off xs = take p ?B @ xs @ drop (p + ?c) ?B"
      using wf by (simp add: ring_write_def Let_def p_def [symmetric])
    with pr wf show ?thesis by (simp add: ring_def drop_take)
  qed
qed

lemma length_ring_write:
  assumes "wf_fifo b" and "off + length xs \<le> buffer_length b" and "off < buffer_length b"
  shows "length (ring_write b off xs) = buffer_length b"
proof -
  have "length (ring_write b off xs) = length (ring (b\<lparr>fifo_buffer := ring_write b off xs\<rparr>))"
    by (simp add: ring_def)
  then show ?thesis using assms by (simp add: ring_update)
qed

lemma write_offset_eq:
  assumes "wf_fifo b" and "data_length b + off < buffer_length b" and "n \<le> length src"
  defines "xs \<equiv> take (buffer_length b - data_length b - off) (take n src)"
  shows "pseudo_tcp_fifo_write_offset b src n off =
           Some (length xs, b\<lparr>fifo_buffer := ring_write b (data_length b + off) xs\<rparr>)"
proof -
  define p where "p = (read_position b + (data_length b + off)) mod buffer_length b"
  define t where "t = min (length xs) (buffer_length b - p)"
  have c: "length xs = min n (buffer_length b - data_length b - off)" using assms(3) by (simp add: xs_def)
  have bound: "data_length b + off + length xs \<le> buffer_length b" using assms(2) by (simp add: c)
  note s = ring_slice(2-4) [OF assms(1) bound assms(2), folded p_def, folded t_def]
  have tl: "t \<le> length xs" "length xs \<le> length src" using assms(3) by (auto simp: t_def c)
  have xs: "xs = take (length xs) src" unfolding c by (simp add: xs_def min.commute)
  have "take t src = take t (take (length xs) src)" "take (length xs - t) (drop t src) = drop t (take (length xs) src)"
    using tl by (simp_all add: min_absorb1 drop_take)
  then have x: "take t src = take t xs" "take (length xs - t) (drop t src) = drop t xs" using xs by simp_all
  have c': "min n (buffer_length b - (data_length b + off)) = length xs" by (simp add: c)
  have buf: "length (fifo_buffer b) = buffer_length b" "0 < buffer_length b"
    using assms(1) wf_fifo_pos [OF assms(1)] by (simp_all add: wf_fifo_def)
  have "wr_bytes (fifo_buffer b) p (take t xs) =
      Some (take p (fifo_buffer b) @ take t xs @ drop (p + t) (fifo_buffer b))"
    using s tl buf by (simp add: wr_bytes_def)
  moreover have "wr_bytes (take p (fifo_buffer b) @ take t xs @ drop (p + t) (fifo_buffer b)) 0 (drop t xs) =
      Some (ring_write b (data_length b + off) xs)"
    using s tl buf by (simp add: wr_bytes_def ring_write_def Let_def p_def [symmetric] t_def [symmetric])
  ultimately show ?thesis
    using assms(2) tl buf
    by (simp add: pseudo_tcp_fifo_write_offset_def Let_def add.assoc c' p_def [symmetric] t_def [symmetric]
        rd_bytes_Some x)
qed

lemma write_offset_full:
  "wf_fifo b \<Longrightarrow> buffer_length b \<le> data_length b + off \<Longrightarrow> pseudo_tcp_fifo_write_offset b src n off = Some (0, b)"
  using wf_fifo_pos by (simp add: pseudo_tcp_fifo_write_offset_def)

text \<open>A write at an offset behind the data stores as many bytes as fit there and leaves the rest of the ring alone.\<close>

lemma write_offset_spec:
  assumes "wf_fifo b" and "n \<le> length src"
  shows "\<exists>b'. pseudo_tcp_fifo_write_offset b src n off = Some (min n (buffer_length b - data_length b - off), b') \<and>
    wf_fifo b' \<and> buffer_length b' = buffer_length b \<and> data_length b' = data_length b \<and>
    ring b' = take (data_length b + off) (ring b) @ take (buffer_length b - data_length b - off) (take n src) @
      drop (data_length b + off + min n (buffer_length b - data_length b - off)) (ring b)"
proof (cases "data_length b + off < buffer_length b")
  case False
  then show ?thesis using assms by (simp add: write_offset_full)
next
  case True
  define xs where "xs = take (buffer_length b - data_length b - off) (take n src)"
  have c: "length xs = min n (buffer_length b - data_length b - off)" using assms(2) by (simp add: xs_def)
  then have fits: "data_length b + off + length xs \<le> buffer_length b" using True by simp
  have "wf_fifo (b\<lparr>fifo_buffer := ring_write b (data_length b + off) xs\<rparr>)"
    using assms(1) length_ring_write [OF assms(1) fits True] by (simp add: wf_fifo_def)
  then show ?thesis
    unfolding xs_def [symmetric] c [symmetric]
    using write_offset_eq [OF assms(1) True assms(2), folded xs_def] ring_update [OF assms(1) fits True]
    by simp
qed

text \<open>Moving the read position past \<open>n\<close> bytes rotates the ring.\<close>

definition fifo_skip :: "PseudoTcpFifo \<Rightarrow> nat \<Rightarrow> PseudoTcpFifo" where
  "fifo_skip b n = b\<lparr>read_position := (read_position b + n) mod buffer_length b, data_length := data_length b - n\<rparr>"

lemma fifo_skip_spec:
  assumes "wf_fifo b" and "n \<le> data_length b"
  shows "wf_fifo (fifo_skip b n)" and "buffer_length (fifo_skip b n) = buffer_length b"
    and "data_length (fifo_skip b n) = data_length b - n"
    and "ring (fifo_skip b n) = drop n (ring b) @ take n (ring b)"
proof -
  let ?r = "read_position b" and ?L = "buffer_length b" and ?B = "fifo_buffer b"
  have wf: "?L = length ?B" "?r < ?L" "n \<le> ?L" using assms by (simp_all add: wf_fifo_def)
  show "wf_fifo (fifo_skip b n)"
    using assms(1) wf_fifo_pos [OF assms(1)] by (auto simp: wf_fifo_def fifo_skip_def)
  show "buffer_length (fifo_skip b n) = buffer_length b" "data_length (fifo_skip b n) = data_length b - n"
    by (simp_all add: fifo_skip_def)
  show "ring (fifo_skip b n) = drop n (ring b) @ take n (ring b)"
  proof (cases "?r + n < ?L")
    case True
    then show ?thesis using wf by (simp add: ring_def fifo_skip_def take_add [of ?r n] add.commute [of n])
  next
    case False
    define p where "p = n - (?L - ?r)"
    have p: "n = p + (length ?B - ?r)" "p \<le> ?r" using wf False by (simp_all add: p_def)
    then have "(?r + n) mod ?L = p" using wf by simp
    moreover have "drop p (take ?r ?B @ drop ?r ?B) = drop p (take ?r ?B) @ drop ?r ?B"
      using p(2) wf by (simp del: append_take_drop_id)
    ultimately show ?thesis using wf p by (simp add: ring_def fifo_skip_def)
  qed
qed

lemma read_spec:
  assumes "wf_fifo b"
  shows "pseudo_tcp_fifo_read b n = Some (take n (fifo_data b), fifo_skip b (min n (data_length b)))"
  using assms by (simp add: pseudo_tcp_fifo_read_def read_offset_spec fifo_skip_def min.commute)

lemma consume_read_spec:
  "wf_fifo b \<Longrightarrow> n \<le> data_length b \<Longrightarrow> pseudo_tcp_fifo_consume_read_data b n = Some (fifo_skip b n)"
  using wf_fifo_pos by (simp add: pseudo_tcp_fifo_consume_read_data_def fifo_skip_def)

lemma fifo_data_skip:
  "wf_fifo b \<Longrightarrow> n \<le> data_length b \<Longrightarrow> fifo_data (fifo_skip b n) = drop n (fifo_data b)"
  by (simp add: fifo_data_def fifo_skip_spec wf_fifo_def drop_take)

lemma write_spec:
  assumes "wf_fifo b" and "n \<le> length src"
  shows "\<exists>b'. pseudo_tcp_fifo_write b src n = Some (min n (buffer_length b - data_length b), b') \<and>
    wf_fifo b' \<and> buffer_length b' = buffer_length b \<and>
    fifo_data b' = fifo_data b @ take (buffer_length b - data_length b) (take n src)"
proof -
  obtain b' where w: "pseudo_tcp_fifo_write_offset b src n 0 = Some (min n (buffer_length b - data_length b), b')"
    "wf_fifo b'" "buffer_length b' = buffer_length b" "data_length b' = data_length b"
    "ring b' = take (data_length b) (ring b) @ take (buffer_length b - data_length b) (take n src) @
      drop (data_length b + min n (buffer_length b - data_length b)) (ring b)"
    using write_offset_spec [OF assms, of 0] by auto
  define c where "c = min n (buffer_length b - data_length b)"
  have "ring (b'\<lparr>data_length := data_length b' + c\<rparr>) = ring b'" by (simp add: ring_def)
  moreover have "wf_fifo (b'\<lparr>data_length := data_length b' + c\<rparr>)"
    using w(2-4) assms(1) by (auto simp: wf_fifo_def c_def)
  moreover have "take (buffer_length b - data_length b) (take n src) = take c src"
    by (simp add: c_def min.commute)
  moreover have "data_length b \<le> buffer_length b" "c \<le> length src"
    using assms by (simp_all add: wf_fifo_def c_def min.coboundedI1)
  ultimately show ?thesis
    using w assms by (simp add: pseudo_tcp_fifo_write_def fifo_data_def c_def [symmetric])
qed

lemma set_capacity_spec:
  assumes "wf_fifo b" and "data_length b < length mem"
  shows "\<exists>b'. pseudo_tcp_fifo_set_capacity b mem = Some (True, b') \<and> wf_fifo b' \<and>
    buffer_length b' = length mem \<and> data_length b' = data_length b \<and> fifo_data b' = fifo_data b"
proof -
  define c where "c = data_length b"
  define t where "t = min c (buffer_length b - read_position b)"
  have c: "0 + c \<le> buffer_length b" "0 < buffer_length b" "c < length mem" "c \<noteq> length mem"
    and wf: "length (fifo_buffer b) = buffer_length b" "read_position b < buffer_length b"
    using assms wf_fifo_pos [OF assms(1)] by (simp_all add: c_def wf_fifo_def)
  define x where "x = take t (drop (read_position b) (fifo_buffer b))"
  define y where "y = take (c - t) (fifo_buffer b)"
  have s: "x @ y = take c (ring b)" "read_position b + t \<le> buffer_length b" "c - t \<le> buffer_length b"
    using ring_slice(1-3) [OF assms(1) c(1,2)] wf by (simp_all add: t_def x_def y_def)
  have l: "length x = t" "length y = c - t" "t + (c - t) = c" using s(2,3) wf by (simp_all add: x_def y_def t_def)
  have "pseudo_tcp_fifo_set_capacity b mem =
      Some (True, b\<lparr>fifo_buffer := x @ y @ drop c mem, buffer_length := length mem, read_position := 0\<rparr>)"
    using c s(2,3) wf l
    by (simp add: pseudo_tcp_fifo_set_capacity_def Let_def c_def [symmetric] t_def [symmetric] rd_bytes_Some
        x_def [symmetric] y_def [symmetric] wr_bytes_def)
  moreover have "wf_fifo (b\<lparr>fifo_buffer := x @ y @ drop c mem, buffer_length := length mem, read_position := 0\<rparr>)"
    using c l by (auto simp: wf_fifo_def c_def)
  moreover have "take c (x @ y @ drop c mem) = take c (ring b)"
    using c(1) l assms(1) by (simp add: s(1) [symmetric])
  ultimately show ?thesis by (simp add: fifo_data_def ring_def c_def [symmetric])
qed

section \<open>The contract of a byte queue\<close>

datatype queue_op = Push bytes | Pop nat

text \<open>
  A run of operations on a queue: the bytes it accepted, the bytes it gave back, and its last state.
\<close>

fun queue_run :: "('q \<Rightarrow> bytes \<Rightarrow> (nat \<times> 'q) option) \<Rightarrow> ('q \<Rightarrow> nat \<Rightarrow> (bytes \<times> 'q) option) \<Rightarrow>
    queue_op list \<Rightarrow> 'q \<Rightarrow> (bytes \<times> bytes \<times> 'q) option" where
  "queue_run push pop [] q = Some ([], [], q)"
| "queue_run push pop (Push xs # ops) q = do {
     (n, q') \<leftarrow> push q xs;
     (acc, out, q'') \<leftarrow> queue_run push pop ops q';
     Some (take n xs @ acc, out, q'')
   }"
| "queue_run push pop (Pop n # ops) q = do {
     (ys, q') \<leftarrow> pop q n;
     (acc, out, q'') \<leftarrow> queue_run push pop ops q';
     Some (acc, ys @ out, q'')
   }"

locale byte_queue =
  fixes wf :: "'q \<Rightarrow> bool" and content :: "'q \<Rightarrow> bytes" and capacity :: "'q \<Rightarrow> nat"
    and push :: "'q \<Rightarrow> bytes \<Rightarrow> (nat \<times> 'q) option" and pop :: "'q \<Rightarrow> nat \<Rightarrow> (bytes \<times> 'q) option"
  assumes within: "wf q \<Longrightarrow> length (content q) \<le> capacity q"
    and push: "wf q \<Longrightarrow> \<exists>q'. push q xs = Some (min (length xs) (capacity q - length (content q)), q') \<and>
      wf q' \<and> capacity q' = capacity q \<and> content q' = content q @ take (capacity q - length (content q)) xs"
    and pop: "wf q \<Longrightarrow> \<exists>q'. pop q n = Some (take n (content q), q') \<and>
      wf q' \<and> capacity q' = capacity q \<and> content q' = drop n (content q)"
begin

text \<open>Nothing is lost, duplicated or reordered, and no operation faults.\<close>

lemma run_stream:
  "wf q \<Longrightarrow> \<exists>acc out q'. queue_run push pop ops q = Some (acc, out, q') \<and> wf q' \<and> capacity q' = capacity q \<and>
     content q @ acc = out @ content q'"
proof (induction ops arbitrary: q)
  case Nil
  then show ?case by simp
next
  case (Cons op ops)
  show ?case
  proof (cases op)
    case (Push xs)
    obtain q1 where q1: "push q xs = Some (min (length xs) (capacity q - length (content q)), q1)"
      "wf q1" "capacity q1 = capacity q" "content q1 = content q @ take (capacity q - length (content q)) xs"
      using push [OF Cons.prems, of xs] by auto
    then show ?thesis using Cons.IH [OF q1(2)] by (auto simp: Push min_def)
  next
    case (Pop n)
    obtain q1 where q1: "pop q n = Some (take n (content q), q1)"
      "wf q1" "capacity q1 = capacity q" "content q1 = drop n (content q)"
      using pop [OF Cons.prems, of n] by auto
    obtain acc out q2 where q2: "queue_run push pop ops q1 = Some (acc, out, q2)" "wf q2"
      "capacity q2 = capacity q1" "content q1 @ acc = out @ content q2"
      using Cons.IH [OF q1(2)] by auto
    have "content q @ acc = take n (content q) @ out @ content q2"
      using q2(4) by (simp add: q1(4)) (metis append.assoc append_take_drop_id)
    then show ?thesis using q1 q2 by (simp add: Pop)
  qed
qed

text \<open>A queue that is filled and then emptied gives back what it took.\<close>

lemma push_pop:
  assumes "wf q" and "content q = []" and "length xs \<le> capacity q"
  shows "\<exists>q'. queue_run push pop [Push xs, Pop (length xs)] q = Some (xs, xs, q') \<and> content q' = []"
proof -
  obtain q1 where q1: "push q xs = Some (length xs, q1)" "wf q1" "content q1 = xs"
    using push [OF assms(1), of xs] assms(2,3) by auto
  obtain q2 where "pop q1 (length xs) = Some (xs, q2)" "content q2 = []"
    using pop [OF q1(2), of "length xs"] q1(3) by auto
  with q1 show ?thesis by simp
qed

end

interpretation fifo: byte_queue wf_fifo fifo_data buffer_length
  "\<lambda>b xs. pseudo_tcp_fifo_write b xs (length xs)" pseudo_tcp_fifo_read
proof
  fix b xs n assume wf: "wf_fifo b"
  show "length (fifo_data b) \<le> buffer_length b" using wf by simp (simp add: wf_fifo_def)
  show "\<exists>b'. pseudo_tcp_fifo_write b xs (length xs) =
        Some (min (length xs) (buffer_length b - length (fifo_data b)), b') \<and>
      wf_fifo b' \<and> buffer_length b' = buffer_length b \<and>
      fifo_data b' = fifo_data b @ take (buffer_length b - length (fifo_data b)) xs"
    using write_spec [OF wf, of "length xs" xs] wf by simp
  show "\<exists>b'. pseudo_tcp_fifo_read b n = Some (take n (fifo_data b), b') \<and>
      wf_fifo b' \<and> buffer_length b' = buffer_length b \<and> fifo_data b' = drop n (fifo_data b)"
    using wf by (simp add: read_spec fifo_skip_spec fifo_data_skip min_def)
qed

section \<open>The property\<close>

text \<open>C12. The ring buffer is a first-in first-out queue: in every sequence of writes and reads, of any
  sizes and however often the positions wrap around, no operation faults, and what the buffer held
  at the start followed by what it accepted is what the reads returned followed by what it holds.\<close>

theorem fifo_stream:
  assumes "wf_fifo b"
  shows "\<exists>acc out b'. queue_run (\<lambda>b xs. pseudo_tcp_fifo_write b xs (length xs)) pseudo_tcp_fifo_read ops b =
      Some (acc, out, b') \<and> wf_fifo b' \<and> buffer_length b' = buffer_length b \<and>
    fifo_data b @ acc = out @ fifo_data b'"
  using assms by (rule fifo.run_stream)

text \<open>Five bytes in a buffer of four that starts near its end: the write takes four and wraps around.\<close>

theorem fifo_stream_witness:
  "let b = \<lparr>fifo_buffer = [7, 7, 7, 7], buffer_length = 4, data_length = 0, read_position = 3\<rparr>;
       ops = [Push [1, 2, 3], Pop 1, Push [4, 5, 6], Pop 9] in
   wf_fifo b \<and>
   (\<exists>acc out b'. queue_run (\<lambda>b xs. pseudo_tcp_fifo_write b xs (length xs)) pseudo_tcp_fifo_read ops b =
      Some (acc, out, b') \<and> wf_fifo b' \<and> buffer_length b' = 4 \<and> acc = out @ fifo_data b')"
proof -
  let ?b = "\<lparr>fifo_buffer = [7, 7, 7, 7 :: u8], buffer_length = 4, data_length = 0, read_position = 3\<rparr>"
  have "wf_fifo ?b" "fifo_data ?b = []" by (simp_all add: wf_fifo_def fifo_data_def)
  then show ?thesis using fifo_stream [of ?b "[Push [1, 2, 3], Pop 1, Push [4, 5, 6], Pop 9]"] by simp
qed

end
