(* ===== verification/Pseudo_Tcp_Send.thy ===== *)
theory Pseudo_Tcp_Send
  imports Pseudo_Tcp_Time Pseudo_Tcp_Fifo
begin

text \<open>
  The pseudo-TCP socket of \<open>src/libnice/agent/pseudotcp.c\<close>: its private state, the state
  machine and the sending of segments, up to \<open>attempt_send\<close> and \<open>closedown\<close>.

  \<^item> A socket operation takes the state and returns it, in the option type: a failed
    \<open>g_assert\<close>, an access outside an object, a use of a freed segment, a shift or a division
    without a defined result, and a loop that does not end have the value \<open>None\<close>.
  \<^item> The environment is a parameter: the result of the \<open>WritePacket\<close> callback for each call,
    the readings of the monotonic clock, and the content of newly allocated memory.  The packets
    handed to \<open>WritePacket\<close> and the calls of the other callbacks are recorded in the state; these
    callbacks are taken not to call back into the socket.
  \<^item> The segments of the send queue are shared by the two lists \<open>slist\<close> and \<open>unsent_slist\<close> of
    pointers; here a segment has an identity, and \<open>unsent_slist\<close> holds identities.
\<close>

section \<open>Data\<close>

datatype PseudoTcpState = PSEUDO_TCP_LISTEN | PSEUDO_TCP_SYN_SENT | PSEUDO_TCP_SYN_RECEIVED
  | PSEUDO_TCP_ESTABLISHED | PSEUDO_TCP_CLOSED | PSEUDO_TCP_FIN_WAIT_1 | PSEUDO_TCP_FIN_WAIT_2
  | PSEUDO_TCP_CLOSING | PSEUDO_TCP_TIME_WAIT | PSEUDO_TCP_CLOSE_WAIT | PSEUDO_TCP_LAST_ACK

datatype PseudoTcpWriteResult = WR_SUCCESS | WR_TOO_LARGE | WR_FAIL

datatype PseudoTcpShutdown = PSEUDO_TCP_SHUTDOWN_RD | PSEUDO_TCP_SHUTDOWN_WR | PSEUDO_TCP_SHUTDOWN_RDWR

datatype Shutdown = SD_NONE | SD_GRACEFUL | SD_FORCEFUL

datatype SendFlags = sfNone | sfDelayedAck | sfImmediateAck | sfFin | sfRst | sfDuplicateAck

datatype ClosedownSource = CLOSEDOWN_LOCAL | CLOSEDOWN_REMOTE

text \<open>The error numbers the socket stores or reports; \<open>E_OK\<close> is 0.\<close>

datatype errno = E_OK | EINVAL | EMSGSIZE | ECONNABORTED | ECONNRESET | ENOTCONN | EPIPE | EWOULDBLOCK | ETIMEDOUT

datatype callback = PseudoTcpOpened | PseudoTcpReadable | PseudoTcpWritable | PseudoTcpClosed errno

record Segment =
  seg_conv :: u32
  seg_seq :: u32
  seg_ack :: u32
  seg_flags :: u8
  seg_wnd :: u16
  seg_data :: bytes
  seg_len :: u32
  seg_tsval :: u32
  seg_tsecr :: u32

record SSegment =
  ss_id :: nat
  ss_seq :: u32
  ss_len :: u32
  ss_xmit :: u8
  ss_flags :: u8

record RSegment =
  rs_seq :: u32
  rs_len :: u32

record PseudoTcpEnv =
  slice_alloc :: "nat \<Rightarrow> bytes"
  WritePacket :: "nat \<Rightarrow> bytes \<Rightarrow> PseudoTcpWriteResult"
  monotonic_time :: "nat \<Rightarrow> u32"

record PseudoTcpSocketPrivate =
  shutdown :: Shutdown
  shutdown_reads :: bool
  error :: errno
  state :: PseudoTcpState
  conv :: u32
  bReadEnable :: bool
  bWriteEnable :: bool
  bOutgoing :: bool
  last_traffic :: u32
  rlist :: "RSegment list"
  rbuf_len :: u32
  rcv_nxt :: u32
  rcv_wnd :: u32
  lastrecv :: u32
  rwnd_scale :: u8
  rbuf :: PseudoTcpFifo
  rcv_fin :: u32
  slist :: "SSegment list"
  unsent_slist :: "nat list"
  sbuf_len :: u32
  snd_nxt :: u32
  snd_wnd :: u32
  lastsend :: u32
  snd_una :: u32
  swnd_scale :: u8
  sbuf :: PseudoTcpFifo
  mss :: u32
  msslevel :: u32
  largest :: u32
  mtu_advise :: u32
  rto_base :: u32
  ts_recent :: u32
  ts_lastack :: u32
  rx_rttvar :: u32
  rx_srtt :: u32
  rx_rto :: u32
  ssthresh :: u32
  cwnd :: u32
  dup_acks :: u8
  recover :: u32
  fast_recovery :: bool
  t_ack :: u32
  last_acked_ts :: u32
  use_nagling :: bool
  ack_delay :: u32
  support_wnd_scale :: bool
  current_time :: u32
  support_fin_ack :: bool
  next_id :: nat
  clock_reads :: nat
  packets :: "bytes list"
  events :: "callback list"

definition assertion :: "bool \<Rightarrow> unit option" where
  "assertion p = (if p then Some () else None)"

lemma assertion_simps [simp]: "assertion True = Some ()" "assertion False = None"
  by (simp_all add: assertion_def)

lemma assertion_eq_Some [simp]: "assertion p = Some u \<longleftrightarrow> p"
  by (simp add: assertion_def)

definition notify :: "PseudoTcpSocketPrivate \<Rightarrow> callback \<Rightarrow> PseudoTcpSocketPrivate" where
  "notify s c = s\<lparr>events := events s @ [c]\<rparr>"

definition get_current_time ::
  "PseudoTcpEnv \<Rightarrow> PseudoTcpSocketPrivate \<Rightarrow> u32 \<times> PseudoTcpSocketPrivate" where
  "get_current_time env s =
     (if current_time s \<noteq> 0 then (current_time s, s)
      else (monotonic_time env (clock_reads s), s\<lparr>clock_reads := clock_reads s + 1\<rparr>))"

definition pseudo_tcp_socket_set_time :: "PseudoTcpSocketPrivate \<Rightarrow> u32 \<Rightarrow> PseudoTcpSocketPrivate" where
  "pseudo_tcp_socket_set_time s t = s\<lparr>current_time := t\<rparr>"

text \<open>Memory of the socket is zeroed before the constructor runs.\<close>

definition zero_fifo :: PseudoTcpFifo where
  "zero_fifo = \<lparr>fifo_buffer = [], buffer_length = 0, data_length = 0, read_position = 0\<rparr>"

definition pseudo_tcp_socket_init :: "PseudoTcpEnv \<Rightarrow> PseudoTcpSocketPrivate" where
  "pseudo_tcp_socket_init env =
     \<lparr>shutdown = SD_NONE, shutdown_reads = False, error = E_OK, state = PSEUDO_TCP_LISTEN, conv = 0,
      bReadEnable = True, bWriteEnable = False, bOutgoing = False, last_traffic = 0,
      rlist = [], rbuf_len = DEFAULT_RCV_BUF_SIZE, rcv_nxt = 0, rcv_wnd = DEFAULT_RCV_BUF_SIZE,
      lastrecv = 0, rwnd_scale = 0,
      rbuf = pseudo_tcp_fifo_init zero_fifo (slice_alloc env (unat DEFAULT_RCV_BUF_SIZE)), rcv_fin = 0,
      slist = [], unsent_slist = [], sbuf_len = DEFAULT_SND_BUF_SIZE, snd_nxt = 0, snd_wnd = 1,
      lastsend = 0, snd_una = 0, swnd_scale = 0,
      sbuf = pseudo_tcp_fifo_init zero_fifo (slice_alloc env (unat DEFAULT_SND_BUF_SIZE)),
      mss = MIN_PACKET - PACKET_OVERHEAD, msslevel = 0, largest = 0, mtu_advise = DEF_MTU, rto_base = 0,
      ts_recent = 0, ts_lastack = 0, rx_rttvar = 0, rx_srtt = 0, rx_rto = DEF_RTO,
      ssthresh = DEFAULT_RCV_BUF_SIZE, cwnd = 2 * (MIN_PACKET - PACKET_OVERHEAD), dup_acks = 0,
      recover = 0, fast_recovery = False, t_ack = 0, last_acked_ts = 0,
      use_nagling = (\<not> DEFAULT_NO_DELAY), ack_delay = DEFAULT_ACK_DELAY, support_wnd_scale = True,
      current_time = 0, support_fin_ack = True, next_id = 0, clock_reads = 0, packets = [], events = []\<rparr>"

section \<open>States\<close>

fun pseudo_tcp_state_has_sent_fin :: "PseudoTcpState \<Rightarrow> bool" where
  "pseudo_tcp_state_has_sent_fin st \<longleftrightarrow> st \<in> {PSEUDO_TCP_CLOSED, PSEUDO_TCP_FIN_WAIT_1, PSEUDO_TCP_FIN_WAIT_2,
     PSEUDO_TCP_CLOSING, PSEUDO_TCP_TIME_WAIT, PSEUDO_TCP_LAST_ACK}"

fun pseudo_tcp_state_has_received_fin :: "PseudoTcpState \<Rightarrow> bool" where
  "pseudo_tcp_state_has_received_fin st \<longleftrightarrow> st \<in> {PSEUDO_TCP_CLOSED, PSEUDO_TCP_CLOSING, PSEUDO_TCP_TIME_WAIT,
     PSEUDO_TCP_CLOSE_WAIT, PSEUDO_TCP_LAST_ACK}"

fun pseudo_tcp_state_has_received_fin_ack :: "PseudoTcpState \<Rightarrow> bool" where
  "pseudo_tcp_state_has_received_fin_ack st \<longleftrightarrow> st \<in> {PSEUDO_TCP_CLOSED, PSEUDO_TCP_TIME_WAIT}"

text \<open>The valid transitions that \<open>set_state\<close> asserts.\<close>

definition TRANSITIONS :: "(PseudoTcpState \<times> PseudoTcpState) list" where
  "TRANSITIONS =
    [(PSEUDO_TCP_CLOSED, PSEUDO_TCP_SYN_SENT), (PSEUDO_TCP_SYN_SENT, PSEUDO_TCP_CLOSED),
     (PSEUDO_TCP_CLOSED, PSEUDO_TCP_LISTEN), (PSEUDO_TCP_LISTEN, PSEUDO_TCP_CLOSED),
     (PSEUDO_TCP_LISTEN, PSEUDO_TCP_SYN_SENT), (PSEUDO_TCP_LISTEN, PSEUDO_TCP_SYN_RECEIVED),
     (PSEUDO_TCP_SYN_SENT, PSEUDO_TCP_SYN_RECEIVED), (PSEUDO_TCP_SYN_RECEIVED, PSEUDO_TCP_ESTABLISHED),
     (PSEUDO_TCP_SYN_SENT, PSEUDO_TCP_ESTABLISHED), (PSEUDO_TCP_SYN_RECEIVED, PSEUDO_TCP_FIN_WAIT_1),
     (PSEUDO_TCP_ESTABLISHED, PSEUDO_TCP_FIN_WAIT_1), (PSEUDO_TCP_ESTABLISHED, PSEUDO_TCP_CLOSE_WAIT),
     (PSEUDO_TCP_FIN_WAIT_1, PSEUDO_TCP_FIN_WAIT_2), (PSEUDO_TCP_FIN_WAIT_1, PSEUDO_TCP_CLOSING),
     (PSEUDO_TCP_CLOSE_WAIT, PSEUDO_TCP_LAST_ACK), (PSEUDO_TCP_FIN_WAIT_2, PSEUDO_TCP_TIME_WAIT),
     (PSEUDO_TCP_CLOSING, PSEUDO_TCP_TIME_WAIT), (PSEUDO_TCP_LAST_ACK, PSEUDO_TCP_CLOSED),
     (PSEUDO_TCP_TIME_WAIT, PSEUDO_TCP_CLOSED), (PSEUDO_TCP_SYN_RECEIVED, PSEUDO_TCP_LISTEN),
     (PSEUDO_TCP_FIN_WAIT_1, PSEUDO_TCP_TIME_WAIT)]"

definition set_state :: "PseudoTcpSocketPrivate \<Rightarrow> PseudoTcpState \<Rightarrow> PseudoTcpSocketPrivate option" where
  "set_state s new_state =
     (if new_state = state s then Some s
      else do {
        assertion ((state s, new_state) \<in> set TRANSITIONS);
        Some (s\<lparr>state := new_state\<rparr>)
      })"

definition set_state_closed :: "PseudoTcpSocketPrivate \<Rightarrow> errno \<Rightarrow> PseudoTcpSocketPrivate option" where
  "set_state_closed s err = do {
     s \<leftarrow> set_state s PSEUDO_TCP_CLOSED;
     Some (if err \<noteq> E_OK then notify s (PseudoTcpClosed err) else s)
   }"

definition adjust_level :: "u32 \<Rightarrow> nat" where
  "adjust_level advise =
     length (takeWhile (\<lambda>i. PACKET_MAXIMUMS ! (i + 1) > 0 \<and> \<not> ucast (PACKET_MAXIMUMS ! i) \<le> advise)
       [0 ..< length PACKET_MAXIMUMS - 1])"

definition adjustMTU :: "PseudoTcpSocketPrivate \<Rightarrow> PseudoTcpSocketPrivate" where
  "adjustMTU s =
     (let s = s\<lparr>msslevel := of_nat (adjust_level (mtu_advise s)), mss := mtu_advise s - PACKET_OVERHEAD\<rparr>
      in s\<lparr>ssthresh := max (ssthresh s) (2 * mss s), cwnd := max (cwnd s) (mss s)\<rparr>)"

definition set_state_established :: "PseudoTcpSocketPrivate \<Rightarrow> PseudoTcpSocketPrivate option" where
  "set_state_established s = do {
     s \<leftarrow> set_state s PSEUDO_TCP_ESTABLISHED;
     Some (notify (adjustMTU s) PseudoTcpOpened)
   }"

definition pseudo_tcp_socket_is_closed :: "PseudoTcpSocketPrivate \<Rightarrow> bool" where
  "pseudo_tcp_socket_is_closed s \<longleftrightarrow> state s = PSEUDO_TCP_CLOSED"

definition pseudo_tcp_socket_is_closed_remotely :: "PseudoTcpSocketPrivate \<Rightarrow> bool" where
  "pseudo_tcp_socket_is_closed_remotely s \<longleftrightarrow> pseudo_tcp_state_has_received_fin (state s)"

section \<open>The send queue\<close>

definition find_segment :: "PseudoTcpSocketPrivate \<Rightarrow> nat \<Rightarrow> SSegment option" where
  "find_segment s i = find (\<lambda>g. ss_id g = i) (slist s)"

definition update_segment :: "nat \<Rightarrow> (SSegment \<Rightarrow> SSegment) \<Rightarrow> PseudoTcpSocketPrivate \<Rightarrow> PseudoTcpSocketPrivate" where
  "update_segment i f s = s\<lparr>slist := map (\<lambda>g. if ss_id g = i then f g else g) (slist s)\<rparr>"

text \<open>\<open>g_queue_insert_after\<close> with the link that \<open>g_queue_find\<close> returns; without one it inserts at the head.\<close>

fun insert_behind :: "('a \<Rightarrow> bool) \<Rightarrow> 'a \<Rightarrow> 'a list \<Rightarrow> 'a list" where
  "insert_behind p y [] = []"
| "insert_behind p y (x # xs) = (if p x then x # y # xs else x # insert_behind p y xs)"

definition g_queue_insert_after :: "('a \<Rightarrow> bool) \<Rightarrow> 'a \<Rightarrow> 'a list \<Rightarrow> 'a list" where
  "g_queue_insert_after p y xs = (if \<exists>x \<in> set xs. p x then insert_behind p y xs else y # xs)"

definition queue :: "PseudoTcpSocketPrivate \<Rightarrow> bytes \<Rightarrow> u32 \<Rightarrow> u8 \<Rightarrow> (u32 \<times> PseudoTcpSocketPrivate) option" where
  "queue s d len flags = do {
     let available_space = pseudo_tcp_fifo_get_write_remaining (sbuf s);
     len \<leftarrow> (if unat len > available_space
             then do { assertion (flags = FLAG_NONE); Some (of_nat available_space) } else Some len);
     let s = (if slist s \<noteq> [] \<and> ss_flags (last (slist s)) = flags \<and> ss_xmit (last (slist s)) = 0
       then s\<lparr>slist := butlast (slist s) @ [last (slist s)\<lparr>ss_len := ss_len (last (slist s)) + len\<rparr>]\<rparr>
       else s\<lparr>slist := slist s @ [\<lparr>ss_id = next_id s,
                ss_seq = snd_una s + of_nat (pseudo_tcp_fifo_get_buffered (sbuf s)),
                ss_len = len, ss_xmit = 0, ss_flags = flags\<rparr>],
              unsent_slist := unsent_slist s @ [next_id s], next_id := next_id s + 1\<rparr>);
     (written, b) \<leftarrow> pseudo_tcp_fifo_write (sbuf s) d (unat len);
     Some (of_nat written, s\<lparr>sbuf := b\<rparr>)
   }"

definition connect_message :: "PseudoTcpSocketPrivate \<Rightarrow> bytes" where
  "connect_message s =
     [CTL_CONNECT] @
     (if support_wnd_scale s then [TCP_OPT_WND_SCALE, 1, rwnd_scale s] else []) @
     (if support_fin_ack s then [TCP_OPT_FIN_ACK, 1, 0] else [])"

definition queue_connect_message :: "PseudoTcpSocketPrivate \<Rightarrow> PseudoTcpSocketPrivate option" where
  "queue_connect_message s = do {
     let buf = connect_message s;
     let size = of_nat (length buf);
     (_, s) \<leftarrow> queue (s\<lparr>snd_wnd := size\<rparr>) buf size FLAG_CTL;
     Some s
   }"

definition queue_fin_message :: "PseudoTcpSocketPrivate \<Rightarrow> PseudoTcpSocketPrivate option" where
  "queue_fin_message s = do {
     assertion (support_fin_ack s);
     (_, s) \<leftarrow> queue s [] 0 FLAG_FIN;
     Some s
   }"

definition queue_rst_message :: "PseudoTcpSocketPrivate \<Rightarrow> PseudoTcpSocketPrivate option" where
  "queue_rst_message s = do {
     assertion (support_fin_ack s);
     (_, s) \<leftarrow> queue s [] 0 FLAG_RST;
     Some s
   }"

section \<open>Packets\<close>

definition packet_header :: "PseudoTcpSocketPrivate \<Rightarrow> u32 \<Rightarrow> u8 \<Rightarrow> u32 \<Rightarrow> bytes" where
  "packet_header s seq flags now =
     be_enc 4 (conv s) @ be_enc 4 seq @ be_enc 4 (rcv_nxt s) @ [0, flags] @
     be_enc 2 (ucast (drop_bit (unat (rwnd_scale s)) (rcv_wnd s)) :: u16) @
     be_enc 4 now @ be_enc 4 (ts_recent s)"

definition packet_payload :: "PseudoTcpSocketPrivate \<Rightarrow> u32 \<Rightarrow> u32 \<Rightarrow> bytes option" where
  "packet_payload s offset len =
     (if len = 0 then Some []
      else do {
        d \<leftarrow> pseudo_tcp_fifo_read_offset (sbuf s) (unat len) (unat offset);
        assertion (HEADER_SIZE + length d \<le> MAX_PACKET);
        assertion (length d = unat len);
        Some d
      })"

definition packet_sent :: "PseudoTcpSocketPrivate \<Rightarrow> u32 \<Rightarrow> u32 \<Rightarrow> PseudoTcpSocketPrivate" where
  "packet_sent s len now =
     (let s = s\<lparr>t_ack := 0\<rparr>;
          s = (if len > 0 then s\<lparr>lastsend := now\<rparr> else s)
      in s\<lparr>last_traffic := now, bOutgoing := True\<rparr>)"

definition packet :: "PseudoTcpEnv \<Rightarrow> PseudoTcpSocketPrivate \<Rightarrow> u32 \<Rightarrow> u8 \<Rightarrow> u32 \<Rightarrow> u32 \<Rightarrow> u32 \<Rightarrow>
    (PseudoTcpWriteResult \<times> PseudoTcpSocketPrivate) option" where
  "packet env s seq flags offset len now = do {
     assertion (of_nat HEADER_SIZE + len \<le> of_nat MAX_PACKET);
     assertion (unat (rwnd_scale s) < 32);
     let header = packet_header s seq flags now;
     let s = s\<lparr>ts_lastack := rcv_nxt s\<rparr>;
     payload \<leftarrow> packet_payload s offset len;
     let wres = WritePacket env (length (packets s)) (header @ payload);
     let s = s\<lparr>packets := packets s @ [header @ payload]\<rparr>;
     if wres \<noteq> WR_SUCCESS \<and> len \<noteq> 0 then Some (wres, s) else Some (WR_SUCCESS, packet_sent s len now)
   }"

text \<open>The inner loop of \<open>transmit\<close>: smaller packet sizes until one is below the failed size.\<close>

definition levels_left :: "PseudoTcpSocketPrivate \<Rightarrow> nat" where
  "levels_left s = length PACKET_MAXIMUMS - unat (msslevel s + 1)"

lemma levels_left_less:
  assumes "unat (msslevel s + 1) < length PACKET_MAXIMUMS" and "msslevel s' = msslevel s + 1"
  shows "levels_left s' < levels_left s"
proof -
  define y where "y = msslevel s + 1"
  have "unat y < 11" using assms(1) by (simp add: PACKET_MAXIMUMS_def y_def)
  moreover from this have "unat (y + 1) = unat y + 1" by (simp add: unat_word_ariths(1))
  ultimately show ?thesis using assms(2) by (simp add: levels_left_def y_def [symmetric] PACKET_MAXIMUMS_def)
qed

function shrink_mss :: "PseudoTcpSocketPrivate \<Rightarrow> u32 \<Rightarrow> (errno \<times> u32 \<times> PseudoTcpSocketPrivate) option" where
  "shrink_mss s nTransmit =
     (let level = msslevel s + 1 in
      if length PACKET_MAXIMUMS \<le> unat level then None
      else if PACKET_MAXIMUMS ! unat level = 0 then Some (EMSGSIZE, nTransmit, s)
      else
        let s = s\<lparr>msslevel := level, mss := ucast (PACKET_MAXIMUMS ! unat level) - PACKET_OVERHEAD\<rparr>;
            s = s\<lparr>cwnd := 2 * mss s\<rparr>
        in if mss s < nTransmit then Some (E_OK, mss s, s) else shrink_mss s nTransmit)"
  by pat_completeness auto
termination
  by (relation "measure (\<lambda>(s, n). levels_left s)") (simp_all add: levels_left_less)

declare shrink_mss.simps [simp del]

lemma shrink_mss_level:
  "shrink_mss s n = Some (E_OK, n', s') \<Longrightarrow> levels_left s' < levels_left s"
proof (induction s n rule: shrink_mss.induct)
  case (1 s n)
  let ?l = "msslevel s + 1"
  define t where "t = s\<lparr>msslevel := ?l, mss := ucast (PACKET_MAXIMUMS ! unat ?l) - PACKET_OVERHEAD,
    cwnd := 2 * (ucast (PACKET_MAXIMUMS ! unat ?l) - PACKET_OVERHEAD)\<rparr>"
  have ok: "unat ?l < length PACKET_MAXIMUMS" "PACKET_MAXIMUMS ! unat ?l \<noteq> 0"
    using "1.prems" by (subst (asm) shrink_mss.simps, simp add: Let_def split: if_splits)+
  then have less: "levels_left t < levels_left s" by (intro levels_left_less) (simp_all add: t_def)
  have "shrink_mss s n = (if mss t < n then Some (E_OK, mss t, t) else shrink_mss t n)"
    using ok by (subst shrink_mss.simps) (simp add: Let_def t_def)
  moreover have "shrink_mss t n = Some (E_OK, n', s') \<Longrightarrow> \<not> mss t < n \<Longrightarrow> levels_left s' < levels_left t"
    using "1.IH" [OF refl _ _ refl refl] ok by (simp add: t_def)
  ultimately show ?case using less "1.prems" by (auto split: if_splits)
qed

text \<open>Groups of fields: the receiver, the send queue, and the connection.\<close>

definition rx :: "PseudoTcpSocketPrivate \<Rightarrow> RSegment list \<times> PseudoTcpFifo \<times> u32 \<times> u32 \<times> u32 \<times> u8 \<times> u32 \<times> bool" where
  "rx s = (rlist s, rbuf s, rcv_nxt s, rcv_wnd s, rbuf_len s, rwnd_scale s, rcv_fin s, shutdown_reads s)"

definition tx :: "PseudoTcpSocketPrivate \<Rightarrow> SSegment list \<times> nat list \<times> PseudoTcpFifo \<times> u32 \<times> u32 \<times> nat" where
  "tx s = (slist s, unsent_slist s, sbuf s, snd_una s, snd_nxt s, next_id s)"

definition cx :: "PseudoTcpSocketPrivate \<Rightarrow> PseudoTcpState \<times> bool \<times> u32 \<times> u32 \<times> u32 \<times> Shutdown" where
  "cx s = (state s, support_fin_ack s, conv s, mss s, msslevel s, shutdown s)"

lemmas view_defs = rx_def tx_def cx_def

lemma packet_sent_keeps [simp]:
  "rx (packet_sent s len now) = rx s" "tx (packet_sent s len now) = tx s" "cx (packet_sent s len now) = cx s"
  "packets (packet_sent s len now) = packets s"
  by (simp_all add: packet_sent_def view_defs Let_def)

lemma wire_update_keeps [simp]:
  "rx (s\<lparr>ts_lastack := a, packets := p\<rparr>) = rx s" "tx (s\<lparr>ts_lastack := a, packets := p\<rparr>) = tx s"
  "cx (s\<lparr>ts_lastack := a, packets := p\<rparr>) = cx s"
  by (simp_all add: view_defs)

lemma packet_keeps:
  assumes "packet env s seq flags offset len now = Some (w, s')"
  shows "rx s' = rx s" and "tx s' = tx s" and "cx s' = cx s"
  using assms by (auto simp: packet_def Let_def bind_eq_Some_conv split: if_splits)

function transmit_loop :: "PseudoTcpEnv \<Rightarrow> PseudoTcpSocketPrivate \<Rightarrow> SSegment \<Rightarrow> u32 \<Rightarrow> u32 \<Rightarrow>
    (errno \<times> u32 \<times> PseudoTcpSocketPrivate) option" where
  "transmit_loop env s segment nTransmit now = do {
     assertion (ss_seq segment - snd_una s \<le> 1024 * 1024 * 64);
     (wres, s1) \<leftarrow> packet env s (ss_seq segment) (ss_flags segment) (ss_seq segment - snd_una s) nTransmit now;
     (case wres of
        WR_SUCCESS \<Rightarrow> Some (E_OK, nTransmit, s1)
      | WR_FAIL \<Rightarrow> Some (ECONNABORTED, nTransmit, s1)
      | WR_TOO_LARGE \<Rightarrow> do {
          (e, n, s2) \<leftarrow> shrink_mss s1 nTransmit;
          if e \<noteq> E_OK then Some (e, n, s2) else transmit_loop env s2 segment n now
        })
   }"
  by pat_completeness auto
termination
proof (relation "measure (\<lambda>(env, s, g, n, now). levels_left s)", goal_cases)
  case 1
  then show ?case by simp
next
  case (2 env s g n now u p w s1 r e q n' s2)
  then have "shrink_mss s1 n = Some (E_OK, n', s2)" "levels_left s1 = levels_left s"
    using packet_keeps(3) by (fastforce simp: levels_left_def cx_def)+
  then show ?case using shrink_mss_level [of s1 n n' s2] by simp
qed

declare transmit_loop.simps [simp del]

text \<open>The part of a segment behind its first \<open>n\<close> bytes becomes a segment of its own.\<close>

definition split_segment :: "PseudoTcpSocketPrivate \<Rightarrow> SSegment \<Rightarrow> u32 \<Rightarrow> u8 \<Rightarrow> PseudoTcpSocketPrivate" where
  "split_segment s g n xmit =
     (let subseg = \<lparr>ss_id = next_id s, ss_seq = ss_seq g + n, ss_len = ss_len g - n, ss_xmit = xmit,
                    ss_flags = ss_flags g\<rparr>;
          s = update_segment (ss_id g) (\<lambda>g. g\<lparr>ss_len := n\<rparr>) s
      in s\<lparr>slist := g_queue_insert_after (\<lambda>h. ss_id h = ss_id g) subseg (slist s),
           unsent_slist := (if xmit = 0 then g_queue_insert_after (\<lambda>i. i = ss_id g) (ss_id subseg) (unsent_slist s)
                            else unsent_slist s),
           next_id := next_id s + 1\<rparr>)"

definition segment_sent :: "PseudoTcpSocketPrivate \<Rightarrow> SSegment \<Rightarrow> u32 \<Rightarrow> PseudoTcpSocketPrivate option" where
  "segment_sent s g now = do {
     s \<leftarrow> (if ss_xmit g = 0 then do {
         assertion (unsent_slist s \<noteq> [] \<and> hd (unsent_slist s) = ss_id g);
         let s = s\<lparr>unsent_slist := tl (unsent_slist s), snd_nxt := snd_nxt s + ss_len g\<rparr>;
         Some (if ss_len g = 0 \<and> ss_flags g AND FLAG_FIN \<noteq> 0 then s\<lparr>snd_nxt := snd_nxt s + 1\<rparr> else s)
       } else Some s);
     let s = update_segment (ss_id g) (\<lambda>g. g\<lparr>ss_xmit := ss_xmit g + 1\<rparr>) s;
     Some (if rto_base s = 0 then s\<lparr>rto_base := now\<rparr> else s)
   }"

definition transmit :: "PseudoTcpEnv \<Rightarrow> PseudoTcpSocketPrivate \<Rightarrow> nat \<Rightarrow> u32 \<Rightarrow>
    (errno \<times> PseudoTcpSocketPrivate) option" where
  "transmit env s i now = do {
     segment \<leftarrow> find_segment s i;
     if ss_xmit segment \<ge> (if state s = PSEUDO_TCP_ESTABLISHED then 15 else 30) then Some (ETIMEDOUT, s)
     else do {
       (e, nTransmit, s) \<leftarrow> transmit_loop env s segment (min (ss_len segment) (mss s)) now;
       if e \<noteq> E_OK then Some (e, s)
       else do {
         let (segment, s) = (if nTransmit < ss_len segment
           then (segment\<lparr>ss_len := nTransmit\<rparr>, split_segment s segment nTransmit (ss_xmit segment))
           else (segment, s));
         s \<leftarrow> segment_sent s segment now;
         Some (E_OK, s)
       }
     }
   }"

section \<open>Closing\<close>

fun set_states :: "PseudoTcpSocketPrivate \<Rightarrow> PseudoTcpState list \<Rightarrow> PseudoTcpSocketPrivate option" where
  "set_states s [] = Some s"
| "set_states s (st # sts) = do { s \<leftarrow> set_state s st; set_states s sts }"

fun closedown_path :: "PseudoTcpState \<Rightarrow> PseudoTcpState list" where
  "closedown_path PSEUDO_TCP_SYN_RECEIVED = [PSEUDO_TCP_FIN_WAIT_1, PSEUDO_TCP_FIN_WAIT_2, PSEUDO_TCP_TIME_WAIT]"
| "closedown_path PSEUDO_TCP_ESTABLISHED = [PSEUDO_TCP_FIN_WAIT_1, PSEUDO_TCP_FIN_WAIT_2, PSEUDO_TCP_TIME_WAIT]"
| "closedown_path PSEUDO_TCP_FIN_WAIT_1 = [PSEUDO_TCP_FIN_WAIT_2, PSEUDO_TCP_TIME_WAIT]"
| "closedown_path PSEUDO_TCP_FIN_WAIT_2 = [PSEUDO_TCP_TIME_WAIT]"
| "closedown_path PSEUDO_TCP_CLOSING = [PSEUDO_TCP_TIME_WAIT]"
| "closedown_path PSEUDO_TCP_CLOSE_WAIT = [PSEUDO_TCP_LAST_ACK]"
| "closedown_path _ = []"

text \<open>The part of \<open>closedown\<close> behind its messages; with the source \<open>CLOSEDOWN_REMOTE\<close> this is all of it.\<close>

definition closedown_states :: "PseudoTcpSocketPrivate \<Rightarrow> errno \<Rightarrow> PseudoTcpSocketPrivate option" where
  "closedown_states s err = do {
     s \<leftarrow> set_states s (closedown_path (state s));
     set_state_closed s err
   }"

section \<open>Attempts to send\<close>

definition usable_bytes :: "PseudoTcpSocketPrivate \<Rightarrow> u32" where
  "usable_bytes s =
     (let w = (if dup_acks s = 1 \<or> dup_acks s = 2 then cwnd s + ucast (dup_acks s) * mss s else cwnd s);
          nWindow = min (snd_wnd s) w;
          nInFlight = snd_nxt s - snd_una s;
          nUseable = (if nInFlight < nWindow then nWindow - nInFlight else 0);
          snd_buffered = pseudo_tcp_fifo_get_buffered (sbuf s);
          nAvailable = (if snd_buffered < unat nInFlight then 0
                        else of_nat (min (snd_buffered - unat nInFlight) (unat (mss s))))
      in if nAvailable > nUseable then (if nUseable * 4 < nWindow then 0 else nUseable) else nAvailable)"

definition attempt_transmit :: "PseudoTcpEnv \<Rightarrow> PseudoTcpSocketPrivate \<Rightarrow> nat \<Rightarrow> u32 \<Rightarrow> SendFlags \<Rightarrow> u32 \<Rightarrow>
    (errno \<times> PseudoTcpSocketPrivate) option" where
  "attempt_transmit env s i nAvailable sflags now = do {
     sseg \<leftarrow> find_segment s i;
     let s = (if ss_len sseg > nAvailable \<and> sflags \<noteq> sfFin \<and> sflags \<noteq> sfRst
              then split_segment s sseg nAvailable 0 else s);
     transmit env s i now
   }"

text \<open>One round of the loop of \<open>attempt_send\<close>: \<open>Inl\<close> for a return, \<open>Inr\<close> to go on.\<close>

definition attempt_step :: "PseudoTcpEnv \<Rightarrow> u32 \<Rightarrow> PseudoTcpSocketPrivate \<Rightarrow> SendFlags \<Rightarrow>
    (PseudoTcpSocketPrivate + PseudoTcpSocketPrivate \<times> SendFlags) option" where
  "attempt_step env now s sflags =
     (let nAvailable = usable_bytes s in
      if sflags = sfDuplicateAck then do {
        (_, s) \<leftarrow> packet env s (snd_nxt s) FLAG_NONE 0 0 now;
        Some (Inr (s, sfNone))
      }
      else if nAvailable = 0 \<and> sflags \<noteq> sfFin \<and> sflags \<noteq> sfRst then
        (if sflags = sfNone then Some (Inl s)
         else if sflags = sfImmediateAck \<or> sflags = sfDuplicateAck \<or> t_ack s \<noteq> 0 then do {
           (_, s) \<leftarrow> packet env s (snd_nxt s) FLAG_NONE 0 0 now;
           Some (Inl s)
         }
         else Some (Inl (s\<lparr>t_ack := now\<rparr>)))
      else if use_nagling s \<and> sflags \<noteq> sfFin \<and> sflags \<noteq> sfRst \<and> snd_nxt s > snd_una s \<and> nAvailable < mss s
      then Some (Inl s)
      else (case unsent_slist s of
              [] \<Rightarrow> Some (Inl s)
            | i # _ \<Rightarrow> do {
                (e, s) \<leftarrow> attempt_transmit env s i nAvailable sflags now;
                if e \<noteq> E_OK then do { s \<leftarrow> closedown_states s e; Some (Inl s) }
                else Some (Inr (s, if sflags = sfImmediateAck \<or> sflags = sfDelayedAck then sfNone else sflags))
              }))"

partial_function (option) attempt_send_loop ::
  "PseudoTcpEnv \<Rightarrow> u32 \<Rightarrow> PseudoTcpSocketPrivate \<Rightarrow> SendFlags \<Rightarrow> PseudoTcpSocketPrivate option" where
  "attempt_send_loop env now s sflags = do {
     r \<leftarrow> attempt_step env now s sflags;
     (case r of Inl s \<Rightarrow> Some s | Inr (s, sflags) \<Rightarrow> attempt_send_loop env now s sflags)
   }"

definition attempt_send :: "PseudoTcpEnv \<Rightarrow> PseudoTcpSocketPrivate \<Rightarrow> SendFlags \<Rightarrow> PseudoTcpSocketPrivate option" where
  "attempt_send env s sflags =
     (let (now, s) = get_current_time env s;
          s = (if time_diff now (lastsend s) > int (unat (rx_rto s)) then s\<lparr>cwnd := mss s\<rparr> else s)
      in attempt_send_loop env now s sflags)"

definition closedown :: "PseudoTcpEnv \<Rightarrow> PseudoTcpSocketPrivate \<Rightarrow> errno \<Rightarrow> ClosedownSource \<Rightarrow>
    PseudoTcpSocketPrivate option" where
  "closedown env s err source = do {
     s \<leftarrow> (if source = CLOSEDOWN_LOCAL \<and> support_fin_ack s then do {
         s \<leftarrow> queue_rst_message s;
         attempt_send env s sfRst
       }
       else if source = CLOSEDOWN_LOCAL then Some (s\<lparr>shutdown := SD_FORCEFUL\<rparr>)
       else Some s);
     closedown_states s err
   }"

lemma attempt_send_invariant:
  assumes step: "\<And>s f r. P s \<Longrightarrow> attempt_step env now s f = Some r \<Longrightarrow>
      (case r of Inl s' \<Rightarrow> P s' | Inr (s', f') \<Rightarrow> P s')"
    and "P s" and "attempt_send_loop env now s f = Some s'"
  shows "P s'"
proof -
  define ok where "ok env now = (\<forall>s f r. P s \<longrightarrow> attempt_step env now s f = Some r \<longrightarrow>
    (case r of Inl s' \<Rightarrow> P s' | Inr (s', f') \<Rightarrow> P s'))" for env now
  have "ok env now \<longrightarrow> P s \<longrightarrow> P s'"
  proof (rule attempt_send_loop.raw_induct [OF _ assms(3), where P = "\<lambda>env now s f s'. ok env now \<longrightarrow> P s \<longrightarrow> P s'"],
      intro impI)
    fix loop env now s f s'
    assume IH: "\<And>env now s f s'. loop env now s f = Some s' \<Longrightarrow> ok env now \<longrightarrow> P s \<longrightarrow> P s'"
      and eq: "attempt_step env now s f \<bind>
        (\<lambda>r. case r of Inl s \<Rightarrow> Some s | Inr (s, sflags) \<Rightarrow> loop env now s sflags) = Some s'"
      and ok: "ok env now" and "P s"
    from eq obtain r where r: "attempt_step env now s f = Some r"
      "(case r of Inl s \<Rightarrow> Some s | Inr (s, sflags) \<Rightarrow> loop env now s sflags) = Some s'"
      by (auto simp: bind_eq_Some_conv)
    then have "case r of Inl t \<Rightarrow> P t | Inr (t, g) \<Rightarrow> P t" using ok \<open>P s\<close> by (simp add: ok_def)
    then show "P s'" using r(2) IH ok by (cases r) auto
  qed
  then show ?thesis using step assms(2) by (simp add: ok_def)
qed

end
