(* ===== verification/Pseudo_Tcp.thy ===== *)
theory Pseudo_Tcp
  imports Pseudo_Tcp_Send
begin

text \<open>
  The pseudo-TCP socket of \<open>src/libnice/agent/pseudotcp.c\<close>, continued: the options of the
  connect message, the processing of a received segment, and the public operations.
  \<open>process\<close> is split into its stages, in the order of the code.
\<close>

section \<open>Buffers and options\<close>

definition resize_send_buffer ::
  "PseudoTcpEnv \<Rightarrow> PseudoTcpSocketPrivate \<Rightarrow> u32 \<Rightarrow> PseudoTcpSocketPrivate option" where
  "resize_send_buffer env s new_size = do {
     (_, b) \<leftarrow> pseudo_tcp_fifo_set_capacity (sbuf s) (slice_alloc env (unat new_size));
     Some (s\<lparr>sbuf_len := new_size, sbuf := b\<rparr>)
   }"

lemma half_less:
  assumes "65535 < (x :: u32)"
  shows "unat (drop_bit (Suc 0) x) < unat x"
proof -
  have "0 < unat x" using assms by (simp add: word_less_nat_alt)
  then show ?thesis by (simp add: drop_bit_Suc unat_div)
qed

function scale_window :: "u8 \<Rightarrow> u32 \<Rightarrow> u8 \<times> u32" where
  "scale_window scale_factor new_size =
     (if new_size > 0xFFFF then scale_window (scale_factor + 1) (drop_bit 1 new_size) else (scale_factor, new_size))"
  by pat_completeness auto
termination
  by (relation "measure (\<lambda>(f, n). unat n)") (simp_all add: half_less)

declare scale_window.simps [simp del]

definition resize_receive_buffer ::
  "PseudoTcpEnv \<Rightarrow> PseudoTcpSocketPrivate \<Rightarrow> u32 \<Rightarrow> PseudoTcpSocketPrivate option" where
  "resize_receive_buffer env s new_size =
     (if rbuf_len s = new_size then Some s
      else do {
        let (scale_factor, size) = scale_window 0 new_size;
        let new_size = push_bit (unat scale_factor) size;
        (result, b) \<leftarrow> pseudo_tcp_fifo_set_capacity (rbuf s) (slice_alloc env (unat new_size));
        assertion result;
        Some (s\<lparr>rbuf := b, rbuf_len := new_size, rwnd_scale := scale_factor, ssthresh := new_size,
                rcv_wnd := of_nat (pseudo_tcp_fifo_get_write_remaining b)\<rparr>)
      })"

definition apply_window_scale_option :: "PseudoTcpSocketPrivate \<Rightarrow> u8 \<Rightarrow> PseudoTcpSocketPrivate" where
  "apply_window_scale_option s scale_factor = s\<lparr>swnd_scale := scale_factor\<rparr>"

definition apply_fin_ack_option :: "PseudoTcpSocketPrivate \<Rightarrow> PseudoTcpSocketPrivate" where
  "apply_fin_ack_option s = s\<lparr>support_fin_ack := True\<rparr>"

definition apply_option ::
  "PseudoTcpSocketPrivate \<Rightarrow> u8 \<Rightarrow> bytes \<Rightarrow> nat \<Rightarrow> PseudoTcpSocketPrivate option" where
  "apply_option s kind d len =
     (if kind = TCP_OPT_WND_SCALE then
        (if len \<noteq> 1 then Some s else do { f \<leftarrow> rd8 d 0; Some (apply_window_scale_option s f) })
      else if kind = TCP_OPT_FIN_ACK then Some (apply_fin_ack_option s)
      else Some s)"

text \<open>
  The loop of \<open>parse_options\<close> with its two flags.  The first component tells whether it ran to
  its end: an early \<open>return\<close> leaves the function.
\<close>

function parse_options_loop :: "bytes \<Rightarrow> nat \<Rightarrow> nat \<Rightarrow> bool \<Rightarrow> bool \<Rightarrow> PseudoTcpSocketPrivate \<Rightarrow>
    (bool \<times> bool \<times> bool \<times> PseudoTcpSocketPrivate) option" where
  "parse_options_loop d len pos has_wnd has_fin s =
     (if len \<le> pos then Some (True, has_wnd, has_fin, s)
      else do {
        kind \<leftarrow> rd8 d pos;
        if kind = TCP_OPT_EOL then Some (True, has_wnd, has_fin, s)
        else if kind = TCP_OPT_NOOP then parse_options_loop d len (pos + 1) has_wnd has_fin s
        else if len < pos + 2 then Some (False, has_wnd, has_fin, s)
        else do {
          opt_len \<leftarrow> rd8 d (pos + 1);
          if len < pos + 2 + unat opt_len then Some (False, has_wnd, has_fin, s)
          else do {
            s \<leftarrow> apply_option s kind (drop (pos + 2) d) (unat opt_len);
            parse_options_loop d len (pos + 2 + unat opt_len) (has_wnd \<or> kind = TCP_OPT_WND_SCALE)
              (has_fin \<or> kind = TCP_OPT_FIN_ACK) s
          }
        }
      })"
  by pat_completeness auto
termination
  by (relation "measure (\<lambda>(d, len, pos, w, f, s). len - pos)") auto

declare parse_options_loop.simps [simp del]

definition parse_options ::
  "PseudoTcpEnv \<Rightarrow> PseudoTcpSocketPrivate \<Rightarrow> bytes \<Rightarrow> nat \<Rightarrow> PseudoTcpSocketPrivate option" where
  "parse_options env s d len = do {
     (completed, has_wnd, has_fin, s) \<leftarrow> parse_options_loop d len 0 False False s;
     if \<not> completed then Some s
     else do {
       s \<leftarrow> (if \<not> has_wnd \<and> rwnd_scale s > 0 then do {
           s \<leftarrow> resize_receive_buffer env s DEFAULT_RCV_BUF_SIZE;
           Some (s\<lparr>swnd_scale := 0\<rparr>)
         } else Some s);
       Some (if \<not> has_fin then s\<lparr>support_fin_ack := False\<rparr> else s)
     }
   }"

section \<open>Processing a segment\<close>

text \<open>Control data: whether to go on, and whether the segment is a connect message.\<close>

definition process_control :: "PseudoTcpEnv \<Rightarrow> PseudoTcpSocketPrivate \<Rightarrow> Segment \<Rightarrow>
    (bool \<times> bool \<times> PseudoTcpSocketPrivate) option" where
  "process_control env s seg =
     (if seg_flags seg AND FLAG_CTL = 0 then Some (True, False, s)
      else if seg_len seg = 0 then Some (False, False, s)
      else do {
        code \<leftarrow> rd8 (seg_data seg) 0;
        if code = CTL_CONNECT then do {
          s \<leftarrow> parse_options env s (drop 1 (seg_data seg)) (unat (seg_len seg - 1));
          s \<leftarrow> (if state s = PSEUDO_TCP_LISTEN then do {
              s \<leftarrow> set_state s PSEUDO_TCP_SYN_RECEIVED;
              queue_connect_message s
            }
            else if state s = PSEUDO_TCP_SYN_SENT then set_state_established s
            else Some s);
          Some (True, True, s)
        }
        else Some (False, False, s)
      })"

definition update_timestamp :: "PseudoTcpSocketPrivate \<Rightarrow> Segment \<Rightarrow> PseudoTcpSocketPrivate" where
  "update_timestamp s seg =
     (if SMALLER_OR_EQUAL (seg_seq seg) (ts_lastack s) \<and> SMALLER (ts_lastack s) (seg_seq seg + seg_len seg)
      then s\<lparr>ts_recent := seg_tsval seg\<rparr> else s)"

text \<open>The round-trip estimate; \<open>long\<close> has 64 bits, and the products are taken in 32 bits.\<close>

definition update_rtt :: "PseudoTcpSocketPrivate \<Rightarrow> int \<Rightarrow> PseudoTcpSocketPrivate" where
  "update_rtt s rtt =
     (let s = (if rx_srtt s = 0 then s\<lparr>rx_srtt := of_int rtt, rx_rttvar := of_int (rtt div 2)\<rparr>
               else s\<lparr>rx_rttvar := of_int ((uint (3 * rx_rttvar s) + \<bar>rtt - uint (rx_srtt s)\<bar>) div 4),
                      rx_srtt := of_int ((uint (7 * rx_srtt s) + rtt) div 8)\<rparr>)
      in s\<lparr>rx_rto := bound MIN_RTO (of_int (uint (rx_srtt s) + max 1 (uint (4 * rx_rttvar s)))) MAX_RTO\<rparr>)"

text \<open>\<open>seg->wnd << swnd_scale\<close> in the type \<open>int\<close>.\<close>

definition scaled_window :: "u16 \<Rightarrow> u8 \<Rightarrow> u32 option" where
  "scaled_window wnd scale =
     (if unat scale < 32 \<and> unat wnd * 2 ^ unat scale < 2 ^ 31 then Some (of_nat (unat wnd * 2 ^ unat scale)) else None)"

fun free_segments :: "SSegment list \<Rightarrow> u32 \<Rightarrow> u32 \<Rightarrow> (SSegment list \<times> u32) option" where
  "free_segments [] nFree lg = (if nFree = 0 then Some ([], lg) else None)"
| "free_segments (g # gs) nFree lg =
     (if nFree = 0 then Some (g # gs, lg)
      else if nFree < ss_len g then Some (g\<lparr>ss_len := ss_len g - nFree, ss_seq := ss_seq g + nFree\<rparr> # gs, lg)
      else free_segments gs (nFree - ss_len g) (if ss_len g > lg then ss_len g else lg))"

definition transmit_head :: "PseudoTcpEnv \<Rightarrow> PseudoTcpSocketPrivate \<Rightarrow> u32 \<Rightarrow> (errno \<times> PseudoTcpSocketPrivate) option" where
  "transmit_head env s now = (case slist s of [] \<Rightarrow> None | g # _ \<Rightarrow> transmit env s (ss_id g) now)"

text \<open>
  The bookkeeping of an acknowledgement of new data: the result has \<open>nAcked\<close> and tells whether a FIN
  was acknowledged.
\<close>

definition accept_ack :: "PseudoTcpSocketPrivate \<Rightarrow> Segment \<Rightarrow> u32 \<Rightarrow> (u32 \<times> bool \<times> PseudoTcpSocketPrivate) option" where
  "accept_ack s seg now = do {
     w \<leftarrow> scaled_window (seg_wnd seg) (swnd_scale s);
     let nAcked = seg_ack seg - snd_una s;
     let s = s\<lparr>snd_wnd := w, snd_una := seg_ack seg, rto_base := (if seg_ack seg = snd_nxt s then 0 else now)\<rparr>;
     let is_fin_ack = (unat nAcked = data_length (sbuf s) + 1 \<and> pseudo_tcp_state_has_sent_fin (state s));
     let nAcked = (if is_fin_ack then nAcked - 1 else nAcked);
     b \<leftarrow> pseudo_tcp_fifo_consume_read_data (sbuf s) (unat nAcked);
     (gs, lg) \<leftarrow> free_segments (slist s) nAcked (largest s);
     Some (nAcked, is_fin_ack, s\<lparr>sbuf := b, slist := gs, largest := lg\<rparr>)
   }"

text \<open>Whether to go on, after the congestion window was adjusted to an acknowledgement of new data.\<close>

definition ack_congestion :: "PseudoTcpEnv \<Rightarrow> PseudoTcpSocketPrivate \<Rightarrow> u32 \<Rightarrow> u32 \<Rightarrow>
    (bool \<times> PseudoTcpSocketPrivate) option" where
  "ack_congestion env s nAcked now =
     (if dup_acks s \<ge> 3 then
        (if LARGER_OR_EQUAL (snd_una s) (recover s) then
           Some (True, s\<lparr>cwnd := min (ssthresh s) (max (snd_nxt s - snd_una s) (mss s) + mss s),
                         fast_recovery := False, dup_acks := 0\<rparr>)
         else do {
           (e, s) \<leftarrow> transmit_head env s now;
           if e \<noteq> E_OK then do { s \<leftarrow> closedown env s e CLOSEDOWN_LOCAL; Some (False, s) }
           else Some (True, s\<lparr>cwnd := cwnd s + ((if nAcked > mss s then mss s else 0) - min nAcked (cwnd s))\<rparr>)
         })
      else do {
        let s = s\<lparr>dup_acks := 0\<rparr>;
        if cwnd s < ssthresh s then Some (True, s\<lparr>cwnd := cwnd s + mss s\<rparr>)
        else do {
          assertion (cwnd s \<noteq> 0);
          Some (True, s\<lparr>cwnd := cwnd s + max 1 ((mss s * mss s) div cwnd s)\<rparr>)
        }
      })"

definition process_valuable_ack :: "PseudoTcpEnv \<Rightarrow> PseudoTcpSocketPrivate \<Rightarrow> Segment \<Rightarrow> u32 \<Rightarrow>
    (bool \<times> bool \<times> PseudoTcpSocketPrivate) option" where
  "process_valuable_ack env s seg now =
     (let rtt = time_diff now (seg_tsecr seg) in
      if seg_tsecr seg \<noteq> 0 \<and> rtt < 0 then Some (False, False, s)
      else do {
        let s = (if seg_tsecr seg \<noteq> 0 then (update_rtt s rtt)\<lparr>last_acked_ts := seg_tsecr seg\<rparr> else s);
        (nAcked, is_fin_ack, s) \<leftarrow> accept_ack s seg now;
        (ok, s) \<leftarrow> ack_congestion env s nAcked now;
        Some (ok, is_fin_ack, s)
      })"

definition fast_retransmit :: "PseudoTcpEnv \<Rightarrow> PseudoTcpSocketPrivate \<Rightarrow> u32 \<Rightarrow>
    (bool \<times> PseudoTcpSocketPrivate) option" where
  "fast_retransmit env s now = do {
     (e, s) \<leftarrow> transmit_head env s now;
     if e \<noteq> E_OK then do { s \<leftarrow> closedown env s e CLOSEDOWN_LOCAL; Some (False, s) }
     else do {
       let s = s\<lparr>recover := snd_nxt s, ssthresh := max ((snd_nxt s - snd_una s) div 2) (2 * mss s)\<rparr>;
       Some (True, s\<lparr>cwnd := ssthresh s + 3 * mss s, fast_recovery := True\<rparr>)
     }
   }"

definition count_duplicate_ack :: "PseudoTcpEnv \<Rightarrow> PseudoTcpSocketPrivate \<Rightarrow> Segment \<Rightarrow> u32 \<Rightarrow>
    (bool \<times> PseudoTcpSocketPrivate) option" where
  "count_duplicate_ack env s seg now =
     (let s = s\<lparr>dup_acks := dup_acks s + 1\<rparr> in
      if dup_acks s = 3 then
        (if LARGER_OR_EQUAL (snd_una s) (recover s) \<or> seg_tsecr seg = last_acked_ts s
         then fast_retransmit env s now else Some (True, s))
      else if dup_acks s > 3 then Some (True, if fast_recovery s then s\<lparr>cwnd := cwnd s + mss s\<rparr> else s)
      else Some (True, s))"

definition process_duplicate_ack :: "PseudoTcpEnv \<Rightarrow> PseudoTcpSocketPrivate \<Rightarrow> Segment \<Rightarrow> u32 \<Rightarrow>
    (bool \<times> PseudoTcpSocketPrivate) option" where
  "process_duplicate_ack env s seg now = do {
     w \<leftarrow> scaled_window (seg_wnd seg) (swnd_scale s);
     let s = s\<lparr>snd_wnd := w\<rparr>;
     if seg_len seg > 0 then Some (True, s)
     else if snd_una s \<noteq> snd_nxt s then count_duplicate_ack env s seg now
     else Some (True, s\<lparr>dup_acks := 0\<rparr>)
   }"

text \<open>The result tells whether to go on and whether a FIN was acknowledged.\<close>

definition process_ack :: "PseudoTcpEnv \<Rightarrow> PseudoTcpSocketPrivate \<Rightarrow> Segment \<Rightarrow> u32 \<Rightarrow>
    (bool \<times> bool \<times> PseudoTcpSocketPrivate) option" where
  "process_ack env s seg now =
     (if LARGER (seg_ack seg) (snd_una s) \<and> SMALLER_OR_EQUAL (seg_ack seg) (snd_nxt s)
      then process_valuable_ack env s seg now
      else if seg_ack seg = snd_una s then do {
        (ok, s) \<leftarrow> process_duplicate_ack env s seg now;
        Some (ok, False, s)
      }
      else Some (True, False, s))"

text \<open>The state machine of the closing handshake: whether to go on, and whether a FIN was received.\<close>

definition fin_transition :: "PseudoTcpSocketPrivate \<Rightarrow> bool \<Rightarrow> bool \<Rightarrow> PseudoTcpSocketPrivate option" where
  "fin_transition s is_fin_ack received_fin =
     (case state s of
        PSEUDO_TCP_ESTABLISHED \<Rightarrow> (if received_fin then set_state s PSEUDO_TCP_CLOSE_WAIT else Some s)
      | PSEUDO_TCP_CLOSING \<Rightarrow> (if is_fin_ack then set_state s PSEUDO_TCP_TIME_WAIT else Some s)
      | PSEUDO_TCP_LAST_ACK \<Rightarrow> (if is_fin_ack then set_state_closed s E_OK else Some s)
      | PSEUDO_TCP_FIN_WAIT_1 \<Rightarrow>
          (if is_fin_ack \<and> received_fin then set_state s PSEUDO_TCP_TIME_WAIT
           else if is_fin_ack then set_state s PSEUDO_TCP_FIN_WAIT_2
           else if received_fin then set_state s PSEUDO_TCP_CLOSING
           else Some s)
      | PSEUDO_TCP_FIN_WAIT_2 \<Rightarrow> (if received_fin then set_state s PSEUDO_TCP_TIME_WAIT else Some s)
      | _ \<Rightarrow> Some s)"

definition process_fin :: "PseudoTcpSocketPrivate \<Rightarrow> Segment \<Rightarrow> bool \<Rightarrow>
    (bool \<times> bool \<times> PseudoTcpSocketPrivate) option" where
  "process_fin s seg is_fin_ack =
     (if support_fin_ack s then do {
        let s = (if seg_flags seg AND FLAG_FIN \<noteq> 0 then s\<lparr>rcv_fin := seg_seq seg\<rparr> else s);
        if seg_flags seg AND FLAG_FIN \<noteq> 0 \<and> seg_len seg \<noteq> 0 then Some (False, False, s)
        else do {
          let received_fin = (rcv_nxt s \<noteq> 0 \<and> rcv_nxt s + seg_len seg = rcv_fin s);
          s \<leftarrow> fin_transition s is_fin_ack received_fin;
          Some (True, received_fin, s)
        }
      }
      else Some (True, False, s))"

definition process_writable :: "PseudoTcpSocketPrivate \<Rightarrow> PseudoTcpSocketPrivate" where
  "process_writable s =
     (let kIdealRefillSize = (sbuf_len s + rbuf_len s) div 2;
          snd_buffered = pseudo_tcp_fifo_get_buffered (sbuf s)
      in if bWriteEnable s \<and> snd_buffered < unat kIdealRefillSize
         then notify (s\<lparr>bWriteEnable := False\<rparr>) PseudoTcpWritable else s)"

definition ack_flags :: "PseudoTcpSocketPrivate \<Rightarrow> Segment \<Rightarrow> bool \<Rightarrow> SendFlags" where
  "ack_flags s seg received_fin =
     (if seg_seq seg \<noteq> rcv_nxt s then sfDuplicateAck
      else if seg_len seg \<noteq> 0 then (if ack_delay s = 0 then sfImmediateAck else sfDelayedAck)
      else if received_fin then sfImmediateAck
      else sfNone)"

text \<open>The segment adjusted to what is missing and to the room in the receive buffer.\<close>

definition segment_trim_front :: "u32 \<Rightarrow> Segment \<Rightarrow> Segment" where
  "segment_trim_front nxt seg =
     (if SMALLER (seg_seq seg) nxt then
        let nAdjust = nxt - seg_seq seg in
        if nAdjust < seg_len seg
        then seg\<lparr>seg_seq := seg_seq seg + nAdjust, seg_data := drop (unat nAdjust) (seg_data seg),
                 seg_len := seg_len seg - nAdjust\<rparr>
        else seg\<lparr>seg_len := 0\<rparr>
      else seg)"

definition segment_trim_back :: "u32 \<Rightarrow> nat \<Rightarrow> Segment \<Rightarrow> Segment" where
  "segment_trim_back nxt available_space seg =
     (if unat (seg_seq seg + seg_len seg - nxt) > available_space then
        let nAdjust = of_nat (unat (seg_seq seg + seg_len seg - nxt) - available_space) in
        if nAdjust < seg_len seg then seg\<lparr>seg_len := seg_len seg - nAdjust\<rparr> else seg\<lparr>seg_len := 0\<rparr>
      else seg)"

fun recover_segments :: "RSegment list \<Rightarrow> PseudoTcpFifo \<Rightarrow> u32 \<Rightarrow> u32 \<Rightarrow> bool \<Rightarrow>
    (RSegment list \<times> PseudoTcpFifo \<times> u32 \<times> u32 \<times> bool) option" where
  "recover_segments [] b nxt wnd recovered = Some ([], b, nxt, wnd, recovered)"
| "recover_segments (r # rs) b nxt wnd recovered =
     (if SMALLER_OR_EQUAL (rs_seq r) nxt then
        (if LARGER (rs_seq r + rs_len r) nxt then do {
           let nAdjust = rs_seq r + rs_len r - nxt;
           b \<leftarrow> pseudo_tcp_fifo_consume_write_buffer b (unat nAdjust);
           recover_segments rs b (nxt + nAdjust) (wnd - nAdjust) True
         }
         else recover_segments rs b nxt wnd recovered)
      else Some (r # rs, b, nxt, wnd, recovered))"

fun insert_rsegment :: "RSegment \<Rightarrow> RSegment list \<Rightarrow> RSegment list" where
  "insert_rsegment x [] = [x]"
| "insert_rsegment x (r # rs) =
     (if SMALLER (rs_seq r) (rs_seq x) then r # insert_rsegment x rs else x # r # rs)"

text \<open>Storing the data of the adjusted segment; the result has the send flags and whether there is new data.\<close>

definition store_data :: "PseudoTcpSocketPrivate \<Rightarrow> Segment \<Rightarrow> SendFlags \<Rightarrow>
    (SendFlags \<times> bool \<times> PseudoTcpSocketPrivate) option" where
  "store_data s seg sflags = do {
     let nOffset = seg_seq seg - rcv_nxt s;
     (res, b) \<leftarrow> pseudo_tcp_fifo_write_offset (rbuf s) (seg_data seg) (unat (seg_len seg)) (unat nOffset);
     assertion (res = unat (seg_len seg));
     if seg_seq seg = rcv_nxt s then do {
       b \<leftarrow> pseudo_tcp_fifo_consume_write_buffer b (unat (seg_len seg));
       (rs, b, nxt, wnd, recovered) \<leftarrow>
         recover_segments (rlist s) b (rcv_nxt s + seg_len seg) (rcv_wnd s - seg_len seg) False;
       Some (if recovered then sfImmediateAck else sflags, True,
             s\<lparr>rlist := rs, rbuf := b, rcv_nxt := nxt, rcv_wnd := wnd\<rparr>)
     }
     else Some (sflags, False,
       s\<lparr>rbuf := b, rlist := insert_rsegment \<lparr>rs_seq = seg_seq seg, rs_len = seg_len seg\<rparr> (rlist s)\<rparr>)
   }"

definition process_data :: "PseudoTcpSocketPrivate \<Rightarrow> Segment \<Rightarrow> SendFlags \<Rightarrow>
    (SendFlags \<times> bool \<times> PseudoTcpSocketPrivate) option" where
  "process_data s seg sflags =
     (let seg = segment_trim_front (rcv_nxt s) seg;
          seg = segment_trim_back (rcv_nxt s) (pseudo_tcp_fifo_get_write_remaining (rbuf s)) seg;
          bIgnoreData = (seg_flags seg AND FLAG_CTL \<noteq> 0 \<or> \<not> support_fin_ack s \<and> shutdown s \<noteq> SD_NONE)
      in if seg_len seg > 0 then
           (if bIgnoreData then
              Some (sflags, False, if seg_seq seg = rcv_nxt s then s\<lparr>rcv_nxt := rcv_nxt s + seg_len seg\<rparr> else s)
            else store_data s seg sflags)
         else Some (sflags, False, s))"

text \<open>The stages behind the acknowledgement.\<close>

definition process_receive :: "PseudoTcpEnv \<Rightarrow> PseudoTcpSocketPrivate \<Rightarrow> Segment \<Rightarrow> bool \<Rightarrow>
    (bool \<times> PseudoTcpSocketPrivate) option" where
  "process_receive env s seg is_fin_ack = do {
     (ok, received_fin, s) \<leftarrow> process_fin s seg is_fin_ack;
     if \<not> ok then Some (False, s)
     else do {
       let s = process_writable s;
       (sflags, bNewData, s) \<leftarrow> process_data s seg (ack_flags s seg received_fin);
       let s = (if received_fin then s\<lparr>rcv_nxt := rcv_nxt s + 1\<rparr> else s);
       s \<leftarrow> attempt_send env s sflags;
       Some (True, if bNewData \<and> bReadEnable s then notify s PseudoTcpReadable else s)
     }
   }"

definition process_body :: "PseudoTcpEnv \<Rightarrow> PseudoTcpSocketPrivate \<Rightarrow> Segment \<Rightarrow> u32 \<Rightarrow>
    (bool \<times> PseudoTcpSocketPrivate) option" where
  "process_body env s seg now = do {
     (ok, bConnect, s) \<leftarrow> process_control env s seg;
     if \<not> ok then Some (False, s)
     else do {
       (ok, is_fin_ack, s) \<leftarrow> process_ack env (update_timestamp s seg) seg now;
       if \<not> ok then Some (False, s)
       else do {
         s \<leftarrow> (if state s = PSEUDO_TCP_SYN_RECEIVED \<and> \<not> bConnect then set_state_established s else Some s);
         process_receive env s seg is_fin_ack
       }
     }
   }"

definition process :: "PseudoTcpEnv \<Rightarrow> PseudoTcpSocketPrivate \<Rightarrow> Segment \<Rightarrow>
    (bool \<times> PseudoTcpSocketPrivate) option" where
  "process env s seg =
     (if seg_conv seg \<noteq> conv s then Some (False, s)
      else do {
        let (now, s) = get_current_time env s;
        let s = s\<lparr>last_traffic := now, lastrecv := now, bOutgoing := False\<rparr>;
        if state s = PSEUDO_TCP_CLOSED \<or> pseudo_tcp_state_has_received_fin_ack (state s) \<and> seg_len seg > 0 then do {
          s \<leftarrow> (if seg_flags seg AND FLAG_RST = 0 then closedown env s E_OK CLOSEDOWN_LOCAL else Some s);
          Some (False, s)
        }
        else if seg_flags seg AND FLAG_RST \<noteq> 0 then do {
          s \<leftarrow> closedown env s ECONNRESET CLOSEDOWN_REMOTE;
          Some (False, s)
        }
        else process_body env s seg now
      })"

definition parse_segment :: "bytes \<Rightarrow> bytes \<Rightarrow> nat \<Rightarrow> Segment option" where
  "parse_segment header_buf data_buf data_buf_len = do {
     cv \<leftarrow> rd_bytes header_buf 0 4;
     sq \<leftarrow> rd_bytes header_buf 4 4;
     ak \<leftarrow> rd_bytes header_buf 8 4;
     fl \<leftarrow> rd8 header_buf 13;
     wn \<leftarrow> rd_bytes header_buf 14 2;
     tv \<leftarrow> rd_bytes header_buf 16 4;
     te \<leftarrow> rd_bytes header_buf 20 4;
     Some \<lparr>seg_conv = be_dec cv, seg_seq = be_dec sq, seg_ack = be_dec ak, seg_flags = fl, seg_wnd = be_dec wn,
           seg_data = data_buf, seg_len = of_nat data_buf_len, seg_tsval = be_dec tv, seg_tsecr = be_dec te\<rparr>
   }"

definition parse :: "PseudoTcpEnv \<Rightarrow> PseudoTcpSocketPrivate \<Rightarrow> bytes \<Rightarrow> nat \<Rightarrow> bytes \<Rightarrow> nat \<Rightarrow>
    (bool \<times> PseudoTcpSocketPrivate) option" where
  "parse env s header_buf header_buf_len data_buf data_buf_len =
     (if header_buf_len \<noteq> 24 then Some (False, s)
      else do {
        seg \<leftarrow> parse_segment header_buf data_buf data_buf_len;
        process env s seg
      })"

section \<open>Public operations\<close>

definition pseudo_tcp_socket_notify_packet :: "PseudoTcpEnv \<Rightarrow> PseudoTcpSocketPrivate \<Rightarrow> bytes \<Rightarrow> nat \<Rightarrow>
    (bool \<times> PseudoTcpSocketPrivate) option" where
  "pseudo_tcp_socket_notify_packet env s buf len =
     (if len > MAX_PACKET then Some (False, s\<lparr>error := EMSGSIZE\<rparr>)
      else if len < HEADER_SIZE then Some (False, s\<lparr>error := EINVAL\<rparr>)
      else parse env s buf HEADER_SIZE (drop HEADER_SIZE buf) (len - HEADER_SIZE))"

text \<open>A message of one buffer or of a header and a data buffer; the size of a buffer is its length.\<close>

definition pseudo_tcp_socket_notify_message :: "PseudoTcpEnv \<Rightarrow> PseudoTcpSocketPrivate \<Rightarrow> bytes list \<Rightarrow> nat \<Rightarrow>
    (bool \<times> PseudoTcpSocketPrivate) option" where
  "pseudo_tcp_socket_notify_message env s buffers len = do {
     assertion (length buffers > 0);
     if length buffers = 1 then pseudo_tcp_socket_notify_packet env s (buffers ! 0) (length (buffers ! 0))
     else do {
       assertion (length buffers = 2);
       assertion (length (buffers ! 0) = HEADER_SIZE);
       if len > MAX_PACKET then Some (False, s)
       else if len < HEADER_SIZE then Some (False, s)
       else parse env s (buffers ! 0) (length (buffers ! 0)) (buffers ! 1) (len - length (buffers ! 0))
     }
   }"

definition pseudo_tcp_socket_connect :: "PseudoTcpEnv \<Rightarrow> PseudoTcpSocketPrivate \<Rightarrow>
    (bool \<times> PseudoTcpSocketPrivate) option" where
  "pseudo_tcp_socket_connect env s =
     (if state s \<noteq> PSEUDO_TCP_LISTEN then Some (False, s\<lparr>error := EINVAL\<rparr>)
      else do {
        s \<leftarrow> set_state s PSEUDO_TCP_SYN_SENT;
        s \<leftarrow> queue_connect_message s;
        s \<leftarrow> attempt_send env s sfNone;
        Some (True, s)
      })"

definition pseudo_tcp_socket_notify_mtu :: "PseudoTcpSocketPrivate \<Rightarrow> u16 \<Rightarrow> PseudoTcpSocketPrivate" where
  "pseudo_tcp_socket_notify_mtu s mtu =
     (let s = s\<lparr>mtu_advise := ucast mtu\<rparr> in if state s = PSEUDO_TCP_ESTABLISHED then adjustMTU s else s)"

text \<open>
  The stages of \<open>pseudo_tcp_socket_notify_clock\<close>.  The first component of a result tells whether
  the function goes on.
\<close>

definition clock_retransmit :: "PseudoTcpEnv \<Rightarrow> PseudoTcpSocketPrivate \<Rightarrow> u32 \<Rightarrow>
    (bool \<times> PseudoTcpSocketPrivate) option" where
  "clock_retransmit env s now =
     (if rto_base s \<noteq> 0 \<and> time_diff (rto_base s + rx_rto s) now \<le> 0 then do {
        (e, s) \<leftarrow> transmit_head env s now;
        if e \<noteq> E_OK then do { s \<leftarrow> closedown env s e CLOSEDOWN_LOCAL; Some (False, s) }
        else do {
          let nInFlight = snd_nxt s - snd_una s;
          let rto_limit = (if state s \<in> {PSEUDO_TCP_LISTEN, PSEUDO_TCP_SYN_SENT, PSEUDO_TCP_SYN_RECEIVED}
                           then DEF_RTO else MAX_RTO);
          let s = s\<lparr>ssthresh := max (nInFlight div 2) (2 * mss s), cwnd := mss s,
                    rx_rto := min rto_limit (rx_rto s * 2), rto_base := now, recover := snd_nxt s\<rparr>;
          Some (True, if dup_acks s \<ge> 3 then s\<lparr>dup_acks := 0, fast_recovery := False\<rparr> else s)
        }
      }
      else Some (True, s))"

definition clock_probe :: "PseudoTcpEnv \<Rightarrow> PseudoTcpSocketPrivate \<Rightarrow> u32 \<Rightarrow>
    (bool \<times> PseudoTcpSocketPrivate) option" where
  "clock_probe env s now =
     (if snd_wnd s = 0 \<and> time_diff (lastsend s + rx_rto s) now \<le> 0 then
        (if time_diff now (lastrecv s) \<ge> 15000 then do {
           s \<leftarrow> closedown env s ECONNABORTED CLOSEDOWN_LOCAL;
           Some (False, s)
         }
         else do {
           (_, s) \<leftarrow> packet env s (snd_nxt s - 1) FLAG_NONE 0 0 now;
           Some (True, s\<lparr>lastsend := now, rx_rto := min MAX_RTO (rx_rto s * 2)\<rparr>)
         })
      else Some (True, s))"

definition clock_ack :: "PseudoTcpEnv \<Rightarrow> PseudoTcpSocketPrivate \<Rightarrow> u32 \<Rightarrow> PseudoTcpSocketPrivate option" where
  "clock_ack env s now =
     (if t_ack s \<noteq> 0 \<and> time_diff (t_ack s + ack_delay s) now \<le> 0 then do {
        (_, s) \<leftarrow> packet env s (snd_nxt s) FLAG_NONE 0 0 now;
        Some s
      }
      else Some s)"

definition pseudo_tcp_socket_notify_clock :: "PseudoTcpEnv \<Rightarrow> PseudoTcpSocketPrivate \<Rightarrow>
    PseudoTcpSocketPrivate option" where
  "pseudo_tcp_socket_notify_clock env s =
     (let (now, s) = get_current_time env s in
      if state s = PSEUDO_TCP_CLOSED then Some s
      else do {
        s \<leftarrow> (if support_fin_ack s \<and> state s = PSEUDO_TCP_TIME_WAIT then set_state_closed s E_OK else Some s);
        s \<leftarrow> (if support_fin_ack s \<and> state s = PSEUDO_TCP_LAST_ACK then do {
            s \<leftarrow> queue_fin_message s;
            attempt_send env s sfFin
          } else Some s);
        (ok, s) \<leftarrow> clock_retransmit env s now;
        if \<not> ok then Some s
        else do {
          (ok, s) \<leftarrow> clock_probe env s now;
          if \<not> ok then Some s else clock_ack env s now
        }
      })"

text \<open>The result has the return value and the new value of \<open>*timeout\<close>.\<close>

definition pseudo_tcp_socket_get_next_clock :: "PseudoTcpEnv \<Rightarrow> PseudoTcpSocketPrivate \<Rightarrow> u64 \<Rightarrow>
    (bool \<times> u64 \<times> PseudoTcpSocketPrivate) option" where
  "pseudo_tcp_socket_get_next_clock env s timeout =
     (let (now, s) = get_current_time env s in
      if shutdown s = SD_FORCEFUL then do {
        s \<leftarrow> closedown env s E_OK CLOSEDOWN_REMOTE;
        Some (False, timeout, s)
      }
      else if shutdown s = SD_GRACEFUL \<and> (state s \<noteq> PSEUDO_TCP_ESTABLISHED \<or>
                pseudo_tcp_fifo_get_buffered (sbuf s) = 0 \<and> t_ack s = 0) then do {
        s \<leftarrow> closedown env s E_OK CLOSEDOWN_REMOTE;
        Some (False, timeout, s)
      }
      else if support_fin_ack s \<and> state s = PSEUDO_TCP_CLOSED then Some (False, timeout, s)
      else
        let closed_timeout = (if support_fin_ack s \<and> state s = PSEUDO_TCP_TIME_WAIT
                              then TIME_WAIT_TIMEOUT else CLOSED_TIMEOUT);
            timeout = (if timeout = 0 \<or> timeout < ucast now then ucast (now + closed_timeout) else timeout)
        in if support_fin_ack s \<and> state s = PSEUDO_TCP_TIME_WAIT
           then Some (True, min timeout (ucast (now + TIME_WAIT_TIMEOUT)), s)
           else if state s = PSEUDO_TCP_CLOSED \<and> \<not> support_fin_ack s
           then Some (True, min timeout (ucast (now + CLOSED_TIMEOUT)), s)
           else
             let timeout = min timeout (ucast (now + DEFAULT_TIMEOUT));
                 timeout = (if t_ack s \<noteq> 0 then min timeout (ucast (t_ack s + ack_delay s)) else timeout);
                 timeout = (if rto_base s \<noteq> 0 then min timeout (ucast (rto_base s + rx_rto s)) else timeout);
                 timeout = (if snd_wnd s = 0 then min timeout (ucast (lastsend s + rx_rto s)) else timeout)
             in Some (True, timeout, s))"

text \<open>The result has the return value and the bytes copied to the caller.\<close>

definition pseudo_tcp_socket_recv :: "PseudoTcpEnv \<Rightarrow> PseudoTcpSocketPrivate \<Rightarrow> nat \<Rightarrow>
    (int \<times> bytes \<times> PseudoTcpSocketPrivate) option" where
  "pseudo_tcp_socket_recv env s len =
     (if support_fin_ack s \<and> shutdown_reads s then Some (0, [], s)
      else if \<not> support_fin_ack s \<and> pseudo_tcp_socket_is_closed s then Some (0, [], s)
      else if \<not> support_fin_ack s \<and> state s \<noteq> PSEUDO_TCP_ESTABLISHED then Some (-1, [], s\<lparr>error := ENOTCONN\<rparr>)
      else if len = 0 then Some (0, [], s)
      else do {
        (d, b) \<leftarrow> pseudo_tcp_fifo_read (rbuf s) len;
        let s = s\<lparr>rbuf := b\<rparr>;
        if length d = 0 \<and> \<not> (pseudo_tcp_state_has_received_fin (state s) \<or>
                             pseudo_tcp_state_has_received_fin_ack (state s))
        then Some (-1, [], s\<lparr>bReadEnable := True, error := EWOULDBLOCK\<rparr>)
        else do {
          let available_space = pseudo_tcp_fifo_get_write_remaining (rbuf s);
          s \<leftarrow> (if (of_nat available_space :: u64) - ucast (rcv_wnd s) \<ge> ucast (min (rbuf_len s div 2) (mss s)) then do {
              let bWasClosed = (rcv_wnd s = 0);
              let s = s\<lparr>rcv_wnd := of_nat available_space\<rparr>;
              if bWasClosed then attempt_send env s sfImmediateAck else Some s
            } else Some s);
          Some (int (length d), d, s)
        }
      })"

definition pseudo_tcp_socket_send :: "PseudoTcpEnv \<Rightarrow> PseudoTcpSocketPrivate \<Rightarrow> bytes \<Rightarrow> u32 \<Rightarrow>
    (int \<times> PseudoTcpSocketPrivate) option" where
  "pseudo_tcp_socket_send env s buf len =
     (if state s \<noteq> PSEUDO_TCP_ESTABLISHED
      then Some (-1, s\<lparr>error := (if pseudo_tcp_state_has_sent_fin (state s) then EPIPE else ENOTCONN)\<rparr>)
      else if pseudo_tcp_fifo_get_write_remaining (sbuf s) = 0
      then Some (-1, s\<lparr>bWriteEnable := True, error := EWOULDBLOCK\<rparr>)
      else do {
        (written, s) \<leftarrow> queue s buf len FLAG_NONE;
        s \<leftarrow> attempt_send env s sfNone;
        Some (sint written, if sint written > 0 \<and> written < len then s\<lparr>bWriteEnable := True\<rparr> else s)
      })"

definition pseudo_tcp_socket_get_available_bytes :: "PseudoTcpSocketPrivate \<Rightarrow> int" where
  "pseudo_tcp_socket_get_available_bytes s = sint (of_nat (pseudo_tcp_fifo_get_buffered (rbuf s)) :: u32)"

definition pseudo_tcp_socket_shutdown :: "PseudoTcpEnv \<Rightarrow> PseudoTcpSocketPrivate \<Rightarrow> PseudoTcpShutdown \<Rightarrow>
    PseudoTcpSocketPrivate option" where
  "pseudo_tcp_socket_shutdown env s how =
     (if \<not> support_fin_ack s then Some (if shutdown s = SD_NONE then s\<lparr>shutdown := SD_GRACEFUL\<rparr> else s)
      else
        let s = (if how = PSEUDO_TCP_SHUTDOWN_WR then s else s\<lparr>shutdown_reads := True\<rparr>) in
        if how = PSEUDO_TCP_SHUTDOWN_RD then Some s
        else if state s \<in> {PSEUDO_TCP_LISTEN, PSEUDO_TCP_SYN_SENT} then set_state_closed s E_OK
        else if state s \<in> {PSEUDO_TCP_SYN_RECEIVED, PSEUDO_TCP_ESTABLISHED} then
          (if pseudo_tcp_socket_get_available_bytes s > 0 then closedown env s ECONNABORTED CLOSEDOWN_LOCAL
           else do {
             s \<leftarrow> queue_fin_message s;
             s \<leftarrow> attempt_send env s sfFin;
             set_state s PSEUDO_TCP_FIN_WAIT_1
           })
        else if state s = PSEUDO_TCP_CLOSE_WAIT then do {
          s \<leftarrow> queue_fin_message s;
          s \<leftarrow> attempt_send env s sfFin;
          set_state s PSEUDO_TCP_LAST_ACK
        }
        else Some s)"

definition pseudo_tcp_socket_close :: "PseudoTcpEnv \<Rightarrow> PseudoTcpSocketPrivate \<Rightarrow> bool \<Rightarrow>
    PseudoTcpSocketPrivate option" where
  "pseudo_tcp_socket_close env s force =
     (if force \<and> state s \<noteq> PSEUDO_TCP_CLOSED then closedown env s ECONNABORTED CLOSEDOWN_LOCAL
      else pseudo_tcp_socket_shutdown env s PSEUDO_TCP_SHUTDOWN_RDWR)"

definition pseudo_tcp_socket_get_error :: "PseudoTcpSocketPrivate \<Rightarrow> errno" where
  "pseudo_tcp_socket_get_error s = error s"

definition pseudo_tcp_socket_get_available_send_space ::
  "PseudoTcpSocketPrivate \<Rightarrow> nat \<times> PseudoTcpSocketPrivate" where
  "pseudo_tcp_socket_get_available_send_space s =
     (let ret = (if \<not> pseudo_tcp_state_has_sent_fin (state s) then pseudo_tcp_fifo_get_write_remaining (sbuf s) else 0)
      in (ret, if ret = 0 then s\<lparr>bWriteEnable := True\<rparr> else s))"

definition pseudo_tcp_socket_can_send :: "PseudoTcpSocketPrivate \<Rightarrow> bool \<times> PseudoTcpSocketPrivate" where
  "pseudo_tcp_socket_can_send s =
     (let (n, s) = pseudo_tcp_socket_get_available_send_space s in (n > 0, s))"

text \<open>The properties of the object, and the constructor \<open>pseudo_tcp_socket_new\<close> that sets two of them.\<close>

datatype tcp_property = PROP_CONVERSATION u32 | PROP_ACK_DELAY u32 | PROP_NO_DELAY bool
  | PROP_RCV_BUF u32 | PROP_SND_BUF u32 | PROP_SUPPORT_FIN_ACK bool

fun pseudo_tcp_socket_set_property :: "PseudoTcpEnv \<Rightarrow> PseudoTcpSocketPrivate \<Rightarrow> tcp_property \<Rightarrow>
    PseudoTcpSocketPrivate option" where
  "pseudo_tcp_socket_set_property env s (PROP_CONVERSATION v) = Some (s\<lparr>conv := v\<rparr>)"
| "pseudo_tcp_socket_set_property env s (PROP_ACK_DELAY v) = Some (s\<lparr>ack_delay := v\<rparr>)"
| "pseudo_tcp_socket_set_property env s (PROP_NO_DELAY v) = Some (s\<lparr>use_nagling := \<not> v\<rparr>)"
| "pseudo_tcp_socket_set_property env s (PROP_RCV_BUF v) =
     (if state s = PSEUDO_TCP_LISTEN then resize_receive_buffer env s v else Some s)"
| "pseudo_tcp_socket_set_property env s (PROP_SND_BUF v) =
     (if state s = PSEUDO_TCP_LISTEN then resize_send_buffer env s v else Some s)"
| "pseudo_tcp_socket_set_property env s (PROP_SUPPORT_FIN_ACK v) = Some (s\<lparr>support_fin_ack := v\<rparr>)"

definition pseudo_tcp_socket_new :: "PseudoTcpEnv \<Rightarrow> u32 \<Rightarrow> PseudoTcpSocketPrivate option" where
  "pseudo_tcp_socket_new env conversation =
     pseudo_tcp_socket_set_property env (pseudo_tcp_socket_init env) (PROP_CONVERSATION conversation)"

definition pseudo_tcp_socket_finalize :: "PseudoTcpSocketPrivate \<Rightarrow> PseudoTcpSocketPrivate" where
  "pseudo_tcp_socket_finalize s =
     s\<lparr>slist := [], unsent_slist := [], rlist := [], rbuf := pseudo_tcp_fifo_clear (rbuf s),
       sbuf := pseudo_tcp_fifo_clear (sbuf s)\<rparr>"

end
