(* ===== verification/Pseudo_Tcp_Frame.thy ===== *)
theory Pseudo_Tcp_Frame
  imports Pseudo_Tcp
begin

text \<open>
  What the sending side leaves alone: transmitting, attempts to send and the handling of
  acknowledgements do not touch the fields of the receiver.
\<close>

definition bx :: "PseudoTcpSocketPrivate \<Rightarrow> PseudoTcpFifo \<times> u32" where
  "bx s = (sbuf s, snd_una s)"

definition kx :: "PseudoTcpSocketPrivate \<Rightarrow> bool \<times> u32 \<times> Shutdown \<times> bool" where
  "kx s = (support_fin_ack s, conv s, shutdown s, bReadEnable s)"

lemma rx_update [simp]:
  "rx (s\<lparr>shutdown := v_shutdown\<rparr>) = rx s" "rx (s\<lparr>error := v_error\<rparr>) = rx s"
  "rx (s\<lparr>state := v_state\<rparr>) = rx s" "rx (s\<lparr>conv := v_conv\<rparr>) = rx s"
  "rx (s\<lparr>bReadEnable := v_bReadEnable\<rparr>) = rx s"
  "rx (s\<lparr>bWriteEnable := v_bWriteEnable\<rparr>) = rx s"
  "rx (s\<lparr>bOutgoing := v_bOutgoing\<rparr>) = rx s"
  "rx (s\<lparr>last_traffic := v_last_traffic\<rparr>) = rx s" "rx (s\<lparr>lastrecv := v_lastrecv\<rparr>) = rx s"
  "rx (s\<lparr>slist := v_slist\<rparr>) = rx s" "rx (s\<lparr>unsent_slist := v_unsent_slist\<rparr>) = rx s"
  "rx (s\<lparr>sbuf_len := v_sbuf_len\<rparr>) = rx s" "rx (s\<lparr>snd_nxt := v_snd_nxt\<rparr>) = rx s"
  "rx (s\<lparr>snd_wnd := v_snd_wnd\<rparr>) = rx s" "rx (s\<lparr>lastsend := v_lastsend\<rparr>) = rx s"
  "rx (s\<lparr>snd_una := v_snd_una\<rparr>) = rx s" "rx (s\<lparr>swnd_scale := v_swnd_scale\<rparr>) = rx s"
  "rx (s\<lparr>sbuf := v_sbuf\<rparr>) = rx s" "rx (s\<lparr>mss := v_mss\<rparr>) = rx s"
  "rx (s\<lparr>msslevel := v_msslevel\<rparr>) = rx s" "rx (s\<lparr>largest := v_largest\<rparr>) = rx s"
  "rx (s\<lparr>mtu_advise := v_mtu_advise\<rparr>) = rx s" "rx (s\<lparr>rto_base := v_rto_base\<rparr>) = rx s"
  "rx (s\<lparr>ts_recent := v_ts_recent\<rparr>) = rx s" "rx (s\<lparr>ts_lastack := v_ts_lastack\<rparr>) = rx s"
  "rx (s\<lparr>rx_rttvar := v_rx_rttvar\<rparr>) = rx s" "rx (s\<lparr>rx_srtt := v_rx_srtt\<rparr>) = rx s"
  "rx (s\<lparr>rx_rto := v_rx_rto\<rparr>) = rx s" "rx (s\<lparr>ssthresh := v_ssthresh\<rparr>) = rx s"
  "rx (s\<lparr>cwnd := v_cwnd\<rparr>) = rx s" "rx (s\<lparr>dup_acks := v_dup_acks\<rparr>) = rx s"
  "rx (s\<lparr>recover := v_recover\<rparr>) = rx s" "rx (s\<lparr>fast_recovery := v_fast_recovery\<rparr>) = rx s"
  "rx (s\<lparr>t_ack := v_t_ack\<rparr>) = rx s" "rx (s\<lparr>last_acked_ts := v_last_acked_ts\<rparr>) = rx s"
  "rx (s\<lparr>use_nagling := v_use_nagling\<rparr>) = rx s" "rx (s\<lparr>ack_delay := v_ack_delay\<rparr>) = rx s"
  "rx (s\<lparr>support_wnd_scale := v_support_wnd_scale\<rparr>) = rx s"
  "rx (s\<lparr>current_time := v_current_time\<rparr>) = rx s"
  "rx (s\<lparr>support_fin_ack := v_support_fin_ack\<rparr>) = rx s"
  "rx (s\<lparr>next_id := v_next_id\<rparr>) = rx s" "rx (s\<lparr>clock_reads := v_clock_reads\<rparr>) = rx s"
  "rx (s\<lparr>packets := v_packets\<rparr>) = rx s" "rx (s\<lparr>events := v_events\<rparr>) = rx s"
  by (simp_all add: rx_def)

lemma bx_update [simp]:
  "bx (s\<lparr>shutdown := v_shutdown\<rparr>) = bx s"
  "bx (s\<lparr>shutdown_reads := v_shutdown_reads\<rparr>) = bx s" "bx (s\<lparr>error := v_error\<rparr>) = bx s"
  "bx (s\<lparr>state := v_state\<rparr>) = bx s" "bx (s\<lparr>conv := v_conv\<rparr>) = bx s"
  "bx (s\<lparr>bReadEnable := v_bReadEnable\<rparr>) = bx s"
  "bx (s\<lparr>bWriteEnable := v_bWriteEnable\<rparr>) = bx s"
  "bx (s\<lparr>bOutgoing := v_bOutgoing\<rparr>) = bx s"
  "bx (s\<lparr>last_traffic := v_last_traffic\<rparr>) = bx s" "bx (s\<lparr>rlist := v_rlist\<rparr>) = bx s"
  "bx (s\<lparr>rbuf_len := v_rbuf_len\<rparr>) = bx s" "bx (s\<lparr>rcv_nxt := v_rcv_nxt\<rparr>) = bx s"
  "bx (s\<lparr>rcv_wnd := v_rcv_wnd\<rparr>) = bx s" "bx (s\<lparr>lastrecv := v_lastrecv\<rparr>) = bx s"
  "bx (s\<lparr>rwnd_scale := v_rwnd_scale\<rparr>) = bx s" "bx (s\<lparr>rbuf := v_rbuf\<rparr>) = bx s"
  "bx (s\<lparr>rcv_fin := v_rcv_fin\<rparr>) = bx s" "bx (s\<lparr>slist := v_slist\<rparr>) = bx s"
  "bx (s\<lparr>unsent_slist := v_unsent_slist\<rparr>) = bx s" "bx (s\<lparr>sbuf_len := v_sbuf_len\<rparr>) = bx s"
  "bx (s\<lparr>snd_nxt := v_snd_nxt\<rparr>) = bx s" "bx (s\<lparr>snd_wnd := v_snd_wnd\<rparr>) = bx s"
  "bx (s\<lparr>lastsend := v_lastsend\<rparr>) = bx s" "bx (s\<lparr>swnd_scale := v_swnd_scale\<rparr>) = bx s"
  "bx (s\<lparr>mss := v_mss\<rparr>) = bx s" "bx (s\<lparr>msslevel := v_msslevel\<rparr>) = bx s"
  "bx (s\<lparr>largest := v_largest\<rparr>) = bx s" "bx (s\<lparr>mtu_advise := v_mtu_advise\<rparr>) = bx s"
  "bx (s\<lparr>rto_base := v_rto_base\<rparr>) = bx s" "bx (s\<lparr>ts_recent := v_ts_recent\<rparr>) = bx s"
  "bx (s\<lparr>ts_lastack := v_ts_lastack\<rparr>) = bx s" "bx (s\<lparr>rx_rttvar := v_rx_rttvar\<rparr>) = bx s"
  "bx (s\<lparr>rx_srtt := v_rx_srtt\<rparr>) = bx s" "bx (s\<lparr>rx_rto := v_rx_rto\<rparr>) = bx s"
  "bx (s\<lparr>ssthresh := v_ssthresh\<rparr>) = bx s" "bx (s\<lparr>cwnd := v_cwnd\<rparr>) = bx s"
  "bx (s\<lparr>dup_acks := v_dup_acks\<rparr>) = bx s" "bx (s\<lparr>recover := v_recover\<rparr>) = bx s"
  "bx (s\<lparr>fast_recovery := v_fast_recovery\<rparr>) = bx s" "bx (s\<lparr>t_ack := v_t_ack\<rparr>) = bx s"
  "bx (s\<lparr>last_acked_ts := v_last_acked_ts\<rparr>) = bx s"
  "bx (s\<lparr>use_nagling := v_use_nagling\<rparr>) = bx s" "bx (s\<lparr>ack_delay := v_ack_delay\<rparr>) = bx s"
  "bx (s\<lparr>support_wnd_scale := v_support_wnd_scale\<rparr>) = bx s"
  "bx (s\<lparr>current_time := v_current_time\<rparr>) = bx s"
  "bx (s\<lparr>support_fin_ack := v_support_fin_ack\<rparr>) = bx s"
  "bx (s\<lparr>next_id := v_next_id\<rparr>) = bx s" "bx (s\<lparr>clock_reads := v_clock_reads\<rparr>) = bx s"
  "bx (s\<lparr>packets := v_packets\<rparr>) = bx s" "bx (s\<lparr>events := v_events\<rparr>) = bx s"
  by (simp_all add: bx_def)

lemma kx_update [simp]:
  "kx (s\<lparr>shutdown_reads := v_shutdown_reads\<rparr>) = kx s" "kx (s\<lparr>error := v_error\<rparr>) = kx s"
  "kx (s\<lparr>state := v_state\<rparr>) = kx s" "kx (s\<lparr>bWriteEnable := v_bWriteEnable\<rparr>) = kx s"
  "kx (s\<lparr>bOutgoing := v_bOutgoing\<rparr>) = kx s"
  "kx (s\<lparr>last_traffic := v_last_traffic\<rparr>) = kx s" "kx (s\<lparr>rlist := v_rlist\<rparr>) = kx s"
  "kx (s\<lparr>rbuf_len := v_rbuf_len\<rparr>) = kx s" "kx (s\<lparr>rcv_nxt := v_rcv_nxt\<rparr>) = kx s"
  "kx (s\<lparr>rcv_wnd := v_rcv_wnd\<rparr>) = kx s" "kx (s\<lparr>lastrecv := v_lastrecv\<rparr>) = kx s"
  "kx (s\<lparr>rwnd_scale := v_rwnd_scale\<rparr>) = kx s" "kx (s\<lparr>rbuf := v_rbuf\<rparr>) = kx s"
  "kx (s\<lparr>rcv_fin := v_rcv_fin\<rparr>) = kx s" "kx (s\<lparr>slist := v_slist\<rparr>) = kx s"
  "kx (s\<lparr>unsent_slist := v_unsent_slist\<rparr>) = kx s" "kx (s\<lparr>sbuf_len := v_sbuf_len\<rparr>) = kx s"
  "kx (s\<lparr>snd_nxt := v_snd_nxt\<rparr>) = kx s" "kx (s\<lparr>snd_wnd := v_snd_wnd\<rparr>) = kx s"
  "kx (s\<lparr>lastsend := v_lastsend\<rparr>) = kx s" "kx (s\<lparr>snd_una := v_snd_una\<rparr>) = kx s"
  "kx (s\<lparr>swnd_scale := v_swnd_scale\<rparr>) = kx s" "kx (s\<lparr>sbuf := v_sbuf\<rparr>) = kx s"
  "kx (s\<lparr>mss := v_mss\<rparr>) = kx s" "kx (s\<lparr>msslevel := v_msslevel\<rparr>) = kx s"
  "kx (s\<lparr>largest := v_largest\<rparr>) = kx s" "kx (s\<lparr>mtu_advise := v_mtu_advise\<rparr>) = kx s"
  "kx (s\<lparr>rto_base := v_rto_base\<rparr>) = kx s" "kx (s\<lparr>ts_recent := v_ts_recent\<rparr>) = kx s"
  "kx (s\<lparr>ts_lastack := v_ts_lastack\<rparr>) = kx s" "kx (s\<lparr>rx_rttvar := v_rx_rttvar\<rparr>) = kx s"
  "kx (s\<lparr>rx_srtt := v_rx_srtt\<rparr>) = kx s" "kx (s\<lparr>rx_rto := v_rx_rto\<rparr>) = kx s"
  "kx (s\<lparr>ssthresh := v_ssthresh\<rparr>) = kx s" "kx (s\<lparr>cwnd := v_cwnd\<rparr>) = kx s"
  "kx (s\<lparr>dup_acks := v_dup_acks\<rparr>) = kx s" "kx (s\<lparr>recover := v_recover\<rparr>) = kx s"
  "kx (s\<lparr>fast_recovery := v_fast_recovery\<rparr>) = kx s" "kx (s\<lparr>t_ack := v_t_ack\<rparr>) = kx s"
  "kx (s\<lparr>last_acked_ts := v_last_acked_ts\<rparr>) = kx s"
  "kx (s\<lparr>use_nagling := v_use_nagling\<rparr>) = kx s" "kx (s\<lparr>ack_delay := v_ack_delay\<rparr>) = kx s"
  "kx (s\<lparr>support_wnd_scale := v_support_wnd_scale\<rparr>) = kx s"
  "kx (s\<lparr>current_time := v_current_time\<rparr>) = kx s" "kx (s\<lparr>next_id := v_next_id\<rparr>) = kx s"
  "kx (s\<lparr>clock_reads := v_clock_reads\<rparr>) = kx s" "kx (s\<lparr>packets := v_packets\<rparr>) = kx s"
  "kx (s\<lparr>events := v_events\<rparr>) = kx s"
  by (simp_all add: kx_def)


lemma tx_bx: "tx s' = tx s \<Longrightarrow> bx s' = bx s"
  by (simp add: tx_def bx_def)

lemma notify_keeps [simp]: "rx (notify s c) = rx s" "bx (notify s c) = bx s" "kx (notify s c) = kx s" "state (notify s c) = state s"
  by (simp_all add: notify_def)

lemma packet_sent_kx [simp]: "kx (packet_sent s len now) = kx s"
  by (simp add: packet_sent_def Let_def)

lemma packet_kx: "packet env s seq flags offset len now = Some (w, s') \<Longrightarrow> kx s' = kx s"
  by (auto simp: packet_def Let_def bind_eq_Some_conv split: if_splits)

lemma packet_frame:
  assumes "packet env s seq flags offset len now = Some (w, s')"
  shows "rx s' = rx s" "bx s' = bx s" "kx s' = kx s" "state s' = state s"
  using packet_keeps [OF assms] packet_kx [OF assms] tx_bx [OF packet_keeps(2) [OF assms]] by (simp_all add: cx_def)

lemma shrink_mss_frame:
  "shrink_mss s n = Some (e, n', s') \<Longrightarrow> rx s' = rx s \<and> tx s' = tx s \<and> kx s' = kx s \<and> state s' = state s"
proof (induction s n rule: shrink_mss.induct)
  case (1 s n)
  let ?l = "msslevel s + 1"
  let ?t = "s\<lparr>msslevel := ?l, mss := ucast (PACKET_MAXIMUMS ! unat ?l) - PACKET_OVERHEAD,
    cwnd := 2 * (ucast (PACKET_MAXIMUMS ! unat ?l) - PACKET_OVERHEAD)\<rparr>"
  have t: "rx ?t = rx s" "tx ?t = tx s" "kx ?t = kx s" "state ?t = state s" by (simp_all add: tx_def)
  have "shrink_mss s n = (if length PACKET_MAXIMUMS \<le> unat ?l then None
      else if PACKET_MAXIMUMS ! unat ?l = 0 then Some (EMSGSIZE, n, s)
      else if mss ?t < n then Some (E_OK, mss ?t, ?t) else shrink_mss ?t n)"
    by (subst shrink_mss.simps) (simp add: Let_def)
  then show ?case
    using "1.prems" "1.IH" [OF refl _ _ refl refl] t by (auto split: if_splits)
qed

lemma transmit_loop_frame:
  "transmit_loop env s g n now = Some (e, n', s') \<Longrightarrow> rx s' = rx s \<and> tx s' = tx s \<and> kx s' = kx s \<and> state s' = state s"
proof (induction env s g n now rule: transmit_loop.induct)
  case (1 env s g n now)
  from "1.prems" obtain w s1 where p: "ss_seq g - snd_una s \<le> 1024 * 1024 * 64"
    "packet env s (ss_seq g) (ss_flags g) (ss_seq g - snd_una s) n now = Some (w, s1)"
    by (subst (asm) transmit_loop.simps) (auto simp: bind_eq_Some_conv)
  note f = packet_frame [OF p(2)] packet_keeps(2) [OF p(2)]
  show ?case
  proof (cases w)
    case WR_TOO_LARGE
    then obtain e2 n2 s2 where sh: "shrink_mss s1 n = Some (e2, n2, s2)"
      and r: "(if e2 \<noteq> E_OK then Some (e2, n2, s2) else transmit_loop env s2 g n2 now) = Some (e, n', s')"
      using "1.prems" p by (subst (asm) transmit_loop.simps) (auto simp: bind_eq_Some_conv)
    note f2 = shrink_mss_frame [OF sh]
    show ?thesis
    proof (cases "e2 = E_OK")
      case True
      then show ?thesis using "1.IH" [OF _ p(2) refl WR_TOO_LARGE sh refl refl] p(1) r f f2 by simp
    qed (use r f f2 in auto)
  qed (use "1.prems" p f in \<open>subst (asm) transmit_loop.simps, auto simp: bind_eq_Some_conv\<close>)+
qed

lemma update_segment_keeps [simp]:
  "rx (update_segment i f s) = rx s" "bx (update_segment i f s) = bx s" "kx (update_segment i f s) = kx s"
  "state (update_segment i f s) = state s"
  by (simp_all add: update_segment_def)

lemma split_segment_keeps [simp]:
  "rx (split_segment s g n x) = rx s" "bx (split_segment s g n x) = bx s" "kx (split_segment s g n x) = kx s"
  "state (split_segment s g n x) = state s"
  by (simp_all add: split_segment_def Let_def)

lemma segment_sent_frame:
  assumes "segment_sent s g now = Some s'"
  shows "rx s' = rx s \<and> bx s' = bx s \<and> kx s' = kx s \<and> state s' = state s"
  using assms by (auto simp: segment_sent_def bind_eq_Some_conv Let_def split: if_splits)

lemma transmit_frame:
  assumes "transmit env s i now = Some (e, s')"
  shows "rx s' = rx s \<and> bx s' = bx s \<and> kx s' = kx s \<and> state s' = state s"
proof -
  obtain g where g: "find_segment s i = Some g" using assms by (auto simp: transmit_def bind_eq_Some_conv)
  show ?thesis
  proof (cases "ss_xmit g \<ge> (if state s = PSEUDO_TCP_ESTABLISHED then 15 else 30)")
    case True
    then show ?thesis using assms g by (simp add: transmit_def)
  next
    case False
    then obtain e2 n s2 where l: "transmit_loop env s g (min (ss_len g) (mss s)) now = Some (e2, n, s2)"
      using assms g by (auto simp: transmit_def bind_eq_Some_conv)
    have f: "rx s2 = rx s" "bx s2 = bx s" "kx s2 = kx s" "state s2 = state s"
      using transmit_loop_frame [OF l] tx_bx by blast+
    show ?thesis
    proof (cases "e2 = E_OK")
      case True
      then obtain g' t where t: "segment_sent t g' now = Some s'" "rx t = rx s2 \<and> bx t = bx s2 \<and> kx t = kx s2 \<and> state t = state s2"
        using assms g False l
        by (cases "n < ss_len g") (auto simp: transmit_def bind_eq_Some_conv Let_def intro: that)
      then show ?thesis using segment_sent_frame [OF t(1)] f by simp
    next
      case False
      then show ?thesis using assms g \<open>\<not> ss_xmit g \<ge> _\<close> l f by (simp add: transmit_def)
    qed
  qed
qed

lemma set_state_frame:
  assumes "set_state s st = Some s'"
  shows "rx s' = rx s \<and> bx s' = bx s \<and> kx s' = kx s \<and> state s' = st"
  using assms by (auto simp: set_state_def bind_eq_Some_conv split: if_splits)

lemma set_states_frame:
  "set_states s sts = Some s' \<Longrightarrow> rx s' = rx s \<and> bx s' = bx s \<and> kx s' = kx s"
  by (induction sts arbitrary: s) (auto simp: bind_eq_Some_conv dest!: set_state_frame)

lemma set_state_closed_frame:
  assumes "set_state_closed s e = Some s'"
  shows "rx s' = rx s \<and> bx s' = bx s \<and> kx s' = kx s \<and> state s' = PSEUDO_TCP_CLOSED"
  using assms by (auto simp: set_state_closed_def bind_eq_Some_conv dest!: set_state_frame)

lemma closedown_states_frame:
  assumes "closedown_states s e = Some s'"
  shows "rx s' = rx s \<and> bx s' = bx s \<and> kx s' = kx s \<and> state s' = PSEUDO_TCP_CLOSED"
  using assms by (auto simp: closedown_states_def bind_eq_Some_conv dest!: set_states_frame set_state_closed_frame)

lemma attempt_transmit_frame:
  assumes "attempt_transmit env s i n f now = Some (e, s')"
  shows "rx s' = rx s \<and> bx s' = bx s \<and> kx s' = kx s \<and> state s' = state s"
  using assms by (auto simp: attempt_transmit_def bind_eq_Some_conv Let_def split: if_splits dest!: transmit_frame)

definition attempt_kept :: "PseudoTcpSocketPrivate \<Rightarrow> PseudoTcpSocketPrivate \<Rightarrow> bool" where
  "attempt_kept s s' \<longleftrightarrow> rx s' = rx s \<and> bx s' = bx s \<and> kx s' = kx s \<and> (state s' = state s \<or> state s' = PSEUDO_TCP_CLOSED)"

text \<open>The outcomes of a round of \<open>attempt_send\<close>.\<close>

lemma attempt_step_cases:
  assumes "attempt_step env now s f = Some r"
  obtains "r = Inl s" | "r = Inl (s\<lparr>t_ack := now\<rparr>)"
  | w t where "packet env s (snd_nxt s) FLAG_NONE 0 0 now = Some (w, t)" and "r = Inl t"
  | w t where "f = sfDuplicateAck" and "packet env s (snd_nxt s) FLAG_NONE 0 0 now = Some (w, t)" and "r = Inr (t, sfNone)"
  | i js e t t' where "unsent_slist s = i # js" and "attempt_transmit env s i (usable_bytes s) f now = Some (e, t)"
      and "e \<noteq> E_OK" and "closedown_states t e = Some t'" and "r = Inl t'"
  | i js t where "unsent_slist s = i # js" and "attempt_transmit env s i (usable_bytes s) f now = Some (E_OK, t)"
      and "r = Inr (t, if f = sfImmediateAck \<or> f = sfDelayedAck then sfNone else f)"
      and "f \<noteq> sfDuplicateAck" and "usable_bytes s \<noteq> 0 \<or> f = sfFin \<or> f = sfRst"
proof -
  let ?pkt = "packet env s (snd_nxt s) FLAG_NONE 0 0 now"
  note step = assms [unfolded attempt_step_def Let_def]
  consider (dup) "f = sfDuplicateAck"
    | (idle) "f \<noteq> sfDuplicateAck" "usable_bytes s = 0 \<and> f \<noteq> sfFin \<and> f \<noteq> sfRst"
    | (hold) "f \<noteq> sfDuplicateAck" "\<not> (usable_bytes s = 0 \<and> f \<noteq> sfFin \<and> f \<noteq> sfRst)"
        "use_nagling s \<and> f \<noteq> sfFin \<and> f \<noteq> sfRst \<and> snd_nxt s > snd_una s \<and> usable_bytes s < mss s"
    | (go) "f \<noteq> sfDuplicateAck" "\<not> (usable_bytes s = 0 \<and> f \<noteq> sfFin \<and> f \<noteq> sfRst)"
        "\<not> (use_nagling s \<and> f \<noteq> sfFin \<and> f \<noteq> sfRst \<and> snd_nxt s > snd_una s \<and> usable_bytes s < mss s)"
    by blast
  then show thesis
  proof cases
    case dup
    then show ?thesis using step that(4) by (cases ?pkt) auto
  next
    case idle
    consider "f = sfNone" | "f \<noteq> sfNone" "f = sfImmediateAck \<or> f = sfDuplicateAck \<or> t_ack s \<noteq> 0"
      | "f \<noteq> sfNone" "\<not> (f = sfImmediateAck \<or> f = sfDuplicateAck \<or> t_ack s \<noteq> 0)" by blast
    then show ?thesis
    proof cases
      case 1
      then show ?thesis using step idle that(1) by simp
    next
      case 2
      then show ?thesis using step idle that(3) by (cases ?pkt) auto
    next
      case 3
      then show ?thesis using step idle that(2) by simp
    qed
  next
    case hold
    then show ?thesis using step that(1) by (simp only: if_False if_True simp_thms option.inject)
  next
    case go
    have r: "(case unsent_slist s of [] \<Rightarrow> Some (Inl s)
        | i # _ \<Rightarrow> do {
            (e, s) \<leftarrow> attempt_transmit env s i (usable_bytes s) f now;
            if e \<noteq> E_OK then do { s \<leftarrow> closedown_states s e; Some (Inl s) }
            else Some (Inr (s, if f = sfImmediateAck \<or> f = sfDelayedAck then sfNone else f))
          }) = Some r"
      using step by (simp only: go(1) if_False if_not_P [OF go(2)] if_not_P [OF go(3)])
    show ?thesis
    proof (cases "unsent_slist s")
      case Nil
      then show ?thesis using r that(1) by simp
    next
      case (Cons i js)
      then obtain e t where t: "attempt_transmit env s i (usable_bytes s) f now = Some (e, t)"
        using r by (auto simp: bind_eq_Some_conv)
      show ?thesis
      proof (cases "e = E_OK")
        case True
        then have "r = Inr (t, if f = sfImmediateAck \<or> f = sfDelayedAck then sfNone else f)" using r Cons t by simp
        then show ?thesis using that(6) Cons t True go(1,2) by blast
      next
        case False
        then show ?thesis using r Cons t that(5) [OF Cons t False] by (cases "closedown_states t e") simp_all
      qed
    qed
  qed
qed

lemma attempt_step_frame:
  assumes "attempt_step env now s f = Some r" and "attempt_kept s0 s"
  shows "case r of Inl s' \<Rightarrow> attempt_kept s0 s' | Inr (s', f') \<Rightarrow> attempt_kept s0 s'"
  using assms(1)
proof (cases rule: attempt_step_cases)
  case (5 i js e t t')
  then show ?thesis
    using assms(2) attempt_transmit_frame [OF 5(2)] closedown_states_frame [OF 5(4)] by (auto simp: attempt_kept_def)
qed (use assms(2) in \<open>auto simp: attempt_kept_def dest: packet_frame attempt_transmit_frame\<close>)

lemma attempt_send_frame:
  assumes "attempt_send env s f = Some s'"
  shows "attempt_kept s s'"
proof -
  obtain now t where t: "get_current_time env s = (now, t)" by (cases "get_current_time env s")
  define u where "u = (if time_diff now (lastsend t) > int (unat (rx_rto t)) then t\<lparr>cwnd := mss t\<rparr> else t)"
  have u: "attempt_kept s u" using t by (auto simp: attempt_kept_def u_def get_current_time_def split: if_splits)
  have l: "attempt_send_loop env now u f = Some s'" using assms t by (simp add: attempt_send_def u_def Let_def)
  show ?thesis
    using attempt_step_frame by (rule attempt_send_invariant [where P = "attempt_kept s", OF _ u l])
qed

lemma kx_fin: "kx s' = kx s \<Longrightarrow> support_fin_ack s' = support_fin_ack s"
  by (simp add: kx_def)

lemma queue_frame:
  assumes "queue s d len flags = Some (n, s')"
  shows "rx s' = rx s \<and> kx s' = kx s \<and> state s' = state s"
  using assms by (auto simp: queue_def bind_eq_Some_conv Let_def split: if_splits)

lemma closedown_frame:
  assumes "closedown env s e source = Some s'"
  shows "rx s' = rx s \<and> support_fin_ack s' = support_fin_ack s \<and> state s' = PSEUDO_TCP_CLOSED"
  using assms
  by (auto simp: closedown_def queue_rst_message_def bind_eq_Some_conv attempt_kept_def split: if_splits
      dest!: closedown_states_frame queue_frame attempt_send_frame kx_fin)

lemma transmit_head_frame:
  assumes "transmit_head env s now = Some (e, s')"
  shows "rx s' = rx s \<and> bx s' = bx s \<and> kx s' = kx s \<and> support_fin_ack s' = support_fin_ack s \<and> state s' = state s"
proof -
  obtain i where "transmit env s i now = Some (e, s')" using assms by (auto simp: transmit_head_def split: list.splits)
  then show ?thesis using transmit_frame kx_fin by blast
qed

lemma update_timestamp_keeps [simp]:
  "rx (update_timestamp s seg) = rx s" "kx (update_timestamp s seg) = kx s" "bx (update_timestamp s seg) = bx s"
  "state (update_timestamp s seg) = state s"
  by (simp_all add: update_timestamp_def)

lemma update_rtt_keeps [simp]:
  "rx (update_rtt s rtt) = rx s" "kx (update_rtt s rtt) = kx s" "bx (update_rtt s rtt) = bx s"
  "state (update_rtt s rtt) = state s" "support_fin_ack (update_rtt s rtt) = support_fin_ack s"
  by (simp_all add: update_rtt_def Let_def)

text \<open>The acknowledgement stage leaves the receiver alone, and closes the socket only where processing stops.\<close>

lemma accept_ack_frame:
  "accept_ack s seg now = Some (n, fa, s') \<Longrightarrow>
    rx s' = rx s \<and> kx s' = kx s \<and> support_fin_ack s' = support_fin_ack s \<and> state s' = state s"
  by (auto simp: accept_ack_def Let_def bind_eq_Some_conv)

lemma ack_congestion_frame:
  "ack_congestion env s n now = Some (ok, s') \<Longrightarrow> rx s' = rx s \<and> support_fin_ack s' = support_fin_ack s \<and> (ok \<longrightarrow> kx s' = kx s \<and> state s' = state s)"
  by (auto simp: ack_congestion_def Let_def bind_eq_Some_conv split: if_splits
      dest!: transmit_head_frame closedown_frame)

lemma fast_retransmit_frame:
  "fast_retransmit env s now = Some (ok, s') \<Longrightarrow> rx s' = rx s \<and> support_fin_ack s' = support_fin_ack s \<and> (ok \<longrightarrow> kx s' = kx s \<and> state s' = state s)"
  by (auto simp: fast_retransmit_def Let_def bind_eq_Some_conv split: if_splits
      dest!: transmit_head_frame closedown_frame)

lemma count_duplicate_ack_frame:
  assumes "count_duplicate_ack env s seg now = Some (ok, s')"
  shows "rx s' = rx s \<and> support_fin_ack s' = support_fin_ack s \<and> (ok \<longrightarrow> kx s' = kx s \<and> state s' = state s)"
proof -
  define t where "t = s\<lparr>dup_acks := dup_acks s + 1\<rparr>"
  have t: "rx t = rx s" "kx t = kx s" "support_fin_ack t = support_fin_ack s" "state t = state s" by (simp_all add: t_def)
  note r = assms [unfolded count_duplicate_ack_def Let_def, folded t_def]
  show ?thesis
  proof (cases "dup_acks t = 3")
    case True
    then show ?thesis
      using r t fast_retransmit_frame [of env t now ok s']
      by (cases "LARGER_OR_EQUAL (snd_una t) (recover t) \<or> seg_tsecr seg = last_acked_ts t") auto
  next
    case False
    show ?thesis
    proof (cases "dup_acks t > 3")
      case True
      then have "Some (True, if fast_recovery t then t\<lparr>cwnd := cwnd t + mss t\<rparr> else t) = Some (ok, s')"
        using r False by (simp only: if_False if_True)
      then show ?thesis using t by (cases "fast_recovery t") auto
    next
      case False
      then show ?thesis using r \<open>dup_acks t \<noteq> 3\<close> t by (simp only: if_False option.inject prod.inject) simp
    qed
  qed
qed

lemma process_duplicate_ack_frame:
  assumes "process_duplicate_ack env s seg now = Some (ok, s')"
  shows "rx s' = rx s \<and> support_fin_ack s' = support_fin_ack s \<and> (ok \<longrightarrow> kx s' = kx s \<and> state s' = state s)"
proof -
  obtain w where w: "scaled_window (seg_wnd seg) (swnd_scale s) = Some w"
    using assms by (auto simp: process_duplicate_ack_def bind_eq_Some_conv)
  define t where "t = s\<lparr>snd_wnd := w\<rparr>"
  have t: "rx t = rx s" "kx t = kx s" "support_fin_ack t = support_fin_ack s" "state t = state s" by (simp_all add: t_def)
  have "(if seg_len seg > 0 then Some (True, t)
     else if snd_una t \<noteq> snd_nxt t then count_duplicate_ack env t seg now
     else Some (True, t\<lparr>dup_acks := 0\<rparr>)) = Some (ok, s')"
    using assms unfolding process_duplicate_ack_def w Option.bind.bind_lunit Let_def t_def .
  then show ?thesis using t by (auto split: if_splits dest: count_duplicate_ack_frame)
qed

lemma process_ack_frame:
  assumes "process_ack env s seg now = Some (ok, fa, s')"
  shows "rx s' = rx s \<and> support_fin_ack s' = support_fin_ack s \<and> (ok \<longrightarrow> kx s' = kx s \<and> state s' = state s)"
  using assms
  by (auto simp: process_ack_def process_valuable_ack_def Let_def bind_eq_Some_conv split: if_splits
      dest!: accept_ack_frame ack_congestion_frame process_duplicate_ack_frame)

text \<open>The operations of the sending side and of the clock leave the receiver alone as a whole.\<close>

definition receiver_kept :: "PseudoTcpSocketPrivate \<Rightarrow> PseudoTcpSocketPrivate \<Rightarrow> bool" where
  "receiver_kept s s' \<longleftrightarrow> rx s' = rx s \<and> support_fin_ack s' = support_fin_ack s"

lemma receiver_kept_trans: "receiver_kept s t \<Longrightarrow> receiver_kept t u \<Longrightarrow> receiver_kept s u"
  by (simp add: receiver_kept_def)

lemma receiver_keptI [intro?]: "rx s' = rx s \<Longrightarrow> kx s' = kx s \<Longrightarrow> receiver_kept s s'"
  by (auto simp: receiver_kept_def dest: kx_fin)

lemma get_current_time_keeps [simp]:
  "rx (snd (get_current_time env s)) = rx s" "kx (snd (get_current_time env s)) = kx s"
  "state (snd (get_current_time env s)) = state s" "support_fin_ack (snd (get_current_time env s)) = support_fin_ack s"
  by (simp_all add: get_current_time_def)

lemma attempt_send_kept: "attempt_send env s f = Some s' \<Longrightarrow> receiver_kept s s'"
  using attempt_send_frame by (auto simp: attempt_kept_def intro: receiver_keptI)

lemma closedown_kept: "closedown env s e c = Some s' \<Longrightarrow> receiver_kept s s'"
  by (auto simp: receiver_kept_def dest: closedown_frame)

lemma queue_kept: "queue s d len flags = Some (n, s') \<Longrightarrow> receiver_kept s s'"
  using queue_frame by (auto intro: receiver_keptI)

lemma set_state_kept: "set_state s st = Some s' \<Longrightarrow> receiver_kept s s'"
  using set_state_frame by (auto intro: receiver_keptI)

lemma set_state_closed_kept: "set_state_closed s e = Some s' \<Longrightarrow> receiver_kept s s'"
  using set_state_closed_frame by (auto intro: receiver_keptI)

lemma packet_kept: "packet env s seq flags offset len now = Some (w, s') \<Longrightarrow> receiver_kept s s'"
  using packet_frame by (auto intro: receiver_keptI)

lemmas kept_simps = receiver_kept_def queue_fin_message_def bind_eq_Some_conv Let_def

lemma clock_retransmit_kept: "clock_retransmit env s now = Some (ok, s') \<Longrightarrow> receiver_kept s s'"
  by (auto simp: clock_retransmit_def kept_simps split: if_splits dest!: transmit_head_frame closedown_frame)

lemma clock_probe_kept: "clock_probe env s now = Some (ok, s') \<Longrightarrow> receiver_kept s s'"
  by (auto simp: clock_probe_def kept_simps split: if_splits
      dest!: packet_kept [unfolded receiver_kept_def] closedown_frame)

lemma clock_ack_kept: "clock_ack env s now = Some s' \<Longrightarrow> receiver_kept s s'"
  by (auto simp: clock_ack_def kept_simps split: if_splits dest!: packet_kept [unfolded receiver_kept_def])

lemma queue_fin_kept: "queue_fin_message s = Some s' \<Longrightarrow> receiver_kept s s'"
  by (auto simp: queue_fin_message_def bind_eq_Some_conv split: if_splits dest!: queue_kept)

lemma adjustMTU_keeps [simp]: "rx (adjustMTU s) = rx s" "kx (adjustMTU s) = kx s"
  by (simp_all add: adjustMTU_def Let_def)

lemma notify_mtu_kept: "receiver_kept s (pseudo_tcp_socket_notify_mtu s mtu)"
  by (rule receiver_keptI) (simp_all add: pseudo_tcp_socket_notify_mtu_def Let_def)

lemma notify_clock_kept:
  assumes "pseudo_tcp_socket_notify_clock env s = Some s'"
  shows "receiver_kept s s'"
proof -
  obtain now t where t: "get_current_time env s = (now, t)" by (cases "get_current_time env s")
  have st: "receiver_kept s t" using get_current_time_keeps [of env s] by (intro receiver_keptI) (simp_all add: t)
  show ?thesis
  proof (cases "state t = PSEUDO_TCP_CLOSED")
    case True
    then show ?thesis using assms t st by (simp add: pseudo_tcp_socket_notify_clock_def)
  next
    case False
    obtain u v ok w where u: "(if support_fin_ack t \<and> state t = PSEUDO_TCP_TIME_WAIT then set_state_closed t E_OK else Some t) = Some u"
      and v: "(if support_fin_ack u \<and> state u = PSEUDO_TCP_LAST_ACK then do {
            s \<leftarrow> queue_fin_message u;
            attempt_send env s sfFin
          } else Some u) = Some v"
      and w: "clock_retransmit env v now = Some (ok, w)"
      and r: "(if \<not> ok then Some w
        else do {
          (ok, s) \<leftarrow> clock_probe env w now;
          if \<not> ok then Some s else clock_ack env s now
        }) = Some s'"
      using assms t False by (auto simp: pseudo_tcp_socket_notify_clock_def bind_eq_Some_conv)
    have "receiver_kept t u" using u by (auto simp: receiver_kept_def split: if_splits dest!: set_state_closed_kept)
    moreover have "receiver_kept u v"
      using v by (auto simp: receiver_kept_def bind_eq_Some_conv split: if_splits dest!: queue_fin_kept attempt_send_kept)
    moreover have "receiver_kept v w" using w by (rule clock_retransmit_kept)
    moreover have "receiver_kept w s'"
      using r by (auto simp: receiver_kept_def bind_eq_Some_conv split: if_splits dest!: clock_probe_kept clock_ack_kept)
    ultimately show ?thesis using st by (blast intro: receiver_kept_trans)
  qed
qed

lemma get_next_clock_kept:
  assumes "pseudo_tcp_socket_get_next_clock env s timeout = Some (r, timeout', s')"
  shows "receiver_kept s s'"
proof -
  obtain now t where t: "get_current_time env s = (now, t)" by (cases "get_current_time env s")
  have st: "receiver_kept s t" using get_current_time_keeps [of env s] by (intro receiver_keptI) (simp_all add: t)
  moreover have "s' = t \<or> (\<exists>e c. closedown env t e c = Some s')"
    using assms t by (auto simp: pseudo_tcp_socket_get_next_clock_def bind_eq_Some_conv Let_def split: if_splits)
  ultimately show ?thesis using closedown_kept receiver_kept_trans by blast
qed

lemma send_kept:
  assumes "pseudo_tcp_socket_send env s buf len = Some (n, s')"
  shows "receiver_kept s s'"
  using assms
  by (auto simp: pseudo_tcp_socket_send_def receiver_kept_def bind_eq_Some_conv split: if_splits
      dest!: queue_kept attempt_send_kept)

text \<open>Closing may stop further reads, and leaves the rest of the receiver alone.\<close>

lemma shutdown_kept:
  assumes "pseudo_tcp_socket_shutdown env s how = Some s'"
  obtains "receiver_kept s s'" | "receiver_kept (s\<lparr>shutdown_reads := True\<rparr>) s'"
proof (cases "support_fin_ack s")
  case False
  then have "receiver_kept s s'" using assms by (auto simp: pseudo_tcp_socket_shutdown_def receiver_kept_def split: if_splits)
  then show thesis by (rule that(1))
next
  case True
  define t where "t = (if how = PSEUDO_TCP_SHUTDOWN_WR then s else s\<lparr>shutdown_reads := True\<rparr>)"
  have "receiver_kept t s'"
    using assms True unfolding pseudo_tcp_socket_shutdown_def Let_def t_def [symmetric]
    by (auto simp: receiver_kept_def bind_eq_Some_conv split: if_splits
        dest!: set_state_closed_kept closedown_kept queue_fin_kept attempt_send_kept set_state_kept)
  then show thesis using that t_def by (auto split: if_splits)
qed

lemma close_kept:
  assumes "pseudo_tcp_socket_close env s force = Some s'"
  obtains "receiver_kept s s'" | "receiver_kept (s\<lparr>shutdown_reads := True\<rparr>) s'"
  using assms by (auto simp: pseudo_tcp_socket_close_def split: if_splits intro: shutdown_kept dest: closedown_kept)

end
