(* ===== verification/Pseudo_Tcp_Wire.thy ===== *)
theory Pseudo_Tcp_Wire
  imports Pseudo_Tcp
begin

text \<open>
  What travels between two pseudo-TCP sockets: a packet is parsed into the segment it was made
  from, and the options of a connect message take effect at the receiver.
\<close>

section \<open>Packets\<close>

lemma length_packet_header [simp]: "length (packet_header s seq flags now) = HEADER_SIZE"
  by (simp add: packet_header_def HEADER_SIZE_def)

definition sent_segment :: "PseudoTcpSocketPrivate \<Rightarrow> u32 \<Rightarrow> u8 \<Rightarrow> u32 \<Rightarrow> bytes \<Rightarrow> Segment" where
  "sent_segment s seq flags now d =
     \<lparr>seg_conv = conv s, seg_seq = seq, seg_ack = rcv_nxt s, seg_flags = flags,
      seg_wnd = ucast (drop_bit (unat (rwnd_scale s)) (rcv_wnd s)), seg_data = d, seg_len = of_nat (length d),
      seg_tsval = now, seg_tsecr = ts_recent s\<rparr>"

lemma parse_packet_header:
  "parse_segment (packet_header s seq flags now @ d) d (length d) = Some (sent_segment s seq flags now d)"
  by (simp add: parse_segment_def packet_header_def sent_segment_def rd_bytes_def rd8_def nth_append be_dec_enc)

lemma packet_payload_spec:
  assumes "wf_fifo (sbuf s)" and "packet_payload s offset len = Some d"
  shows "d = take (unat len) (drop (unat offset) (fifo_data (sbuf s)))" and "length d = unat len"
    and "HEADER_SIZE + length d \<le> MAX_PACKET"
  using assms
  by (auto simp: packet_payload_def read_offset_spec bind_eq_Some_conv HEADER_SIZE_def MAX_PACKET_def split: if_splits)

lemma packet_cases:
  assumes "packet env s seq flags offset len now = Some (w, s')"
  obtains d where "packet_payload s offset len = Some d"
    and "packets s' = packets s @ [packet_header s seq flags now @ d]"
    and "unat (rwnd_scale s) < 32"
proof -
  have *: "packet_payload (s\<lparr>ts_lastack := a\<rparr>) offset len = packet_payload s offset len" for a
    by (simp add: packet_payload_def)
  show thesis using assms that by (auto simp: packet_def Let_def bind_eq_Some_conv * split: if_splits)
qed

text \<open>A small socket for the examples: eight bytes of buffer on either side, three bytes to send.\<close>

definition example_env :: PseudoTcpEnv where
  "example_env = \<lparr>slice_alloc = (\<lambda>n. replicate n 0), WritePacket = (\<lambda>_ _. WR_SUCCESS), monotonic_time = (\<lambda>_. 5000)\<rparr>"

definition example_fifo :: "bytes \<Rightarrow> PseudoTcpFifo" where
  "example_fifo d = \<lparr>fifo_buffer = d @ replicate (8 - length d) 0, buffer_length = 8, data_length = length d, read_position = 0\<rparr>"

definition example_socket :: "PseudoTcpState \<Rightarrow> bytes \<Rightarrow> PseudoTcpSocketPrivate" where
  "example_socket st d = (pseudo_tcp_socket_init example_env)
     \<lparr>state := st, rbuf := example_fifo [], rbuf_len := 8, rcv_wnd := 8, sbuf := example_fifo d, sbuf_len := 8,
      current_time := 5000\<rparr>"

lemma example_fifo_simps [simp]:
  "length d \<le> 8 \<Longrightarrow> wf_fifo (example_fifo d)" "length d \<le> 8 \<Longrightarrow> fifo_data (example_fifo d) = d"
  "data_length (example_fifo d) = length d" "buffer_length (example_fifo d) = 8"
  by (simp_all add: example_fifo_def wf_fifo_def fifo_data_def ring_def)

lemmas example_simps = example_socket_def pseudo_tcp_socket_init_def example_env_def

text \<open>C13. A packet arrives as the segment it was made from: handing the bytes of a sent packet to any
  other socket processes the segment with the sender's conversation, sequence and acknowledgement
  numbers, flags, scaled window and time stamps, and with the bytes of the send buffer at the offset.\<close>

theorem packet_parsed:
  assumes "wf_fifo (sbuf s)" and "packet env s seq flags offset len now = Some (w, s')"
  shows "packets s' = packets s @ [last (packets s')] \<and>
    pseudo_tcp_socket_notify_packet env' r (last (packets s')) (length (last (packets s'))) =
      process env' r (sent_segment s seq flags now (take (unat len) (drop (unat offset) (fifo_data (sbuf s)))))"
proof -
  obtain d where d: "packet_payload s offset len = Some d" "packets s' = packets s @ [packet_header s seq flags now @ d]"
    using packet_cases [OF assms(2)] .
  note p = packet_payload_spec [OF assms(1) d(1)]
  have "parse_segment (packet_header s seq flags now @ d) d (length d) = Some (sent_segment s seq flags now d)"
    by (rule parse_packet_header)
  then have "pseudo_tcp_socket_notify_packet env' r (packet_header s seq flags now @ d)
      (length (packet_header s seq flags now @ d)) = process env' r (sent_segment s seq flags now d)"
    using p(3) by (simp add: pseudo_tcp_socket_notify_packet_def parse_def HEADER_SIZE_def)
  then show ?thesis using d(2) p(1) by simp
qed

theorem packet_parsed_witness:
  "let s = example_socket PSEUDO_TCP_ESTABLISHED [1, 2, 3] in
   wf_fifo (sbuf s) \<and>
   (\<exists>w s'. packet example_env s 7 FLAG_NONE 1 2 9 = Some (w, s') \<and>
     pseudo_tcp_socket_notify_packet example_env s (last (packets s')) (length (last (packets s'))) =
       process example_env s (sent_segment s 7 FLAG_NONE 9 [2, 3]))"
proof -
  let ?s = "example_socket PSEUDO_TCP_ESTABLISHED [1, 2, 3]"
  have wf: "wf_fifo (sbuf ?s)" and d: "fifo_data (sbuf ?s) = [1, 2, 3]" by (simp_all add: example_socket_def)
  have "\<exists>w s'. packet example_env ?s 7 FLAG_NONE 1 2 9 = Some (w, s')"
    by (simp add: packet_def packet_payload_def example_simps read_offset_spec Let_def HEADER_SIZE_def MAX_PACKET_def)
  then show ?thesis using packet_parsed [OF wf, of example_env 7 FLAG_NONE 1 2 9 _ _ example_env ?s] wf d by auto
qed

section \<open>Options\<close>

lemmas options_run = parse_options_loop.simps rd8_def apply_option_def tcp_option_defs apply_window_scale_option_def
  apply_fin_ack_option_def

lemma resize_receive_fin_ack:
  "resize_receive_buffer env (r\<lparr>support_fin_ack := f\<rparr>) n =
     map_option (\<lambda>r. r\<lparr>support_fin_ack := f\<rparr>) (resize_receive_buffer env r n)"
  by (cases "pseudo_tcp_fifo_set_capacity (rbuf r)
        (slice_alloc env (unat (push_bit (unat (fst (scale_window 0 n))) (snd (scale_window 0 n)))))")
    (auto simp: resize_receive_buffer_def Let_def split_beta assertion_def)

text \<open>C35. The options of a connect message take effect at its receiver: its send window is scaled by the
  sender's factor, or, without that option, its own scaling is given up; and FIN-ACK is
  used exactly if the sender offers it, whatever the receiver was configured for.\<close>

theorem connect_options_applied:
  "parse_options env r (drop 1 (connect_message s)) (length (connect_message s) - 1) =
    map_option (\<lambda>r. r\<lparr>support_fin_ack := support_fin_ack s\<rparr>)
     (if support_wnd_scale s then Some (r\<lparr>swnd_scale := rwnd_scale s\<rparr>)
      else if rwnd_scale r > 0
      then map_option (\<lambda>r. r\<lparr>swnd_scale := 0\<rparr>) (resize_receive_buffer env r DEFAULT_RCV_BUF_SIZE)
      else Some r)"
proof -
  consider "support_wnd_scale s" "support_fin_ack s" | "support_wnd_scale s" "\<not> support_fin_ack s"
    | "\<not> support_wnd_scale s" "support_fin_ack s" | "\<not> support_wnd_scale s" "\<not> support_fin_ack s" by blast
  then show ?thesis
  proof cases
    case 1
    then show ?thesis by (simp add: parse_options_def connect_message_def options_run)
  next
    case 2
    then show ?thesis by (simp add: parse_options_def connect_message_def options_run)
  next
    case 3
    then show ?thesis
      by (cases "resize_receive_buffer env r DEFAULT_RCV_BUF_SIZE")
        (simp_all add: parse_options_def connect_message_def options_run resize_receive_fin_ack)
  next
    case 4
    then show ?thesis
      by (cases "resize_receive_buffer env r DEFAULT_RCV_BUF_SIZE")
        (simp_all add: parse_options_def connect_message_def options_run)
  qed
qed

lemma set_state_Some: "set_state s st = Some s' \<Longrightarrow> s' = s\<lparr>state := st\<rparr>"
  by (auto simp: set_state_def bind_eq_Some_conv split: if_splits)

lemma set_state_established_keeps:
  "set_state_established s = Some s' \<Longrightarrow> snd_una s' = snd_una s \<and> swnd_scale s' = swnd_scale s"
  by (auto simp: set_state_established_def bind_eq_Some_conv notify_def adjustMTU_def Let_def dest!: set_state_Some)

lemma queue_keeps:
  "queue s d len flags = Some (n, s') \<Longrightarrow> snd_una s' = snd_una s \<and> swnd_scale s' = swnd_scale s"
  by (auto simp: queue_def bind_eq_Some_conv Let_def split: if_splits)

lemma process_control_connect:
  assumes "process_control env s seg = Some (ok, c, s')"
    and "parse_options env s (drop 1 (seg_data seg)) (unat (seg_len seg - 1)) = Some s1"
    and "seg_flags seg AND FLAG_CTL \<noteq> 0" and "seg_len seg \<noteq> 0" and "rd8 (seg_data seg) 0 = Some CTL_CONNECT"
  shows "ok" and "snd_una s' = snd_una s1" and "swnd_scale s' = swnd_scale s1"
  using assms
  by (auto simp: process_control_def bind_eq_Some_conv queue_connect_message_def Let_def split: if_splits
      dest!: set_state_Some queue_keeps set_state_established_keeps)

lemma LARGER_irrefl [simp]: "\<not> LARGER a a"
  by (simp add: LARGER_def)

text \<open>C38. The window scale option of the peer is not checked: a connect segment with a factor of 32 or more
  makes the next shift of a window size undefined, in the processing of that very segment; factors
  up to 15 are harmless for every window size.\<close>

theorem window_scale_undefined:
  assumes "seg_conv seg = conv s" and "\<not> pseudo_tcp_state_has_received_fin_ack (state s)"
    and "seg_flags seg = FLAG_CTL" and "seg_data seg = [CTL_CONNECT, TCP_OPT_WND_SCALE, 1, f]" and "seg_len seg = 4"
    and "seg_ack seg = snd_una s"
  shows "(32 \<le> f \<longrightarrow> process env s seg = None) \<and> (f \<le> 15 \<longrightarrow> scaled_window (seg_wnd seg) f \<noteq> None)"
proof (intro conjI impI)
  assume f: "32 \<le> f"
  obtain now s0 where t: "get_current_time env s = (now, s0)" by (cases "get_current_time env s")
  define s1 where "s1 = s0\<lparr>last_traffic := now, lastrecv := now, bOutgoing := False\<rparr>"
  have s1: "state s1 = state s" "snd_una s1 = snd_una s"
    using t by (auto simp: s1_def get_current_time_def split: if_splits)
  have "parse_options env s1 (drop 1 (seg_data seg)) (unat (seg_len seg - 1)) =
      Some (s1\<lparr>swnd_scale := f, support_fin_ack := False\<rparr>)"
    by (simp add: assms(4,5) parse_options_def options_run)
  note opt = this
  have "process_body env s1 seg now = None"
  proof (cases "process_control env s1 seg")
    case (Some r)
    obtain ok c s2 where r: "r = (ok, c, s2)" by (cases r)
    have s2: "ok" "snd_una s2 = snd_una s" "swnd_scale s2 = f"
      using process_control_connect [OF Some [unfolded r] opt] assms(3-5) s1 by (simp_all add: tcp_flag_defs rd8_def)
    then have "process_ack env (update_timestamp s2 seg) seg now = None"
      using f assms(6)
      by (simp add: process_ack_def update_timestamp_def process_duplicate_ack_def scaled_window_def word_le_nat_alt)
    then show ?thesis using Some r s2 by (simp add: process_body_def)
  qed (simp add: process_body_def)
  then show "process env s seg = None"
    using assms(1,2,3) s1 t by (simp add: process_def s1_def tcp_flag_defs)
next
  assume "f \<le> 15"
  then have "unat f \<le> 15" by (simp add: word_le_nat_alt)
  then have "2 ^ unat f \<le> (2 ^ 15 :: nat)" by (intro power_increasing) simp_all
  then have "unat (seg_wnd seg) * 2 ^ unat f \<le> 65535 * 2 ^ 15"
    using unat_u16 [of "seg_wnd seg"] by (intro mult_le_mono) linarith+
  then show "scaled_window (seg_wnd seg) f \<noteq> None" using \<open>unat f \<le> 15\<close> by (simp add: scaled_window_def)
qed

theorem window_scale_undefined_witness:
  "let s = example_socket PSEUDO_TCP_LISTEN [];
       seg = (sent_segment s 0 FLAG_CTL 9 [CTL_CONNECT, TCP_OPT_WND_SCALE, 1, 32])
   in seg_ack seg = snd_una s \<and> process example_env s seg = None"
proof -
  let ?s = "example_socket PSEUDO_TCP_LISTEN []"
  let ?g = "sent_segment ?s 0 FLAG_CTL 9 [CTL_CONNECT, TCP_OPT_WND_SCALE, 1, 32]"
  have "seg_conv ?g = conv ?s" "\<not> pseudo_tcp_state_has_received_fin_ack (state ?s)" "seg_flags ?g = FLAG_CTL"
    "seg_data ?g = [CTL_CONNECT, TCP_OPT_WND_SCALE, 1, 32]" "seg_len ?g = 4" "seg_ack ?g = snd_una ?s"
    by (simp_all add: sent_segment_def example_simps)
  then show ?thesis using window_scale_undefined [of ?g ?s 32 example_env] by simp
qed

end
