(* ===== verification/Pseudo_Tcp_Close.thy ===== *)
theory Pseudo_Tcp_Close
  imports Pseudo_Tcp_Frame Pseudo_Tcp_Wire
begin

text \<open>
  Closing: the navigation to the closed state never violates the transitions that
  \<open>set_state\<close> asserts; two cases in which the closing handshake goes wrong.
\<close>

lemma same_state: "state s = st \<Longrightarrow> s\<lparr>state := st\<rparr> = s"
  by simp

lemma closedown_states_total:
  "closedown_states s err =
     Some (if err \<noteq> E_OK then notify (s\<lparr>state := PSEUDO_TCP_CLOSED\<rparr>) (PseudoTcpClosed err)
           else s\<lparr>state := PSEUDO_TCP_CLOSED\<rparr>)"
  by (cases "state s") (simp_all add: closedown_states_def set_state_closed_def set_state_def TRANSITIONS_def same_state)

section \<open>Sending with nothing to send\<close>

lemma ack_packet_total:
  assumes "unat (rwnd_scale s) < 32"
  shows "\<exists>s'. packet env s seq flags offset 0 now = Some (WR_SUCCESS, s')"
  using assms by (simp add: packet_def packet_payload_def Let_def HEADER_SIZE_def MAX_PACKET_def)

text \<open>What an acknowledgement leaves as it was.\<close>

definition ack_kept :: "PseudoTcpSocketPrivate \<Rightarrow> PseudoTcpSocketPrivate \<Rightarrow> bool" where
  "ack_kept s s' \<longleftrightarrow> rx s' = rx s \<and> tx s' = tx s \<and> kx s' = kx s \<and> state s' = state s \<and> swnd_scale s' = swnd_scale s"

lemma packet_ack_kept:
  assumes "packet env s seq flags offset len now = Some (w, s')"
  shows "ack_kept s s'"
proof -
  have "swnd_scale s' = swnd_scale s"
    using assms by (auto simp: packet_def packet_sent_def Let_def bind_eq_Some_conv split: if_splits)
  then show ?thesis using packet_keeps(2) [OF assms] packet_frame [OF assms] by (simp add: ack_kept_def)
qed

lemma attempt_loop_idle:
  assumes "unsent_slist s = []" and "unat (rwnd_scale s) < 32" and "f \<noteq> sfDuplicateAck"
  shows "\<exists>s'. attempt_send_loop env now s f = Some s' \<and> ack_kept s s'"
proof -
  obtain t where t: "packet env s (snd_nxt s) FLAG_NONE 0 0 now = Some (WR_SUCCESS, t)"
    using ack_packet_total [OF assms(2)] by blast
  have "ack_kept s (s\<lparr>t_ack := now\<rparr>)" "ack_kept s s" by (simp_all add: ack_kept_def tx_def)
  then have "\<exists>s'. attempt_step env now s f = Some (Inl s') \<and> ack_kept s s'"
    using packet_ack_kept [OF t] assms(1,3) t by (simp add: attempt_step_def Let_def)
  then show ?thesis by (subst attempt_send_loop.simps) auto
qed

lemma attempt_send_idle:
  assumes "unsent_slist s = []" and "unat (rwnd_scale s) < 32"
  shows "\<exists>s'. attempt_send env s f = Some s' \<and> ack_kept s s'"
proof -
  obtain now t where t: "get_current_time env s = (now, t)" by (cases "get_current_time env s")
  define u where "u = (if time_diff now (lastsend t) > int (unat (rx_rto t)) then t\<lparr>cwnd := mss t\<rparr> else t)"
  have u: "unsent_slist u = []" "unat (rwnd_scale u) < 32"
    using t assms by (auto simp: u_def get_current_time_def split: if_splits)
  have k: "ack_kept s u" using t by (auto simp: u_def get_current_time_def ack_kept_def tx_def split: if_splits)
  have l: "attempt_send env s f = attempt_send_loop env now u f" using t by (simp add: attempt_send_def u_def Let_def)
  show ?thesis
  proof (cases "f = sfDuplicateAck")
    case True
    obtain v where v: "packet env u (snd_nxt u) FLAG_NONE 0 0 now = Some (WR_SUCCESS, v)"
      using ack_packet_total [OF u(2)] by blast
    have "attempt_send_loop env now u f = attempt_send_loop env now v sfNone"
      using v True by (subst attempt_send_loop.simps) (simp add: attempt_step_def)
    moreover have "unsent_slist v = []" "rwnd_scale v = rwnd_scale u"
      using packet_keeps(1,2) [OF v] u(1) by (simp_all add: rx_def tx_def)
    ultimately show ?thesis
      using attempt_loop_idle [of v sfNone env now] packet_ack_kept [OF v] u k l by (auto simp: ack_kept_def)
  next
    case False
    then show ?thesis using attempt_loop_idle [OF u(1,2)] k l by (fastforce simp: ack_kept_def)
  qed
qed

section \<open>A FIN in front of missing data\<close>

lemma process_ack_payload:
  assumes "seg_ack seg = snd_una s" and "seg_len seg > 0" and "scaled_window (seg_wnd seg) (swnd_scale s) = Some w"
  shows "process_ack env s seg now = Some (True, False, s\<lparr>snd_wnd := w\<rparr>)"
  using assms by (simp add: process_ack_def process_duplicate_ack_def)

text \<open>A segment with data that acknowledges nothing new goes straight to the receiving stages.\<close>

lemma process_payload:
  assumes "seg_conv seg = conv s" and "state s = PSEUDO_TCP_ESTABLISHED" and "seg_flags seg = FLAG_NONE"
    and "seg_ack seg = snd_una s" and "scaled_window (seg_wnd seg) (swnd_scale s) \<noteq> None" and "0 < seg_len seg"
  shows "\<exists>t. process env s seg = process_receive env t seg False \<and> ack_kept s t"
proof -
  obtain w where w: "scaled_window (seg_wnd seg) (swnd_scale s) = Some w" using assms(5) by blast
  obtain now s0 where t: "get_current_time env s = (now, s0)" by (cases "get_current_time env s")
  define s1 where "s1 = s0\<lparr>last_traffic := now, lastrecv := now, bOutgoing := False\<rparr>"
  have s1: "ack_kept s s1" using t by (auto simp: s1_def get_current_time_def ack_kept_def tx_def split: if_splits)
  define s2 where "s2 = (update_timestamp s1 seg)\<lparr>snd_wnd := w\<rparr>"
  have s2: "ack_kept s s2" using s1 by (simp add: s2_def ack_kept_def tx_def update_timestamp_def)
  have st: "state s0 = PSEUDO_TCP_ESTABLISHED" "state s2 = PSEUDO_TCP_ESTABLISHED"
    using s1 s2 assms(2) by (simp_all add: ack_kept_def s1_def)
  have "process_ack env (update_timestamp s1 seg) seg now = Some (True, False, s2)"
    unfolding s2_def using w s1 assms(4,6)
    by (intro process_ack_payload) (simp_all add: update_timestamp_def ack_kept_def tx_def)
  then have "process env s seg = process_receive env s2 seg False"
    using assms(1,3) t st by (simp add: process_def s1_def [symmetric] process_body_def process_control_def tcp_flag_defs)
  then show ?thesis using s2 by blast
qed

lemma process_writable_keeps [simp]:
  "rx (process_writable s) = rx s" "kx (process_writable s) = kx s" "state (process_writable s) = state s"
  "unsent_slist (process_writable s) = unsent_slist s"
  by (simp_all add: process_writable_def Let_def) (simp add: notify_def)

text \<open>C36. A FIN is taken as received by the length of a segment alone: where the octets in front of a
  pending FIN are missing, a repeated old segment of just that many octets closes the receiving side
  and moves the sequence number of the next expected octet, though nothing was received.\<close>

theorem fin_in_front_of_missing_data:
  assumes "seg_conv seg = conv s" and "state s = PSEUDO_TCP_ESTABLISHED" and "support_fin_ack s"
    and "seg_flags seg = FLAG_NONE" and "seg_ack seg = snd_una s"
    and "scaled_window (seg_wnd seg) (swnd_scale s) \<noteq> None" and "unat (rwnd_scale s) < 32"
    and "unsent_slist s = []"
    and pending: "rcv_nxt s \<noteq> 0" "rcv_fin s = rcv_nxt s + seg_len seg"
    and old: "0 < seg_len seg" "seg_len seg \<le> rcv_nxt s - seg_seq seg" "rcv_nxt s - seg_seq seg < 0x80000000"
  shows "\<exists>s'. process env s seg = Some (True, s') \<and> state s' = PSEUDO_TCP_CLOSE_WAIT \<and>
    rbuf s' = rbuf s \<and> rcv_nxt s' = rcv_nxt s + 1"
proof -
  obtain s2 where p: "process env s seg = process_receive env s2 seg False" and "ack_kept s s2"
    using process_payload [OF assms(1,2,4-6) old(1)] by blast
  then have s2: "state s2 = PSEUDO_TCP_ESTABLISHED" "rx s2 = rx s" "kx s2 = kx s" "unsent_slist s2 = []"
    using assms(2,8) by (simp_all add: ack_kept_def tx_def)
  define s3 where "s3 = process_writable (s2\<lparr>state := PSEUDO_TCP_CLOSE_WAIT\<rparr>)"
  have s3: "state s3 = PSEUDO_TCP_CLOSE_WAIT" "rx s3 = rx s" "unsent_slist s3 = []" using s2 by (simp_all add: s3_def)
  have "process_fin s2 seg False = Some (True, True, s2\<lparr>state := PSEUDO_TCP_CLOSE_WAIT\<rparr>)"
    using assms(3,4) pending s2
    by (simp add: process_fin_def fin_transition_def set_state_def TRANSITIONS_def tcp_flag_defs rx_def kx_def)
  moreover have "SMALLER (seg_seq seg) (rcv_nxt s)"
    using LARGER_ahead [of "unat (rcv_nxt s - seg_seq seg)" "seg_seq seg"] unat_u32_less [of "rcv_nxt s - seg_seq seg"] old
    by (simp add: SMALLER_def word_less_nat_alt word_le_nat_alt)
  then have "process_data s3 seg f = Some (f, False, s3)" for f
    using s3 old(2)
    by (auto simp: process_data_def segment_trim_front_def segment_trim_back_def Let_def rx_def)
  moreover obtain s' where "attempt_send env (s3\<lparr>rcv_nxt := rcv_nxt s3 + 1\<rparr>) (ack_flags s3 seg True) = Some s'"
    "rx s' = rx (s3\<lparr>rcv_nxt := rcv_nxt s3 + 1\<rparr>)" "state s' = PSEUDO_TCP_CLOSE_WAIT"
    using attempt_send_idle [of "s3\<lparr>rcv_nxt := rcv_nxt s3 + 1\<rparr>" env "ack_flags s3 seg True"] s3 assms(7)
    by (auto simp: rx_def ack_kept_def)
  ultimately show ?thesis
    using p s3 by (simp add: process_receive_def s3_def [symmetric] rx_def)
qed

text \<open>Octets 10 and 11 are missing in front of a FIN with number 12, and the octets 8 and 9 arrive again.\<close>

theorem fin_in_front_of_missing_data_witness:
  "let s = (example_socket PSEUDO_TCP_ESTABLISHED [])\<lparr>rcv_nxt := 10, rcv_fin := 12\<rparr>;
       seg = (sent_segment s 8 FLAG_NONE 9 [1, 2])\<lparr>seg_ack := 0\<rparr>
   in \<exists>s'. process example_env s seg = Some (True, s') \<and> state s' = PSEUDO_TCP_CLOSE_WAIT \<and>
        rbuf s' = rbuf s \<and> rcv_nxt s' = 11"
proof -
  let ?s = "(example_socket PSEUDO_TCP_ESTABLISHED [])\<lparr>rcv_nxt := 10, rcv_fin := 12\<rparr>"
  let ?g = "(sent_segment ?s 8 FLAG_NONE 9 [1, 2])\<lparr>seg_ack := 0\<rparr>"
  have "seg_conv ?g = conv ?s" "state ?s = PSEUDO_TCP_ESTABLISHED" "support_fin_ack ?s" "seg_flags ?g = FLAG_NONE"
    "seg_ack ?g = snd_una ?s" "scaled_window (seg_wnd ?g) (swnd_scale ?s) \<noteq> None" "unat (rwnd_scale ?s) < 32"
    "unsent_slist ?s = []" "rcv_nxt ?s \<noteq> 0" "rcv_fin ?s = rcv_nxt ?s + seg_len ?g" "0 < seg_len ?g"
    "seg_len ?g \<le> rcv_nxt ?s - seg_seq ?g" "rcv_nxt ?s - seg_seq ?g < 0x80000000"
    by (simp_all add: sent_segment_def example_simps scaled_window_def)
  note f = fin_in_front_of_missing_data [OF this, of example_env]
  have "rcv_nxt ?s + 1 = 11" by simp
  then show ?thesis using f by (simp only: Let_def)
qed

section \<open>A failed send during a shutdown\<close>

text \<open>The head of the unsent segments can be put into a packet.\<close>

definition sendable :: "PseudoTcpSocketPrivate \<Rightarrow> SSegment \<Rightarrow> bool" where
  "sendable s g \<longleftrightarrow> wf_fifo (sbuf s) \<and> unsent_slist s \<noteq> [] \<and> find_segment s (hd (unsent_slist s)) = Some g \<and>
     0 < min (ss_len g) (mss s) \<and> unat (min (ss_len g) (mss s)) + HEADER_SIZE \<le> MAX_PACKET \<and>
     unat (rwnd_scale s) < 32 \<and> ss_seq g - snd_una s \<le> 1024 * 1024 * 64 \<and>
     unat (ss_seq g - snd_una s) + unat (min (ss_len g) (mss s)) \<le> data_length (sbuf s)"

lemma packet_payload_update [simp]: "packet_payload (s\<lparr>ts_lastack := a\<rparr>) offset len = packet_payload s offset len"
  by (simp add: packet_payload_def)

lemma packet_fails:
  assumes "sendable s g" and "\<And>n p. WritePacket env n p = WR_FAIL"
  shows "\<exists>s'. packet env s (ss_seq g) (ss_flags g) (ss_seq g - snd_una s) (min (ss_len g) (mss s)) now = Some (WR_FAIL, s')"
proof -
  define n where "n = min (ss_len g) (mss s)"
  have n: "0 < n" "unat n + HEADER_SIZE \<le> MAX_PACKET" "unat (ss_seq g - snd_una s) + unat n \<le> data_length (sbuf s)"
    "wf_fifo (sbuf s)" "unat (rwnd_scale s) < 32"
    using assms(1) by (simp_all add: sendable_def n_def)
  have "of_nat HEADER_SIZE + n \<le> (of_nat MAX_PACKET :: u32)"
    using n(2) by (simp add: word_le_nat_alt unat_word_ariths(1) HEADER_SIZE_def MAX_PACKET_def)
  moreover have len: "length (take (unat n) (drop (unat (ss_seq g - snd_una s)) (fifo_data (sbuf s)))) = unat n"
    using n(3,4) by simp
  moreover have "packet_payload s (ss_seq g - snd_una s) n =
      Some (take (unat n) (drop (unat (ss_seq g - snd_una s)) (fifo_data (sbuf s))))"
    using n(1,2,4) unfolding packet_payload_def read_offset_spec [OF n(4)] Option.bind.bind_lunit len
    by (simp add: add.commute)
  ultimately show ?thesis
    using n(1,5) assms(2) by (simp add: packet_def Let_def n_def [symmetric])
qed

lemma transmit_fails:
  assumes "sendable s g" and "\<And>n p. WritePacket env n p = WR_FAIL" and "ss_xmit g = 0"
  shows "\<exists>s'. transmit env s (hd (unsent_slist s)) now = Some (ECONNABORTED, s')"
proof -
  obtain s' where "packet env s (ss_seq g) (ss_flags g) (ss_seq g - snd_una s) (min (ss_len g) (mss s)) now = Some (WR_FAIL, s')"
    using packet_fails [OF assms(1,2)] by blast
  moreover have "ss_seq g - snd_una s \<le> 1024 * 1024 * 64" "find_segment s (hd (unsent_slist s)) = Some g"
    using assms(1) by (simp_all add: sendable_def)
  ultimately show ?thesis
    using assms(3) by (simp add: transmit_def transmit_loop.simps)
qed

lemma attempt_send_fails:
  assumes "sendable s g" and "\<And>n p. WritePacket env n p = WR_FAIL" and "ss_xmit g = 0"
  shows "\<exists>s'. attempt_send env s sfFin = Some s' \<and> state s' = PSEUDO_TCP_CLOSED"
proof -
  obtain now t where t: "get_current_time env s = (now, t)" by (cases "get_current_time env s")
  define u where "u = (if time_diff now (lastsend t) > int (unat (rx_rto t)) then t\<lparr>cwnd := mss t\<rparr> else t)"
  have u: "sendable u g"
    using t assms(1) by (auto simp: u_def get_current_time_def sendable_def find_segment_def split: if_splits)
  then obtain i js where i: "unsent_slist u = i # js" and g: "find_segment u i = Some g"
    by (cases "unsent_slist u") (auto simp: sendable_def)
  obtain v where v: "transmit env u i now = Some (ECONNABORTED, v)"
    using transmit_fails [OF u assms(2,3), of now] i by auto
  have "\<exists>s'. attempt_step env now u sfFin = Some (Inl s') \<and> state s' = PSEUDO_TCP_CLOSED"
    using i g v by (simp add: attempt_step_def attempt_transmit_def Let_def closedown_states_total)
  moreover have "attempt_send env s sfFin = attempt_send_loop env now u sfFin" using t by (simp add: attempt_send_def u_def Let_def)
  ultimately show ?thesis by (subst (asm) attempt_send_loop.simps) auto
qed

lemma find_prefix: "find P xs = Some x \<Longrightarrow> find P (xs @ ys) = Some x"
  by (induction xs) auto

lemma queue_empty:
  assumes "wf_fifo (sbuf s)" and "slist s \<noteq> []"
  obtains s1 n where "queue s [] 0 flags = Some (n, s1)" and "rx s1 = rx s" and "kx s1 = kx s" and "state s1 = state s"
    and "snd_una s1 = snd_una s" and "mss s1 = mss s" and "wf_fifo (sbuf s1)" and "data_length (sbuf s1) = data_length (sbuf s)"
    and "\<exists>gs. slist s1 = slist s @ gs" and "\<exists>is. unsent_slist s1 = unsent_slist s @ is"
proof -
  obtain b where b: "pseudo_tcp_fifo_write (sbuf s) [] 0 = Some (0, b)" "wf_fifo b" "fifo_data b = fifo_data (sbuf s)"
    using write_spec [OF assms(1), of 0 "[]"] by auto
  then have l: "data_length b = data_length (sbuf s)" using assms(1) by (metis length_fifo_data)
  show thesis
  proof (cases "ss_flags (last (slist s)) = flags \<and> ss_xmit (last (slist s)) = 0")
    case True
    then have "queue s [] 0 flags = Some (0, s\<lparr>slist := butlast (slist s) @ [last (slist s)], sbuf := b\<rparr>)"
      using b(1) assms(2) by (simp add: queue_def)
    then show thesis using that b l assms(2) by simp
  next
    case False
    then have "(slist s \<noteq> [] \<and> ss_flags (last (slist s)) = flags \<and> ss_xmit (last (slist s)) = 0) = False" by blast
    then have "queue s [] 0 flags = Some (0, s\<lparr>slist := slist s @ [\<lparr>ss_id = next_id s,
          ss_seq = snd_una s + of_nat (data_length (sbuf s)), ss_len = 0, ss_xmit = 0, ss_flags = flags\<rparr>],
        unsent_slist := unsent_slist s @ [next_id s], next_id := next_id s + 1, sbuf := b\<rparr>)"
      using b(1) by (simp only: queue_def Let_def pseudo_tcp_fifo_get_buffered_def if_False) simp
    then show thesis using that b l by simp
  qed
qed

text \<open>C37. Shutting down aborts the program when sending fails: where the socket still has data to send and
  the network refuses the packet, the attempt to send in front of the FIN closes the socket, and the
  transition to FIN-WAIT-1 that follows violates the assertion of \<open>set_state\<close>.\<close>

theorem shutdown_after_failed_send:
  assumes "state s = PSEUDO_TCP_ESTABLISHED" and "support_fin_ack s" and "data_length (rbuf s) = 0"
    and "sendable s g" and "ss_xmit g = 0" and fail: "\<And>n p. WritePacket env n p = WR_FAIL"
    and "how \<noteq> PSEUDO_TCP_SHUTDOWN_RD"
  shows "pseudo_tcp_socket_shutdown env s how = None \<and>
    (\<exists>s1 s2. queue_fin_message s = Some s1 \<and> attempt_send env s1 sfFin = Some s2 \<and> state s2 = PSEUDO_TCP_CLOSED)"
proof -
  have fin: "\<exists>s1 s2. queue_fin_message t = Some s1 \<and> attempt_send env s1 sfFin = Some s2 \<and> state s2 = PSEUDO_TCP_CLOSED"
    if t: "sendable t g" "support_fin_ack t" for t
  proof -
    have wf: "wf_fifo (sbuf t)" and ne: "slist t \<noteq> []" using t(1) by (auto simp: sendable_def find_segment_def)
    obtain s1 n where q: "queue t [] 0 FLAG_FIN = Some (n, s1)" "rx s1 = rx t" "kx s1 = kx t" "snd_una s1 = snd_una t"
      "mss s1 = mss t" "wf_fifo (sbuf s1)" "data_length (sbuf s1) = data_length (sbuf t)"
      "\<exists>gs. slist s1 = slist t @ gs" "\<exists>is. unsent_slist s1 = unsent_slist t @ is"
      using queue_empty [OF wf ne, of FLAG_FIN] by metis
    have "sendable s1 g" using t(1) q by (auto simp: sendable_def find_segment_def rx_def find_prefix)
    then show ?thesis
      using attempt_send_fails [OF _ fail assms(5)] q(1) t(2) by (auto simp: queue_fin_message_def)
  qed
  define t where "t = (if how = PSEUDO_TCP_SHUTDOWN_WR then s else s\<lparr>shutdown_reads := True\<rparr>)"
  have t: "sendable t g" "support_fin_ack t" "state t = PSEUDO_TCP_ESTABLISHED" "data_length (rbuf t) = 0"
    using assms(1-4) by (auto simp: t_def sendable_def find_segment_def)
  obtain s1 s2 where s2: "queue_fin_message t = Some s1" "attempt_send env s1 sfFin = Some s2" "state s2 = PSEUDO_TCP_CLOSED"
    using fin [OF t(1,2)] by blast
  have "set_state s2 PSEUDO_TCP_FIN_WAIT_1 = None" using s2(3) by (simp add: set_state_def TRANSITIONS_def)
  then have "pseudo_tcp_socket_shutdown env s how = None"
    using assms(2,7) t s2
    by (simp add: pseudo_tcp_socket_shutdown_def t_def [symmetric] pseudo_tcp_socket_get_available_bytes_def
        pseudo_tcp_fifo_get_buffered_def)
  then show ?thesis using fin [OF assms(4,2)] by blast
qed

theorem shutdown_after_failed_send_witness:
  "let g = \<lparr>ss_id = 0, ss_seq = 0, ss_len = 3, ss_xmit = 0, ss_flags = FLAG_NONE\<rparr>;
       s = (example_socket PSEUDO_TCP_ESTABLISHED [1, 2, 3])\<lparr>slist := [g], unsent_slist := [0], next_id := 1\<rparr>
   in sendable s g \<and>
     pseudo_tcp_socket_shutdown (example_env\<lparr>WritePacket := (\<lambda>n p. WR_FAIL)\<rparr>) s PSEUDO_TCP_SHUTDOWN_RDWR = None"
proof -
  let ?g = "\<lparr>ss_id = 0, ss_seq = 0, ss_len = 3, ss_xmit = 0, ss_flags = FLAG_NONE\<rparr>"
  let ?s = "(example_socket PSEUDO_TCP_ESTABLISHED [1, 2, 3])\<lparr>slist := [?g], unsent_slist := [0], next_id := 1\<rparr>"
  let ?env = "example_env\<lparr>WritePacket := (\<lambda>n p. WR_FAIL)\<rparr>"
  have "min 3 (MIN_PACKET - PACKET_OVERHEAD) = 3"
    by (simp add: MIN_PACKET_def PACKET_OVERHEAD_def HEADER_SIZE_def UDP_HEADER_SIZE_def IP_HEADER_SIZE_def JINGLE_HEADER_SIZE_def)
  then have g: "sendable ?s ?g" by (simp add: sendable_def example_simps find_segment_def HEADER_SIZE_def MAX_PACKET_def)
  have "state ?s = PSEUDO_TCP_ESTABLISHED" "support_fin_ack ?s" "data_length (rbuf ?s) = 0"
    by (simp_all add: example_simps)
  then have "pseudo_tcp_socket_shutdown ?env ?s PSEUDO_TCP_SHUTDOWN_RDWR = None"
    using shutdown_after_failed_send [OF _ _ _ g, of ?env PSEUDO_TCP_SHUTDOWN_RDWR] by simp
  then show ?thesis using g by (simp only: Let_def simp_thms)
qed

end
