(* ===== verification/Pseudo_Tcp_Window.thy ===== *)
theory Pseudo_Tcp_Window
  imports Pseudo_Tcp_Fifo
begin

text \<open>
  The ring buffer as a receive window: bytes are stored ahead of the data, out of order, and
  committed once the gap in front of them is closed.  The locale \<open>window_queue\<close> extends the
  contract of a byte queue by this; its lemmas follow a part of a stream through the window.
\<close>

section \<open>The contract\<close>

text \<open>
  The byte \<open>ah x\<close> is the one stored \<open>x\<close> bytes behind the data, and \<open>fr\<close> is the free room there.
  The next byte to commit has the position \<open>n\<close> of the stream \<open>st\<close>.  The \<open>len\<close> bytes of the stream
  at \<open>p\<close> are in place where they are stored, as far as they are not yet committed.
\<close>

definition in_place :: "(nat \<Rightarrow> u8) \<Rightarrow> nat \<Rightarrow> bytes \<Rightarrow> nat \<Rightarrow> nat \<Rightarrow> nat \<Rightarrow> bool" where
  "in_place ah fr st n p len \<longleftrightarrow> p + len \<le> n + fr \<and> p + len \<le> length st \<and>
     (\<forall>j < len. n \<le> p + j \<longrightarrow> ah (p + j - n) = st ! (p + j))"

locale window_queue = byte_queue wf content capacity push pop
  for wf :: "'q \<Rightarrow> bool" and content capacity push pop +
  fixes ahead :: "'q \<Rightarrow> nat \<Rightarrow> u8" and store :: "'q \<Rightarrow> bytes \<Rightarrow> nat \<Rightarrow> nat \<Rightarrow> (nat \<times> 'q) option"
    and commit :: "'q \<Rightarrow> nat \<Rightarrow> 'q option"
  assumes store: "wf q \<Longrightarrow> n \<le> length xs \<Longrightarrow> off + n \<le> capacity q - length (content q) \<Longrightarrow>
      \<exists>q'. store q xs n off = Some (n, q') \<and> wf q' \<and> capacity q' = capacity q \<and> content q' = content q \<and>
        (\<forall>x < capacity q - length (content q). ahead q' x = (if off \<le> x \<and> x < off + n then xs ! (x - off) else ahead q x))"
    and commit: "wf q \<Longrightarrow> c \<le> capacity q - length (content q) \<Longrightarrow>
      \<exists>q'. commit q c = Some q' \<and> wf q' \<and> capacity q' = capacity q \<and> content q' = content q @ map (ahead q) [0..<c] \<and>
        (\<forall>x. ahead q' x = ahead q (x + c))"
    and pop_ahead: "wf q \<Longrightarrow> pop q n = Some (ys, q') \<Longrightarrow> x < capacity q - length (content q) \<Longrightarrow> ahead q' x = ahead q x"
begin

abbreviation placed :: "bytes \<Rightarrow> nat \<Rightarrow> 'q \<Rightarrow> nat \<Rightarrow> nat \<Rightarrow> bool" where
  "placed st n q p len \<equiv> in_place (ahead q) (capacity q - length (content q)) st n p len"

text \<open>Storing a part of the stream puts it in place and leaves the other parts there, overlapping or not.\<close>

lemma store_placed:
  assumes "wf q" and "len \<le> length xs" and "take len xs = take len (drop p st)" and "p + len \<le> length st"
    and "n \<le> p" and "p - n + len \<le> capacity q - length (content q)"
  shows "\<exists>q'. store q xs len (p - n) = Some (len, q') \<and> wf q' \<and> capacity q' = capacity q \<and> content q' = content q \<and>
    placed st n q' p len \<and> (\<forall>p' len'. placed st n q p' len' \<longrightarrow> placed st n q' p' len')"
proof -
  let ?fr = "capacity q - length (content q)"
  obtain q' where q': "store q xs len (p - n) = Some (len, q')" "wf q'" "capacity q' = capacity q" "content q' = content q"
    and ah: "\<And>x. x < ?fr \<Longrightarrow> ahead q' x = (if p - n \<le> x \<and> x < p - n + len then xs ! (x - (p - n)) else ahead q x)"
    using store [OF assms(1,2,6)] by blast
  have xs: "xs ! j = st ! (p + j)" if "j < len" for j
  proof -
    have "xs ! j = take len xs ! j" using that by simp
    also have "\<dots> = st ! (p + j)" using that assms(3,4) by simp
    finally show ?thesis .
  qed
  have "ahead q' (p' + j - n) = st ! (p' + j)"
    if "n \<le> p' + j" "p' + j - n < ?fr" "ahead q (p' + j - n) = st ! (p' + j) \<or> p \<le> p' + j \<and> p' + j < p + len" for p' j
    using that ah [OF that(2)] xs [of "p' + j - p"] assms(5) by (auto simp: diff_diff_left)
  then show ?thesis
    using q' assms(4-6) by (auto simp: in_place_def)
qed

lemma commit_placed:
  assumes "wf q" and "placed st n q p len" and "p \<le> n" and "n \<le> p + len"
  shows "\<exists>q'. commit q (p + len - n) = Some q' \<and> wf q' \<and> capacity q' = capacity q \<and>
    content q' = content q @ take (p + len - n) (drop n st) \<and>
    (\<forall>p' len'. placed st n q p' len' \<longrightarrow> placed st (p + len) q' p' len')"
proof -
  define c where "c = p + len - n"
  have c: "c \<le> capacity q - length (content q)" "n + c = p + len" using assms(2,4) by (auto simp: in_place_def c_def)
  obtain q' where q': "commit q c = Some q'" "wf q'" "capacity q' = capacity q"
    "content q' = content q @ map (ahead q) [0..<c]" and ah: "\<And>x. ahead q' x = ahead q (x + c)"
    using commit [OF assms(1) c(1)] by blast
  have "ahead q x = st ! (n + x)" if "x < c" for x
  proof -
    have "n + x - p < len" "n \<le> p + (n + x - p)" "p + (n + x - p) = n + x" using that assms(3) c(2) by auto
    moreover from this have "ahead q (p + (n + x - p) - n) = st ! (p + (n + x - p))"
      using assms(2) unfolding in_place_def by blast
    ultimately show ?thesis by simp
  qed
  then have "map (ahead q) [0..<c] = take c (drop n st)"
    using assms(2) c(2) by (intro nth_equalityI) (auto simp: in_place_def)
  moreover have "placed st n q p' len' \<longrightarrow> placed st (n + c) q' p' len'" for p' len'
    using q'(3,4) c(1) ah by (auto simp: in_place_def diff_diff_left add.commute)
  ultimately show ?thesis using q' c(2) by (simp add: c_def)
qed

lemma pop_placed:
  assumes "wf q" and "pop q m = Some (ys, q')" and "placed st n q p len"
  shows "placed st n q' p len"
proof -
  have "capacity q' = capacity q" "length (content q') \<le> length (content q)"
    using pop [OF assms(1), of m] assms(2) by auto
  moreover have "ahead q' (p + j - n) = ahead q (p + j - n)" if "j < len" "n \<le> p + j" for j
    using pop_ahead [OF assms(1,2)] that assms(3) by (auto simp: in_place_def)
  ultimately show ?thesis using assms(3) by (auto simp: in_place_def)
qed

end

section \<open>The ring buffer keeps the contract\<close>

definition fifo_ahead :: "PseudoTcpFifo \<Rightarrow> nat \<Rightarrow> u8" where
  "fifo_ahead b x = ring b ! (data_length b + x)"

lemma store_ahead:
  assumes "wf_fifo b" and "n \<le> length src" and "off + n \<le> buffer_length b - data_length b"
  shows "\<exists>b'. pseudo_tcp_fifo_write_offset b src n off = Some (n, b') \<and> wf_fifo b' \<and> buffer_length b' = buffer_length b \<and>
    fifo_data b' = fifo_data b \<and>
    (\<forall>x < buffer_length b - data_length b.
       fifo_ahead b' x = (if off \<le> x \<and> x < off + n then src ! (x - off) else fifo_ahead b x))"
proof -
  have n: "min n (buffer_length b - (data_length b + off)) = n" "min (buffer_length b - (data_length b + off)) n = n"
    using assms(3) by auto
  obtain b' where w: "pseudo_tcp_fifo_write_offset b src n off = Some (n, b')" "wf_fifo b'"
    "buffer_length b' = buffer_length b" "data_length b' = data_length b"
    "ring b' = take (data_length b + off) (ring b) @ take n src @ drop (data_length b + off + n) (ring b)"
    using write_offset_spec [OF assms(1,2), of off] by (auto simp: n)
  have l: "length (ring b) = buffer_length b" "data_length b \<le> buffer_length b"
    using assms(1) by (simp_all add: wf_fifo_def ring_def)
  have "fifo_ahead b' x = (if off \<le> x \<and> x < off + n then src ! (x - off) else fifo_ahead b x)"
    if "x < buffer_length b - data_length b" for x
    using that assms(2,3) l w(4) by (auto simp: fifo_ahead_def w(5) nth_append)
  moreover have "fifo_data b' = fifo_data b" using w(4,5) l assms(3) by (simp add: fifo_data_def)
  ultimately show ?thesis using w by blast
qed

lemma commit_ahead:
  assumes "wf_fifo b" and "c \<le> buffer_length b - data_length b"
  shows "\<exists>b'. pseudo_tcp_fifo_consume_write_buffer b c = Some b' \<and> wf_fifo b' \<and> buffer_length b' = buffer_length b \<and>
    fifo_data b' = fifo_data b @ map (fifo_ahead b) [0..<c] \<and> (\<forall>x. fifo_ahead b' x = fifo_ahead b (x + c))"
proof -
  let ?b = "b\<lparr>data_length := data_length b + c\<rparr>"
  have r: "ring ?b = ring b" by (simp add: ring_def)
  have l: "length (ring b) = buffer_length b" "data_length b \<le> buffer_length b"
    using assms(1) by (simp_all add: wf_fifo_def ring_def)
  have "map (fifo_ahead b) [0..<c] = take c (drop (data_length b) (ring b))"
    using assms(2) l by (intro nth_equalityI) (auto simp: fifo_ahead_def)
  then have "fifo_data ?b = fifo_data b @ map (fifo_ahead b) [0..<c]" by (simp add: fifo_data_def r take_add)
  moreover have "\<forall>x. fifo_ahead ?b x = fifo_ahead b (x + c)" by (simp add: fifo_ahead_def r) (simp add: ac_simps)
  moreover have "wf_fifo ?b" using assms by (auto simp: wf_fifo_def)
  ultimately show ?thesis using assms(2) by (simp add: pseudo_tcp_fifo_consume_write_buffer_def)
qed

lemma read_ahead:
  assumes "wf_fifo b" and "x < buffer_length b - data_length b"
  shows "fifo_ahead (fifo_skip b (min n (data_length b))) x = fifo_ahead b x"
proof -
  define m where "m = min n (data_length b)"
  have "m \<le> data_length b" "data_length b \<le> length (ring b)" "length (ring b) = buffer_length b"
    using assms(1) by (simp_all add: wf_fifo_def ring_def m_def)
  then show ?thesis
    unfolding m_def [symmetric] using fifo_skip_spec [OF assms(1), of m] assms(2)
    by (auto simp: fifo_ahead_def nth_append)
qed

interpretation window: window_queue wf_fifo fifo_data buffer_length
  "\<lambda>b xs. pseudo_tcp_fifo_write b xs (length xs)" pseudo_tcp_fifo_read
  fifo_ahead pseudo_tcp_fifo_write_offset pseudo_tcp_fifo_consume_write_buffer
proof
  show "\<exists>b'. pseudo_tcp_fifo_write_offset b xs n off = Some (n, b') \<and> wf_fifo b' \<and> buffer_length b' = buffer_length b \<and>
      fifo_data b' = fifo_data b \<and>
      (\<forall>x < buffer_length b - length (fifo_data b).
         fifo_ahead b' x = (if off \<le> x \<and> x < off + n then xs ! (x - off) else fifo_ahead b x))"
    if "wf_fifo b" "n \<le> length xs" "off + n \<le> buffer_length b - length (fifo_data b)" for b xs n off
    using store_ahead [of b n xs off] that by simp
  show "\<exists>b'. pseudo_tcp_fifo_consume_write_buffer b c = Some b' \<and> wf_fifo b' \<and> buffer_length b' = buffer_length b \<and>
      fifo_data b' = fifo_data b @ map (fifo_ahead b) [0..<c] \<and> (\<forall>x. fifo_ahead b' x = fifo_ahead b (x + c))"
    if "wf_fifo b" "c \<le> buffer_length b - length (fifo_data b)" for b c
    using commit_ahead [of b c] that by simp
  show "fifo_ahead b' x = fifo_ahead b x"
    if "wf_fifo b" "pseudo_tcp_fifo_read b n = Some (ys, b')" "x < buffer_length b - length (fifo_data b)" for b n ys b' x
    using read_ahead [of b x n] that by (auto simp: read_spec)
qed

end
