(* ===== verification/Pseudo_Tcp_Stream.thy ===== *)
theory Pseudo_Tcp_Stream
  imports Pseudo_Tcp_Close Pseudo_Tcp_Window
begin

text \<open>
  The receiver of a pseudo-TCP connection: whatever order, loss and repetition of the data
  segments of a stream, what the socket delivers is a prefix of the stream.
\<close>

section \<open>Positions in a stream\<close>

text \<open>
  The sequence number of a position is the position as a 32-bit word.  Streams here are shorter than
  \<open>2 ^ 31 - 1\<close> bytes, so that the circular comparisons agree with the order of the positions.
\<close>

lemma u32_behind:
  assumes "p < q" and "q < 0x7FFFFFFF"
  obtains k where "(of_nat p :: u32) = of_nat q + of_nat k" and "0x7FFFFFFF < k" and "k \<le> 0xFFFFFFFF"
proof
  let ?k = "4294967296 - (q - p)"
  have "(of_nat (q + ?k) :: u32) = of_nat (p + 4294967296)" using assms by (simp add: algebra_simps)
  then show "(of_nat p :: u32) = of_nat q + of_nat ?k" by (simp add: u32_wrap)
qed (use assms in auto)

lemma u32_ahead: "q \<le> p \<Longrightarrow> (of_nat p :: u32) = of_nat q + of_nat (p - q)"
  by (simp add: of_nat_diff)

lemma LARGER_pos:
  assumes "p < 0x7FFFFFFF" and "q < 0x7FFFFFFF"
  shows "LARGER (of_nat p) (of_nat q) \<longleftrightarrow> q < p"
proof (cases "q \<le> p")
  case True
  then show ?thesis using LARGER_ahead [of "p - q" "of_nat q", folded u32_ahead [OF True]] assms by auto
next
  case False
  then have "p < q" by simp
  then obtain k where "(of_nat p :: u32) = of_nat q + of_nat k" "0x7FFFFFFF < k" "k \<le> 0xFFFFFFFF"
    using u32_behind [OF _ assms(2)] by blast
  then show ?thesis using LARGER_ahead [of k "of_nat q"] False by auto
qed

lemma LARGER_OR_EQUAL_pos:
  assumes "p < 0x7FFFFFFF" and "q < 0x7FFFFFFF"
  shows "LARGER_OR_EQUAL (of_nat p) (of_nat q) \<longleftrightarrow> q \<le> p"
proof (cases "q \<le> p")
  case True
  then show ?thesis using LARGER_OR_EQUAL_ahead [of "p - q" "of_nat q", folded u32_ahead [OF True]] assms by auto
next
  case False
  then have "p < q" by simp
  then obtain k where "(of_nat p :: u32) = of_nat q + of_nat k" "0x7FFFFFFF < k" "k \<le> 0xFFFFFFFF"
    using u32_behind [OF _ assms(2)] by blast
  then show ?thesis using LARGER_OR_EQUAL_ahead [of k "of_nat q"] False by auto
qed

lemma of_nat_eq_pos:
  assumes "p < 0x7FFFFFFF" and "q < 0x7FFFFFFF"
  shows "(of_nat p :: u32) = of_nat q \<longleftrightarrow> p = q"
proof
  assume "(of_nat p :: u32) = of_nat q"
  then have "unat (of_nat p :: u32) = unat (of_nat q :: u32)" by simp
  then show "p = q" using assms by (simp add: unat_of_nat_u32)
qed simp

lemma unat_diff_pos:
  assumes "q \<le> p" and "p < 0x7FFFFFFF"
  shows "unat ((of_nat p :: u32) - of_nat q) = p - q"
proof -
  have "(of_nat p :: u32) - of_nat q = of_nat (p - q)" using assms(1) by (simp add: of_nat_diff)
  then show ?thesis using assms(2) by (simp only: unat_of_nat_u32)
qed

lemmas pos_simps = LARGER_pos LARGER_OR_EQUAL_pos SMALLER_def SMALLER_OR_EQUAL_def of_nat_eq_pos

section \<open>Storing segments\<close>

text \<open>A saved segment whose bytes are in place, where \<open>n\<close> is the position of the next byte expected.\<close>

definition saved_in_place :: "bytes \<Rightarrow> nat \<Rightarrow> PseudoTcpFifo \<Rightarrow> RSegment \<Rightarrow> bool" where
  "saved_in_place st n b r \<longleftrightarrow> (\<exists>p. rs_seq r = of_nat p \<and>
     in_place (fifo_ahead b) (buffer_length b - length (fifo_data b)) st n p (unat (rs_len r)))"

text \<open>One round of the recovery loop: the head of the saved segments is ahead, used up, or closes the gap.\<close>

lemma recover_round:
  assumes "length st < 0x7FFFFFFF" and "n \<le> length st" and "wf_fifo b"
    and "rs_seq r = of_nat p" and "in_place (fifo_ahead b) (buffer_length b - length (fifo_data b)) st n p (unat (rs_len r))"
  shows "n < p \<Longrightarrow> recover_segments (r # rs) b (of_nat n) wnd f = Some (r # rs, b, of_nat n, wnd, f)"
    and "p + unat (rs_len r) \<le> n \<Longrightarrow> recover_segments (r # rs) b (of_nat n) wnd f = recover_segments rs b (of_nat n) wnd f"
    and "p \<le> n \<Longrightarrow> n < p + unat (rs_len r) \<Longrightarrow> pseudo_tcp_fifo_consume_write_buffer b (p + unat (rs_len r) - n) = Some b' \<Longrightarrow>
      recover_segments (r # rs) b (of_nat n) wnd f =
      recover_segments rs b' (of_nat (p + unat (rs_len r))) (wnd - of_nat (p + unat (rs_len r) - n)) True"
proof -
  define l where "l = unat (rs_len r)"
  have pl: "p + l \<le> length st" "rs_len r = of_nat l" using assms(5) by (simp_all add: in_place_def l_def)
  have seq: "rs_seq r + rs_len r = of_nat (p + l)" using assms(4) pl(2) by simp
  have small: "p < 0x7FFFFFFF" "n < 0x7FFFFFFF" "p + l < 0x7FFFFFFF" using assms(1,2) pl(1) by auto
  have le: "SMALLER_OR_EQUAL (rs_seq r) (of_nat n) \<longleftrightarrow> p \<le> n" using small by (simp add: pos_simps assms(4))
  have lg: "LARGER (rs_seq r + rs_len r) (of_nat n) \<longleftrightarrow> n < p + l" using LARGER_pos [OF small(3,2)] unfolding seq by simp
  show "n < p \<Longrightarrow> recover_segments (r # rs) b (of_nat n) wnd f = Some (r # rs, b, of_nat n, wnd, f)"
    using le by simp
  show "p + l \<le> n \<Longrightarrow> recover_segments (r # rs) b (of_nat n) wnd f = recover_segments rs b (of_nat n) wnd f"
    using le lg by simp
  assume *: "p \<le> n" "n < p + l" "pseudo_tcp_fifo_consume_write_buffer b (p + l - n) = Some b'"
  have "rs_seq r + rs_len r - of_nat n = of_nat (p + l - n)" unfolding seq using *(2) by (simp only: of_nat_diff less_imp_le)
  moreover have "unat (of_nat (p + l - n) :: u32) = p + l - n" using small by (simp add: unat_of_nat_u32)
  moreover have "of_nat n + of_nat (p + l - n) = (of_nat (p + l) :: u32)" using *(2) by (simp add: of_nat_diff)
  ultimately show "recover_segments (r # rs) b (of_nat n) wnd f =
      recover_segments rs b' (of_nat (p + l)) (wnd - of_nat (p + l - n)) True"
    using le lg * by (simp add: Let_def)
qed

text \<open>
  Where the recovery ends: \<open>m\<close> is the first position from \<open>e\<close> on that none of the saved segments holds.  The
  saved segments are in the order of their positions.
\<close>

definition holds :: "RSegment list \<Rightarrow> nat \<Rightarrow> bool" where
  "holds rs x \<longleftrightarrow> (\<exists>r \<in> set rs. unat (rs_seq r) \<le> x \<and> x < unat (rs_seq r) + unat (rs_len r))"

definition first_missing :: "RSegment list \<Rightarrow> nat \<Rightarrow> nat \<Rightarrow> bool" where
  "first_missing rs e m \<longleftrightarrow> e \<le> m \<and> (\<forall>x. e \<le> x \<and> x < m \<longrightarrow> holds rs x) \<and> \<not> holds rs m"

definition in_order :: "RSegment list \<Rightarrow> bool" where
  "in_order rs \<longleftrightarrow> sorted (map (\<lambda>r. unat (rs_seq r)) rs)"

lemma holds_simps [simp]:
  "\<not> holds [] x"
  "holds (r # rs) x \<longleftrightarrow> unat (rs_seq r) \<le> x \<and> x < unat (rs_seq r) + unat (rs_len r) \<or> holds rs x"
  by (auto simp: holds_def)

lemma in_order_simps [simp]:
  "in_order []"
  "in_order (r # rs) \<longleftrightarrow> (\<forall>r' \<in> set rs. unat (rs_seq r) \<le> unat (rs_seq r')) \<and> in_order rs"
  by (auto simp: in_order_def)

lemma first_missing_here:
  assumes "in_order (r # rs)" and "n < unat (rs_seq r)"
  shows "first_missing (r # rs) n n"
  using assms by (auto simp: first_missing_def holds_def)

lemma first_missing_Cons:
  assumes "unat (rs_seq r) \<le> n" and "first_missing rs (max n (unat (rs_seq r) + unat (rs_len r))) m"
  shows "first_missing (r # rs) n m"
  using assms by (auto simp: first_missing_def)

lemma set_insert_rsegment [simp]: "set (insert_rsegment x rs) = insert x (set rs)"
  by (induction rs) auto

lemma in_order_insert:
  assumes "in_order rs" and "\<forall>r \<in> set rs. unat (rs_seq r) < 0x7FFFFFFF" and "unat (rs_seq x) < 0x7FFFFFFF"
  shows "in_order (insert_rsegment x rs)"
  using assms(1,2)
proof (induction rs)
  case (Cons r rs)
  have "SMALLER (rs_seq r) (rs_seq x) \<longleftrightarrow> unat (rs_seq r) < unat (rs_seq x)"
    using LARGER_pos [of "unat (rs_seq x)" "unat (rs_seq r)"] Cons.prems(2) assms(3) by (simp add: SMALLER_def)
  then show ?case using Cons by auto
qed simp

lemma recover_segments_spec:
  assumes "length st < 0x7FFFFFFF" and "n \<le> length st" and "wf_fifo b" and "\<forall>r \<in> set rs. saved_in_place st n b r"
    and "in_order rs"
  shows "\<exists>rs' b' m w g. recover_segments rs b (of_nat n) wnd f = Some (rs', b', of_nat m, w, g) \<and>
    n \<le> m \<and> m \<le> length st \<and> wf_fifo b' \<and> buffer_length b' = buffer_length b \<and>
    fifo_data b' = fifo_data b @ take (m - n) (drop n st) \<and> (\<forall>r \<in> set rs'. saved_in_place st m b' r) \<and>
    in_order rs' \<and> first_missing rs n m"
  using assms(2-5)
proof (induction rs arbitrary: n b wnd f)
  case Nil
  then show ?case by (auto simp: first_missing_def intro!: exI [of _ n])
next
  case (Cons r rs)
  obtain p where p: "rs_seq r = of_nat p" "in_place (fifo_ahead b) (buffer_length b - length (fifo_data b)) st n p (unat (rs_len r))"
    using Cons.prems(3) by (auto simp: saved_in_place_def)
  note round = recover_round [OF assms(1) Cons.prems(1,2) p]
  have u: "unat (rs_seq r) = p" using p assms(1) by (simp add: in_place_def unat_of_nat_u32)
  have ord: "in_order rs" using Cons.prems(4) by simp
  consider "n < p" | "p \<le> n" "p + unat (rs_len r) \<le> n" | "p \<le> n" "n < p + unat (rs_len r)" by linarith
  then show ?case
  proof cases
    case 1
    have "first_missing (r # rs) n n" using first_missing_here [OF Cons.prems(4)] 1 u by simp
    then show ?thesis unfolding round(1) [OF 1] using Cons.prems by (intro exI conjI refl) auto
  next
    case 2
    have "first_missing rs n m \<Longrightarrow> first_missing (r # rs) n m" for m
      using first_missing_Cons [of r n rs m] 2 u by (simp add: max_absorb1)
    then show ?thesis
      unfolding round(2) [OF 2(2)] using Cons.IH [OF Cons.prems(1,2) _ ord, of wnd f] Cons.prems(3) by fastforce
  next
    case 3
    define e where "e = p + unat (rs_len r)"
    have e: "n < e" "e \<le> length st" using 3(2) p(2) by (simp_all add: in_place_def e_def)
    obtain b1 where b1: "pseudo_tcp_fifo_consume_write_buffer b (e - n) = Some b1" "wf_fifo b1"
      "buffer_length b1 = buffer_length b" "fifo_data b1 = fifo_data b @ take (e - n) (drop n st)"
      and keep: "\<And>p' l'. in_place (fifo_ahead b) (buffer_length b - length (fifo_data b)) st n p' l' \<Longrightarrow>
        in_place (fifo_ahead b1) (buffer_length b1 - length (fifo_data b1)) st e p' l'"
      using window.commit_placed [OF Cons.prems(2) p(2) 3(1) less_imp_le [OF 3(2)]] unfolding e_def by blast
    have saved: "\<forall>r \<in> set rs. saved_in_place st e b1 r"
      using Cons.prems(3) keep unfolding saved_in_place_def by (metis list.set_intros(2))
    have join: "e \<le> m \<Longrightarrow> take (e - n) (drop n st) @ take (m - e) (drop e st) = take (m - n) (drop n st)" for m
      using e(1) take_add [of "e - n" "m - e" "drop n st"] by simp
    have miss: "first_missing rs e m \<Longrightarrow> first_missing (r # rs) n m" for m
      using first_missing_Cons [of r n rs m] 3 u by (simp add: max_absorb2 e_def)
    show ?thesis
      unfolding round(3) [OF 3 b1(1) [unfolded e_def]] e_def [symmetric]
      using Cons.IH [OF e(2) b1(2) saved ord, of "wnd - of_nat (e - n)" True] b1(3,4) e(1) join miss by fastforce
  qed
qed

text \<open>A segment that carries the part of the stream at a position.\<close>

definition carries :: "bytes \<Rightarrow> nat \<Rightarrow> Segment \<Rightarrow> bool" where
  "carries st p seg \<longleftrightarrow> seg_seq seg = of_nat p \<and> p + unat (seg_len seg) \<le> length st \<and>
     unat (seg_len seg) \<le> length (seg_data seg) \<and>
     take (unat (seg_len seg)) (seg_data seg) = take (unat (seg_len seg)) (drop p st)"

lemma trim_front_carries:
  assumes "length st < 0x7FFFFFFF" and "n \<le> length st" and "carries st p seg"
  shows "\<exists>p'. carries st p' (segment_trim_front (of_nat n) seg) \<and> (seg_len (segment_trim_front (of_nat n) seg) = 0 \<or> n \<le> p') \<and>
    seg_flags (segment_trim_front (of_nat n) seg) = seg_flags seg"
proof -
  define l where "l = unat (seg_len seg)"
  have l: "seg_len seg = of_nat l" "p + l \<le> length st" "l \<le> length (seg_data seg)" "take l (seg_data seg) = take l (drop p st)"
    and seq: "seg_seq seg = of_nat p"
    using assms(3) by (simp_all add: carries_def l_def)
  have small: "p < 0x7FFFFFFF" "n < 0x7FFFFFFF" using assms(1,2) l(2) by auto
  have sm: "SMALLER (seg_seq seg) (of_nat n) \<longleftrightarrow> p < n" using small by (simp add: seq pos_simps)
  show ?thesis
  proof (cases "p < n")
    case False
    then show ?thesis using assms(3) sm by (auto simp: segment_trim_front_def)
  next
    case True
    have a: "of_nat n - seg_seq seg = of_nat (n - p)" "unat (of_nat (n - p) :: u32) = n - p"
      using True small unat_of_nat_u32 [of "n - p"] by (simp_all add: seq of_nat_diff)
    have less: "of_nat (n - p) < seg_len seg \<longleftrightarrow> n - p < l" using a(2) by (simp add: word_less_nat_alt l_def)
    show ?thesis
    proof (cases "n - p < l")
      case c: True
      let ?g = "seg\<lparr>seg_seq := of_nat n, seg_data := drop (n - p) (seg_data seg), seg_len := of_nat (l - (n - p))\<rparr>"
      have "unat (of_nat (l - (n - p)) :: u32) = l - (n - p)" using l(2) assms(1) by (simp add: unat_of_nat_u32)
      moreover have "take (l - (n - p)) (drop (n - p) (seg_data seg)) = take (l - (n - p)) (drop n st)"
        using arg_cong [OF l(4), of "drop (n - p)"] True by (simp add: drop_take)
      ultimately have "carries st n ?g" using l True c by (simp add: carries_def)
      moreover have "segment_trim_front (of_nat n) seg = ?g"
        using sm True less c a l(1) seq by (simp add: segment_trim_front_def Let_def of_nat_diff)
      ultimately show ?thesis by auto
    next
      case False
      then show ?thesis using sm True less a l seq
        by (intro exI [of _ p]) (simp add: segment_trim_front_def Let_def carries_def)
    qed
  qed
qed

lemma carries_take:
  assumes "carries st p seg" and "l' \<le> unat (seg_len seg)"
  shows "carries st p (seg\<lparr>seg_len := of_nat l'\<rparr>)"
proof -
  have "unat (of_nat l' :: u32) = l'" using assms(2) unat_u32_less [of "seg_len seg"] by (intro unat_of_nat_u32) simp
  moreover have "take l' (seg_data seg) = take l' (drop p st)"
  proof -
    have "take l' (take (unat (seg_len seg)) (seg_data seg)) = take l' (take (unat (seg_len seg)) (drop p st))"
      using assms(1) by (simp only: carries_def)
    then show ?thesis using assms(2) by (simp add: min_absorb1)
  qed
  ultimately show ?thesis using assms by (simp add: carries_def)
qed

lemma trim_back_carries:
  fixes room :: nat
  assumes "length st < 0x7FFFFFFF" and "carries st p seg" and "seg_len seg = 0 \<or> n \<le> p"
  defines "g \<equiv> segment_trim_back (of_nat n) room seg"
  shows "carries st p g \<and> (seg_len g = 0 \<or> n \<le> p \<and> p - n + unat (seg_len g) \<le> room) \<and> seg_flags g = seg_flags seg"
proof (cases "seg_len seg = 0")
  case True
  then show ?thesis using assms(2) by (simp add: g_def segment_trim_back_def Let_def carries_def)
next
  case False
  define l where "l = unat (seg_len seg)"
  have l: "seg_len seg = of_nat l" "p + l \<le> length st" "seg_seq seg = of_nat p"
    using assms(2) by (simp_all add: carries_def l_def)
  have np: "n \<le> p" using assms(3) False by simp
  have "seg_seq seg + seg_len seg - of_nat n = of_nat (p + l) - of_nat n" using l by simp
  then have u: "unat (seg_seq seg + seg_len seg - of_nat n) = p + l - n"
    using unat_diff_pos [of n "p + l"] np l(2) assms(1) by simp
  show ?thesis
  proof (cases "room < p + l - n")
    case False
    then show ?thesis using assms(2) u np by (simp add: g_def segment_trim_back_def l_def [symmetric])
  next
    case True
    define a where "a = p + l - n - room"
    have ua: "unat (of_nat a :: u32) = a" using l(2) assms(1) by (intro unat_of_nat_u32) (simp add: a_def)
    have g: "g = (if of_nat a < seg_len seg then seg\<lparr>seg_len := seg_len seg - of_nat a\<rparr> else seg\<lparr>seg_len := 0\<rparr>)"
      unfolding g_def segment_trim_back_def Let_def u a_def [symmetric] using True by simp
    have less: "of_nat a < seg_len seg \<longleftrightarrow> a < l" using ua by (simp add: word_less_nat_alt l_def)
    show ?thesis
    proof (cases "a < l")
      case True
      then have "g = seg\<lparr>seg_len := of_nat (l - a)\<rparr>"
        using g less l(1) by (simp add: of_nat_diff)
      moreover have "unat (of_nat (l - a) :: u32) = l - a" using l(2) assms(1) by (simp add: unat_of_nat_u32)
      ultimately show ?thesis
        using carries_take [OF assms(2), of "l - a"] np \<open>room < _\<close> True by (simp add: l_def [symmetric]) (simp add: a_def)
    next
      case False
      then show ?thesis
        using assms(2) g less by (simp add: carries_def)
    qed
  qed
qed

text \<open>
  The state of the receiver: \<open>k\<close> is the position at which its data begins, and \<open>got\<close> is what the
  application has read so far.
\<close>

definition receiving :: "bytes \<Rightarrow> nat \<Rightarrow> bytes \<Rightarrow> PseudoTcpSocketPrivate \<Rightarrow> bool" where
  "receiving st k got s \<longleftrightarrow> support_fin_ack s \<and> rcv_fin s = 0 \<and> wf_fifo (rbuf s) \<and>
     (\<exists>n. rcv_nxt s = of_nat n \<and> k \<le> n \<and> n \<le> length st \<and> got @ fifo_data (rbuf s) = drop k (take n st) \<and>
       (\<forall>r \<in> set (rlist s). saved_in_place st n (rbuf s) r)) \<and> in_order (rlist s)"

lemma receiving_kept: "receiver_kept s s' \<Longrightarrow> receiving st k got s \<Longrightarrow> receiving st k got s'"
  by (simp add: receiver_kept_def receiving_def rx_def)

lemma take_join:
  assumes "k \<le> n" and "n \<le> m" and "n \<le> length st"
  shows "drop k (take n st) @ take (m - n) (drop n st) = drop k (take m st)"
proof -
  have "take m st = take n st @ take (m - n) (drop n st)" using assms(2) take_add [of n "m - n" st] by simp
  then show ?thesis using assms(1,3) by simp
qed

text \<open>Where the segment in sequence closes the gap, the saved segments behind it follow.\<close>

lemma commit_receiving:
  assumes "length st < 0x7FFFFFFF" and "wf_fifo b" and "k \<le> n"
    and "got @ fifo_data b = drop k (take n st)"
    and saved: "\<forall>r \<in> set rs. saved_in_place st n b r" and ord: "in_order rs"
    and placed: "in_place (fifo_ahead b) (buffer_length b - length (fifo_data b)) st n n l"
  shows "\<exists>b1 rs' b' m w' f'. pseudo_tcp_fifo_consume_write_buffer b l = Some b1 \<and>
    recover_segments rs b1 (of_nat n + of_nat l) w f = Some (rs', b', of_nat m, w', f') \<and>
    wf_fifo b' \<and> n + l \<le> m \<and> m \<le> length st \<and> got @ fifo_data b' = drop k (take m st) \<and>
    (\<forall>r \<in> set rs'. saved_in_place st m b' r) \<and> in_order rs' \<and> first_missing rs (n + l) m"
proof -
  have e: "n + l \<le> length st" using placed by (simp add: in_place_def)
  obtain b1 where b1: "pseudo_tcp_fifo_consume_write_buffer b l = Some b1" "wf_fifo b1"
    "fifo_data b1 = fifo_data b @ take l (drop n st)"
    and keep: "\<And>p' l'. in_place (fifo_ahead b) (buffer_length b - length (fifo_data b)) st n p' l' \<Longrightarrow>
      in_place (fifo_ahead b1) (buffer_length b1 - length (fifo_data b1)) st (n + l) p' l'"
    using window.commit_placed [OF assms(2) placed] by auto
  have "\<forall>r \<in> set rs. saved_in_place st (n + l) b1 r"
    using saved keep unfolding saved_in_place_def by metis
  then obtain rs' b' m w' f' where m: "recover_segments rs b1 (of_nat n + of_nat l) w f = Some (rs', b', of_nat m, w', f')"
    "n + l \<le> m" "m \<le> length st" "wf_fifo b'"
    "fifo_data b' = fifo_data b1 @ take (m - (n + l)) (drop (n + l) st)" "\<forall>r \<in> set rs'. saved_in_place st m b' r"
    "in_order rs'" "first_missing rs (n + l) m"
    using recover_segments_spec [OF assms(1) e b1(2) _ ord, of w f] by auto
  have "got @ fifo_data b1 = drop k (take (n + l) st)"
    using take_join [of k n "n + l" st] assms(3,4) b1(3) e by (simp flip: append_assoc)
  then have "got @ fifo_data b' = drop k (take m st)"
    using take_join [of k "n + l" m st] assms(3) m(2,5) e by (simp flip: append_assoc)
  then show ?thesis using m b1(1) by auto
qed

lemma store_data_receiving:
  assumes "length st < 0x7FFFFFFF" and "receiving st k got s" and "carries st p seg"
    and "rcv_nxt s = of_nat n" and "n \<le> p" and "n \<le> length st"
    and room: "p - n + unat (seg_len seg) \<le> buffer_length (rbuf s) - data_length (rbuf s)"
  shows "\<exists>f' new s'. store_data s seg f = Some (f', new, s') \<and> receiving st k got s' \<and>
    (p = n \<longrightarrow> (\<exists>m. rcv_nxt s' = of_nat m \<and> first_missing (rlist s) (n + unat (seg_len seg)) m \<and> m \<le> length st)) \<and>
    (p \<noteq> n \<longrightarrow> rlist s' = insert_rsegment \<lparr>rs_seq = seg_seq seg, rs_len = seg_len seg\<rparr> (rlist s) \<and>
       rcv_nxt s' = rcv_nxt s \<and> pseudo_tcp_fifo_get_write_remaining (rbuf s') = pseudo_tcp_fifo_get_write_remaining (rbuf s))"
proof -
  define l where "l = unat (seg_len seg)"
  have l: "seg_len seg = of_nat l" "p + l \<le> length st" "l \<le> length (seg_data seg)"
    "take l (seg_data seg) = take l (drop p st)" "seg_seq seg = of_nat p"
    using assms(3) by (simp_all add: carries_def l_def)
  have small: "n < 0x7FFFFFFF" "p < 0x7FFFFFFF" using assms(1,6) l(2) by auto
  have r: "support_fin_ack s" "rcv_fin s = 0" "wf_fifo (rbuf s)" "k \<le> n"
    "got @ fifo_data (rbuf s) = drop k (take n st)" "\<forall>r \<in> set (rlist s). saved_in_place st n (rbuf s) r"
    "in_order (rlist s)"
    using assms(1,2,4,6) of_nat_eq_pos by (auto simp: receiving_def)
  have off: "unat (seg_seq seg - rcv_nxt s) = p - n" using unat_diff_pos [OF assms(5)] small l(5) assms(4) by simp
  obtain b where b: "pseudo_tcp_fifo_write_offset (rbuf s) (seg_data seg) l (p - n) = Some (l, b)" "wf_fifo b"
    "fifo_data b = fifo_data (rbuf s)" "buffer_length b = buffer_length (rbuf s)"
    and placed: "in_place (fifo_ahead b) (buffer_length b - length (fifo_data b)) st n p l"
    and keep: "\<And>p' l'. in_place (fifo_ahead (rbuf s)) (buffer_length (rbuf s) - length (fifo_data (rbuf s))) st n p' l' \<Longrightarrow>
      in_place (fifo_ahead b) (buffer_length b - length (fifo_data b)) st n p' l'"
    using window.store_placed [OF r(3) l(3,4,2) assms(5)] room r(3) by (auto simp: l_def)
  have saved: "\<forall>r \<in> set (rlist s). saved_in_place st n b r"
    using r(6) keep unfolding saved_in_place_def by metis
  have eq: "seg_seq seg = rcv_nxt s \<longleftrightarrow> p = n" using small l(5) assms(4) by (simp add: of_nat_eq_pos)
  show ?thesis
  proof (cases "p = n")
    case True
    obtain b1 rs b2 m w g where c: "pseudo_tcp_fifo_consume_write_buffer b l = Some b1"
      "recover_segments (rlist s) b1 (rcv_nxt s + seg_len seg) (rcv_wnd s - seg_len seg) False = Some (rs, b2, of_nat m, w, g)"
      and m: "wf_fifo b2" "n + l \<le> m" "m \<le> length st" "got @ fifo_data b2 = drop k (take m st)"
      "\<forall>r \<in> set rs. saved_in_place st m b2 r" "in_order rs" "first_missing (rlist s) (n + l) m"
      using commit_receiving [OF assms(1) b(2) r(4) r(5) [folded b(3)] saved r(7) placed [unfolded True],
          where w = "rcv_wnd s - seg_len seg" and f = False]
      unfolding assms(4) l(1) by auto
    have "store_data s seg f = Some (if g then sfImmediateAck else f, True,
        s\<lparr>rlist := rs, rbuf := b2, rcv_nxt := of_nat m, rcv_wnd := w\<rparr>)"
      using b(1) off eq c True by (simp add: store_data_def l_def [symmetric])
    moreover have "receiving st k got (s\<lparr>rlist := rs, rbuf := b2, rcv_nxt := of_nat m, rcv_wnd := w\<rparr>)"
      using r(1,2,4) m by (auto simp: receiving_def intro!: exI [of _ m])
    ultimately show ?thesis using m(3,7) True by (auto simp: l_def [symmetric])
  next
    case False
    have "unat (rs_seq r) < 0x7FFFFFFF" if "r \<in> set (rlist s)" for r
      using r(6) that assms(1) by (auto simp: saved_in_place_def in_place_def unat_of_nat_u32)
    then have "in_order (insert_rsegment \<lparr>rs_seq = seg_seq seg, rs_len = seg_len seg\<rparr> (rlist s))"
      using in_order_insert [OF r(7)] l(5) small(2) by (simp add: unat_of_nat_u32)
    moreover have "store_data s seg f = Some (f, False,
        s\<lparr>rbuf := b, rlist := insert_rsegment \<lparr>rs_seq = seg_seq seg, rs_len = seg_len seg\<rparr> (rlist s)\<rparr>)"
      using b(1) off eq False by (simp add: store_data_def l_def [symmetric])
    moreover have "saved_in_place st n b \<lparr>rs_seq = seg_seq seg, rs_len = seg_len seg\<rparr>"
      using placed l(5) by (auto simp: saved_in_place_def l_def)
    moreover have "data_length b = data_length (rbuf s)" using b(2,3) r(3) length_fifo_data [of b] length_fifo_data [of "rbuf s"] by simp
    ultimately show ?thesis using r b saved assms(4,6) False
      by (auto simp: receiving_def pseudo_tcp_fifo_get_write_remaining_def)
  qed
qed

text \<open>
  The data stage never faults on a segment of the stream, and one that is next in sequence and
  fits is taken as a whole.
\<close>

lemma process_data_receiving:
  assumes "length st < 0x7FFFFFFF" and "receiving st k got s" and "carries st p seg" and "seg_flags seg AND FLAG_CTL = 0"
  shows "\<exists>f' new s'. process_data s seg f = Some (f', new, s') \<and> receiving st k got s'"
proof -
  obtain n where n: "rcv_nxt s = of_nat n" "n \<le> length st" using assms(2) by (auto simp: receiving_def)
  define g where "g = segment_trim_front (rcv_nxt s) seg"
  define h where "h = segment_trim_back (rcv_nxt s) (pseudo_tcp_fifo_get_write_remaining (rbuf s)) g"
  obtain q where g: "carries st q g" "seg_len g = 0 \<or> n \<le> q" "seg_flags g = seg_flags seg"
    using trim_front_carries [OF assms(1) n(2) assms(3)] unfolding g_def n(1) by blast
  have h: "carries st q h" "seg_len h = 0 \<or> n \<le> q \<and> q - n + unat (seg_len h) \<le> buffer_length (rbuf s) - data_length (rbuf s)"
    "seg_flags h = seg_flags seg"
    using trim_back_carries [OF assms(1) g(1,2)] g(3) unfolding h_def n(1) pseudo_tcp_fifo_get_write_remaining_def by auto
  have p: "process_data s seg f = (if seg_len h > 0 then store_data s h f else Some (f, False, s))"
    using assms(2,4) h(3) by (simp add: process_data_def Let_def g_def [symmetric] h_def [symmetric] receiving_def)
  show ?thesis
  proof (cases "seg_len h > 0")
    case True
    then show ?thesis using store_data_receiving [OF assms(1,2) h(1) n(1) _ n(2), of f] h(2) p by fastforce
  qed (use p assms(2) in auto)
qed

lemma process_data_fits:
  assumes "length st < 0x7FFFFFFF" and "receiving st k got s" and "carries st p seg" and "seg_flags seg AND FLAG_CTL = 0"
    and "rcv_nxt s = of_nat n" and "n \<le> p" and "seg_len seg > 0"
    and "p - n + unat (seg_len seg) \<le> pseudo_tcp_fifo_get_write_remaining (rbuf s)"
  shows "process_data s seg f = store_data s seg f"
proof -
  define l where "l = unat (seg_len seg)"
  have seg: "p + l \<le> length st" "seg_seq seg = of_nat p" "seg_len seg = of_nat l" using assms(3) by (simp_all add: carries_def l_def)
  have "segment_trim_front (rcv_nxt s) seg = seg"
    using seg assms(1,5,6) by (simp add: segment_trim_front_def pos_simps)
  moreover have "unat (seg_seq seg + seg_len seg - rcv_nxt s) = p + l - n"
    using unat_diff_pos [of n "p + l"] seg assms(1,5,6) by simp
  then have "segment_trim_back (rcv_nxt s) (pseudo_tcp_fifo_get_write_remaining (rbuf s)) seg = seg"
    using assms(6,8) by (simp add: segment_trim_back_def l_def)
  ultimately show ?thesis using assms(2,4,7) by (simp add: process_data_def receiving_def)
qed

text \<open>What a segment that fits does: it moves the expected position or is saved.\<close>

definition segment_taken :: "bytes \<Rightarrow> nat \<Rightarrow> nat \<Rightarrow> Segment \<Rightarrow> PseudoTcpSocketPrivate \<Rightarrow> PseudoTcpSocketPrivate \<Rightarrow> bool" where
  "segment_taken st n p seg s s' \<longleftrightarrow>
     (p = n \<longrightarrow> (\<exists>m. rcv_nxt s' = of_nat m \<and> first_missing (rlist s) (n + unat (seg_len seg)) m \<and> m \<le> length st)) \<and>
     (p \<noteq> n \<longrightarrow> rlist s' = insert_rsegment \<lparr>rs_seq = seg_seq seg, rs_len = seg_len seg\<rparr> (rlist s) \<and>
       rcv_nxt s' = rcv_nxt s \<and> pseudo_tcp_fifo_get_write_remaining (rbuf s') = pseudo_tcp_fifo_get_write_remaining (rbuf s))"

lemma process_data_taken:
  assumes "length st < 0x7FFFFFFF" and "receiving st k got s" and "carries st p seg" and "seg_flags seg AND FLAG_CTL = 0"
    and "rcv_nxt s = of_nat n" and "n \<le> p" and "seg_len seg > 0"
    and "p - n + unat (seg_len seg) \<le> pseudo_tcp_fifo_get_write_remaining (rbuf s)"
    and "process_data s seg f = Some (f', new, s')"
  shows "segment_taken st n p seg s s'"
proof -
  have "n \<le> length st" using assms(3,6) by (simp add: carries_def)
  moreover have "p - n + unat (seg_len seg) \<le> buffer_length (rbuf s) - data_length (rbuf s)"
    using assms(8) by (simp add: pseudo_tcp_fifo_get_write_remaining_def)
  ultimately show ?thesis
    using store_data_receiving [OF assms(1,2,3,5,6), of f] assms(9) process_data_fits [OF assms(1-8), of f]
    by (auto simp: segment_taken_def)
qed

lemma fin_transition_kept: "fin_transition s fa rf = Some s' \<Longrightarrow> receiver_kept s s'"
  by (auto simp: fin_transition_def split: PseudoTcpState.splits if_splits
      intro: set_state_kept set_state_closed_kept receiver_keptI)

lemma no_fin_received:
  assumes "length st < 0x7FFFFFFF" and "receiving st k got s" and "carries st p seg"
  shows "\<not> (rcv_nxt s \<noteq> 0 \<and> rcv_nxt s + seg_len seg = rcv_fin s)"
proof -
  obtain n where n: "rcv_nxt s = of_nat n" "n \<le> length st" and r: "rcv_fin s = 0"
    using assms(2) by (auto simp: receiving_def)
  define l where "l = unat (seg_len seg)"
  have l: "seg_len seg = of_nat l" "l \<le> length st" using assms(3) by (simp_all add: carries_def l_def)
  have "unat (rcv_nxt s + seg_len seg) = n + l"
    using n l assms(1) unat_of_nat_u32 [of "n + l"] by simp
  then show ?thesis using n(1) r by auto
qed

lemma process_fin_receiving:
  assumes "length st < 0x7FFFFFFF" and "receiving st k got s" and "carries st p seg"
    and "seg_flags seg AND FLAG_FIN = 0" and "process_fin s seg fa = Some (ok, rf, s')"
  shows "ok \<and> \<not> rf \<and> receiver_kept s s'"
  using assms(2,4,5) no_fin_received [OF assms(1-3)]
  by (auto simp: receiving_def process_fin_def bind_eq_Some_conv Let_def dest!: fin_transition_kept)

lemma process_writable_kept: "receiver_kept s (process_writable s)"
  by (simp add: process_writable_def Let_def receiver_kept_def notify_def)

lemma notify_kept: "receiver_kept s (notify s c)"
  by (rule receiver_keptI) simp_all

lemma process_receive_receiving:
  assumes "length st < 0x7FFFFFFF" and "receiving st k got s" and "carries st p seg"
    and "seg_flags seg AND FLAG_FIN = 0" and "seg_flags seg AND FLAG_CTL = 0"
    and "process_receive env s seg fa = Some (ok, s')"
  shows "receiving st k got s'"
proof -
  obtain o1 rf t where t: "process_fin s seg fa = Some (o1, rf, t)" using assms(6) by (auto simp: process_receive_def bind_eq_Some_conv)
  have f: "o1" "\<not> rf" "receiver_kept s t" using process_fin_receiving [OF assms(1-4) t] by auto
  obtain f' new u v where u: "process_data (process_writable t) seg (ack_flags (process_writable t) seg rf) = Some (f', new, u)"
    and v: "attempt_send env u f' = Some v" and s': "s' = (if new \<and> bReadEnable v then notify v PseudoTcpReadable else v)"
    using assms(6) t f(1,2) by (auto simp: process_receive_def bind_eq_Some_conv Let_def)
  have "receiving st k got (process_writable t)"
    using assms(2) f(3) process_writable_kept receiving_kept by blast
  then have "receiving st k got u" 
    using process_data_receiving [OF assms(1) _ assms(3,5), of k got _ "ack_flags (process_writable t) seg rf"] u by force
  then have "receiving st k got v" using attempt_send_kept [OF v] receiving_kept by blast
  then show ?thesis using s' receiving_kept [OF notify_kept] by simp
qed

lemma set_state_established_kept: "set_state_established s = Some s' \<Longrightarrow> receiver_kept s s'"
  by (auto simp: set_state_established_def bind_eq_Some_conv intro!: receiver_keptI dest!: set_state_frame)

lemma process_body_receiving:
  assumes "length st < 0x7FFFFFFF" and "receiving st k got s" and "carries st p seg"
    and "seg_flags seg AND FLAG_FIN = 0" and "seg_flags seg AND FLAG_CTL = 0"
    and "process_body env s seg now = Some (ok, s')"
  shows "receiving st k got s'"
proof -
  obtain o1 fa t where t: "process_ack env (update_timestamp s seg) seg now = Some (o1, fa, t)"
    using assms(5,6) by (auto simp: process_body_def process_control_def bind_eq_Some_conv)
  have "receiver_kept s t"
    using process_ack_frame [OF t] by (simp add: receiver_kept_def update_timestamp_def split: if_splits)
  then have rt: "receiving st k got t" using assms(2) receiving_kept by blast
  show ?thesis
  proof (cases o1)
    case False
    then have "s' = t" using assms(5,6) t by (simp add: process_body_def process_control_def)
    then show ?thesis using rt by simp
  next
    case True
    then obtain u where u: "(if state t = PSEUDO_TCP_SYN_RECEIVED then set_state_established t else Some t) = Some u"
      and v: "process_receive env u seg fa = Some (ok, s')"
      using assms(5,6) t by (auto simp: process_body_def process_control_def bind_eq_Some_conv)
    have "receiving st k got u" 
      using u rt by (auto split: if_splits intro: receiving_kept [OF set_state_established_kept])
    then show ?thesis using process_receive_receiving [OF assms(1) _ assms(3-5) v] by blast
  qed
qed

lemma process_receiving:
  assumes "length st < 0x7FFFFFFF" and "receiving st k got s" and "carries st p seg"
    and "seg_flags seg AND FLAG_FIN = 0" and "seg_flags seg AND FLAG_CTL = 0"
    and "process env s seg = Some (ok, s')"
  shows "receiving st k got s'"
proof (cases "seg_conv seg = conv s")
  case False
  then show ?thesis using assms(2,6) by (simp add: process_def)
next
  case True
  obtain now t0 where t0: "get_current_time env s = (now, t0)" by (cases "get_current_time env s")
  define t where "t = t0\<lparr>last_traffic := now, lastrecv := now, bOutgoing := False\<rparr>"
  have "receiver_kept s t" using get_current_time_keeps [of env s] by (simp add: receiver_kept_def t0 t_def)
  then have rt: "receiving st k got t" using assms(2) receiving_kept by blast
  note r = assms(6) [unfolded process_def Let_def t0 prod.case, folded t_def]
  consider (dead) "state t = PSEUDO_TCP_CLOSED \<or> pseudo_tcp_state_has_received_fin_ack (state t) \<and> seg_len seg > 0"
    | (reset) "\<not> (state t = PSEUDO_TCP_CLOSED \<or> pseudo_tcp_state_has_received_fin_ack (state t) \<and> seg_len seg > 0)"
        "seg_flags seg AND FLAG_RST \<noteq> 0"
    | (body) "\<not> (state t = PSEUDO_TCP_CLOSED \<or> pseudo_tcp_state_has_received_fin_ack (state t) \<and> seg_len seg > 0)"
        "seg_flags seg AND FLAG_RST = 0" by blast
  then show ?thesis
  proof cases
    case dead
    then have "receiver_kept t s'"
      using r True by (auto simp: bind_eq_Some_conv receiver_kept_def split: if_splits dest!: closedown_frame)
    then show ?thesis using rt receiving_kept by blast
  next
    case reset
    then have "receiver_kept t s'"
      using r True by (auto simp: bind_eq_Some_conv receiver_kept_def dest!: closedown_frame)
    then show ?thesis using rt receiving_kept by blast
  next
    case body
    then have "process_body env t seg now = Some (ok, s')"
      using r True unfolding if_not_P [OF body(1)] by simp
    then show ?thesis using process_body_receiving [OF assms(1) rt assms(3-5)] by blast
  qed
qed

text \<open>The end of a read, where the window is opened again.\<close>

definition recv_window :: "PseudoTcpEnv \<Rightarrow> PseudoTcpSocketPrivate \<Rightarrow> PseudoTcpSocketPrivate option" where
  "recv_window env s =
     (let available_space = pseudo_tcp_fifo_get_write_remaining (rbuf s) in
      if (of_nat available_space :: u64) - ucast (rcv_wnd s) \<ge> ucast (min (rbuf_len s div 2) (mss s))
      then if rcv_wnd s = 0 then attempt_send env (s\<lparr>rcv_wnd := of_nat available_space\<rparr>) sfImmediateAck
           else Some (s\<lparr>rcv_wnd := of_nat available_space\<rparr>)
      else Some s)"

lemma recv_window_receiving:
  assumes "receiving st k got s" and "recv_window env s = Some s'"
  shows "receiving st k got s'"
proof -
  have "receiving st k got (s\<lparr>rcv_wnd := w\<rparr>)" for w using assms(1) by (simp add: receiving_def)
  then show ?thesis
    using assms unfolding recv_window_def Let_def by (auto split: if_splits intro: receiving_kept [OF attempt_send_kept])
qed

text \<open>A read hands out the front of the buffered data.\<close>

lemma recv_receiving:
  assumes "receiving st k got s" and "pseudo_tcp_socket_recv env s len = Some (r, d, s')"
  shows "receiving st k (got @ d) s'"
proof (cases "shutdown_reads s \<or> len = 0")
  case True
  have "support_fin_ack s" using assms(1) by (simp add: receiving_def)
  then have "d = [] \<and> s' = s" using assms(2) True by (cases "shutdown_reads s") (simp_all add: pseudo_tcp_socket_recv_def)
  then show ?thesis using assms(1) by simp
next
  case False
  have r: "support_fin_ack s" "wf_fifo (rbuf s)" using assms(1) by (simp_all add: receiving_def)
  obtain b where b: "pseudo_tcp_fifo_read (rbuf s) len = Some (take len (fifo_data (rbuf s)), b)" "wf_fifo b"
    "fifo_data b = drop len (fifo_data (rbuf s))"
    using fifo.pop [OF r(2), of len] by auto
  define e where "e = take len (fifo_data (rbuf s))"
  have "saved_in_place st n b g" if "saved_in_place st n (rbuf s) g" for n g
    using that window.pop_placed [OF r(2) b(1)] unfolding saved_in_place_def by blast
  then have t: "receiving st k (got @ e) (s\<lparr>rbuf := b\<rparr>)"
    using assms(1) b(2,3) by (auto simp: receiving_def e_def)
  let ?t = "s\<lparr>rbuf := b\<rparr>"
  have body: "(if length e = 0 \<and> \<not> (pseudo_tcp_state_has_received_fin (state ?t) \<or> pseudo_tcp_state_has_received_fin_ack (state ?t))
      then Some (-1, [], ?t\<lparr>bReadEnable := True, error := EWOULDBLOCK\<rparr>)
      else do { u \<leftarrow> recv_window env ?t; Some (int (length e), e, u) }) = Some (r, d, s')"
    using assms(2) False r(1)
    unfolding pseudo_tcp_socket_recv_def recv_window_def Let_def b(1) [folded e_def] Option.bind.bind_lunit prod.case
    by (simp only: de_Morgan_disj simp_thms if_True if_False)
  show ?thesis
  proof (cases "length e = 0 \<and> \<not> (pseudo_tcp_state_has_received_fin (state ?t) \<or> pseudo_tcp_state_has_received_fin_ack (state ?t))")
    case True
    then have "d = e" "s' = ?t\<lparr>bReadEnable := True, error := EWOULDBLOCK\<rparr>"
      using body unfolding if_P [OF True] by simp_all
    then show ?thesis using t by (simp add: receiving_def)
  next
    case False
    then have "d = e" and u: "recv_window env ?t = Some s'"
      using body unfolding if_not_P [OF False] by (auto simp: bind_eq_Some_conv)
    then show ?thesis using recv_window_receiving [OF t u] by simp
  qed
qed

section \<open>Runs of a receiver\<close>

text \<open>A packet of the stream: it has the header and a part of the stream, neither a FIN nor control data.\<close>

definition data_packet :: "bytes \<Rightarrow> bytes \<Rightarrow> bool" where
  "data_packet st buf \<longleftrightarrow> (\<exists>p seg. parse_segment buf (drop HEADER_SIZE buf) (length buf - HEADER_SIZE) = Some seg \<and>
     carries st p seg \<and> seg_flags seg AND FLAG_FIN = 0 \<and> seg_flags seg AND FLAG_CTL = 0)"

text \<open>
  What happens to a socket whose peer sends the stream: packets of the stream arrive, in any
  order, with losses and repetitions, and the application reads, sends, closes and calls the clock.
  The bytes are those that the reads returned.
\<close>

inductive receive_run :: "PseudoTcpEnv \<Rightarrow> bytes \<Rightarrow> PseudoTcpSocketPrivate \<Rightarrow> bytes \<Rightarrow> PseudoTcpSocketPrivate \<Rightarrow> bool"
  for env st s where
  start: "receive_run env st s [] s"
| arrives: "receive_run env st s got t \<Longrightarrow> data_packet st buf \<Longrightarrow>
    pseudo_tcp_socket_notify_packet env t buf (length buf) = Some (r, t') \<Longrightarrow> receive_run env st s got t'"
| reads: "receive_run env st s got t \<Longrightarrow> pseudo_tcp_socket_recv env t len = Some (r, d, t') \<Longrightarrow>
    receive_run env st s (got @ d) t'"
| sends: "receive_run env st s got t \<Longrightarrow> pseudo_tcp_socket_send env t buf l = Some (r, t') \<Longrightarrow> receive_run env st s got t'"
| clock: "receive_run env st s got t \<Longrightarrow> pseudo_tcp_socket_notify_clock env t = Some t' \<Longrightarrow> receive_run env st s got t'"
| next_clock: "receive_run env st s got t \<Longrightarrow> pseudo_tcp_socket_get_next_clock env t timeout = Some (ok, timeout', t') \<Longrightarrow>
    receive_run env st s got t'"
| mtu: "receive_run env st s got t \<Longrightarrow> receive_run env st s got (pseudo_tcp_socket_notify_mtu t m)"
| shuts: "receive_run env st s got t \<Longrightarrow> pseudo_tcp_socket_shutdown env t how = Some t' \<Longrightarrow> receive_run env st s got t'"
| closes: "receive_run env st s got t \<Longrightarrow> pseudo_tcp_socket_close env t force = Some t' \<Longrightarrow> receive_run env st s got t'"

lemma notify_packet_receiving:
  assumes "length st < 0x7FFFFFFF" and "receiving st k got s" and "data_packet st buf"
    and "pseudo_tcp_socket_notify_packet env s buf (length buf) = Some (r, s')"
  shows "receiving st k got s'"
proof -
  consider "s' = s\<lparr>error := EMSGSIZE\<rparr>" | "s' = s\<lparr>error := EINVAL\<rparr>"
    | "parse env s buf HEADER_SIZE (drop HEADER_SIZE buf) (length buf - HEADER_SIZE) = Some (r, s')"
    using assms(4) by (auto simp: pseudo_tcp_socket_notify_packet_def split: if_splits)
  then show ?thesis
  proof cases
    case 3
    obtain p seg where seg: "parse_segment buf (drop HEADER_SIZE buf) (length buf - HEADER_SIZE) = Some seg"
      "carries st p seg" "seg_flags seg AND FLAG_FIN = 0" "seg_flags seg AND FLAG_CTL = 0"
      using assms(3) by (auto simp: data_packet_def)
    then have "process env s seg = Some (r, s')" using 3 by (simp add: parse_def HEADER_SIZE_def)
    then show ?thesis using process_receiving [OF assms(1,2) seg(2-4)] by blast
  qed (use assms(2) in \<open>auto simp: receiving_def\<close>)
qed

lemma shutdown_reads_receiving: "receiving st k got s \<Longrightarrow> receiving st k got (s\<lparr>shutdown_reads := True\<rparr>)"
  by (simp add: receiving_def)

lemma receive_run_receiving:
  assumes "receive_run env st s got t" and "length st < 0x7FFFFFFF" and "receiving st k [] s"
  shows "receiving st k got t"
  using assms(1)
proof induction
  case (arrives got t buf r t')
  then show ?case using notify_packet_receiving [OF assms(2)] by blast
next
  case (shuts got t how t')
  then show ?case using shutdown_kept receiving_kept shutdown_reads_receiving by metis
next
  case (closes got t force t')
  then show ?case using close_kept receiving_kept shutdown_reads_receiving by metis
qed (use assms(3) in \<open>auto intro: recv_receiving receiving_kept [OF notify_mtu_kept] receiving_kept
    dest: send_kept notify_clock_kept get_next_clock_kept\<close>)

text \<open>A socket that is about to receive the stream from position \<open>k\<close> on.\<close>

definition receive_ready :: "bytes \<Rightarrow> nat \<Rightarrow> PseudoTcpSocketPrivate \<Rightarrow> bool" where
  "receive_ready st k s \<longleftrightarrow> support_fin_ack s \<and> rcv_fin s = 0 \<and> wf_fifo (rbuf s) \<and> data_length (rbuf s) = 0 \<and> rlist s = [] \<and>
     rcv_nxt s = of_nat k \<and> k \<le> length st"

lemma receive_ready_receiving: "receive_ready st k s \<Longrightarrow> receiving st k [] s"
  by (auto simp: receive_ready_def receiving_def fifo_data_def)

section \<open>Progress\<close>

text \<open>An established socket that has nothing to send, and what a segment with data leaves of it.\<close>

definition idle :: "PseudoTcpSocketPrivate \<Rightarrow> bool" where
  "idle s \<longleftrightarrow> state s = PSEUDO_TCP_ESTABLISHED \<and> unsent_slist s = [] \<and> unat (rwnd_scale s) < 32"

definition acceptable :: "PseudoTcpSocketPrivate \<Rightarrow> Segment \<Rightarrow> bool" where
  "acceptable s seg \<longleftrightarrow> seg_conv seg = conv s \<and> seg_flags seg = FLAG_NONE \<and> seg_ack seg = snd_una s \<and>
     scaled_window (seg_wnd seg) (swnd_scale s) \<noteq> None \<and> 0 < seg_len seg"

definition sender_kept :: "PseudoTcpSocketPrivate \<Rightarrow> PseudoTcpSocketPrivate \<Rightarrow> bool" where
  "sender_kept s s' \<longleftrightarrow> tx s' = tx s \<and> kx s' = kx s \<and> state s' = state s \<and> swnd_scale s' = swnd_scale s \<and> rwnd_scale s' = rwnd_scale s"

lemma ack_kept_sender: "ack_kept s s' \<Longrightarrow> sender_kept s s'"
  by (simp add: ack_kept_def sender_kept_def rx_def)

lemma ack_kept_receiver: "ack_kept s s' \<Longrightarrow> receiver_kept s s'"
  by (auto simp: ack_kept_def intro: receiver_keptI)

lemma sender_kept_trans: "sender_kept s t \<Longrightarrow> sender_kept t u \<Longrightarrow> sender_kept s u"
  by (simp add: sender_kept_def)

lemma sender_kept_idle: "sender_kept s s' \<Longrightarrow> idle s \<Longrightarrow> idle s'"
  by (simp add: sender_kept_def idle_def tx_def)

lemma sender_kept_acceptable: "sender_kept s s' \<Longrightarrow> acceptable s' seg \<longleftrightarrow> acceptable s seg"
  by (simp add: sender_kept_def acceptable_def tx_def kx_def)

lemma process_data_sender_kept: "process_data s seg f = Some (f', new, s') \<Longrightarrow> sender_kept s s'"
  by (auto simp: process_data_def store_data_def sender_kept_def tx_def kx_def Let_def bind_eq_Some_conv split: if_splits)

lemma process_fin_idle:
  assumes "length st < 0x7FFFFFFF" and "receiving st k got s" and "carries st p seg"
    and "seg_flags seg = FLAG_NONE" and "state s = PSEUDO_TCP_ESTABLISHED"
  shows "process_fin s seg False = Some (True, False, s)"
  using assms(2,4,5) no_fin_received [OF assms(1-3)]
  by (auto simp: receiving_def process_fin_def fin_transition_def tcp_flag_defs Let_def)

lemma process_receive_idle:
  assumes "length st < 0x7FFFFFFF" and "receiving st k got s" and "carries st p seg"
    and "seg_flags seg = FLAG_NONE" and "idle s"
    and data: "process_data (process_writable s) seg (ack_flags (process_writable s) seg False) = Some (f', new, u)"
  shows "\<exists>s'. process_receive env s seg False = Some (True, s') \<and> receiver_kept u s' \<and> sender_kept s s'"
proof -
  have k: "sender_kept s (process_writable s)"
    by (simp add: sender_kept_def process_writable_def notify_def tx_def kx_def Let_def)
  have u: "sender_kept s u" using sender_kept_trans [OF k process_data_sender_kept [OF data]] .
  then have "idle u" using assms(5) sender_kept_idle by blast
  then obtain v where v: "attempt_send env u f' = Some v" "ack_kept u v"
    using attempt_send_idle [of u env f'] by (auto simp: idle_def)
  define s' where "s' = (if new \<and> bReadEnable v then notify v PseudoTcpReadable else v)"
  have "sender_kept v s' \<and> receiver_kept v s'"
    by (simp add: s'_def sender_kept_def receiver_kept_def notify_def tx_def kx_def rx_def)
  moreover have "process_receive env s seg False = Some (True, s')"
    using process_fin_idle [OF assms(1-4)] assms(5) data v(1)
    by (simp add: process_receive_def idle_def Let_def s'_def)
  ultimately show ?thesis
    using u ack_kept_sender [OF v(2)] ack_kept_receiver [OF v(2)] sender_kept_trans receiver_kept_trans by blast
qed

lemma process_idle:
  assumes "length st < 0x7FFFFFFF" and "receiving st k got s" and "carries st p seg" and "idle s" and "acceptable s seg"
  shows "\<exists>s'. process env s seg = Some (True, s') \<and> receiving st k got s' \<and> sender_kept s s' \<and>
    (\<forall>n. rcv_nxt s = of_nat n \<and> n \<le> p \<and> p - n + unat (seg_len seg) \<le> pseudo_tcp_fifo_get_write_remaining (rbuf s) \<longrightarrow>
       segment_taken st n p seg s s')"
proof -
  obtain t where t: "process env s seg = process_receive env t seg False" "ack_kept s t"
    using process_payload [of seg s env] assms(4,5) by (auto simp: idle_def acceptable_def)
  let ?w = "process_writable t"
  have flags: "seg_flags seg = FLAG_NONE" "seg_flags seg AND FLAG_CTL = 0" "seg_len seg > 0"
    using assms(5) by (simp_all add: acceptable_def tcp_flag_defs)
  have r: "receiving st k got t" "idle t" "sender_kept s t"
    using t(2) assms(2,4) receiving_kept ack_kept_receiver ack_kept_sender sender_kept_idle by blast+
  have w: "receiving st k got ?w" using r(1) process_writable_kept receiving_kept by blast
  have rx: "rcv_nxt ?w = rcv_nxt s" "rbuf ?w = rbuf s" "rlist ?w = rlist s"
    using t(2) process_writable_kept [of t] by (simp_all add: ack_kept_def receiver_kept_def rx_def)
  obtain f' new u where u: "process_data ?w seg (ack_flags ?w seg False) = Some (f', new, u)" "receiving st k got u"
    using process_data_receiving [OF assms(1) w assms(3) flags(2)] by blast
  obtain s' where s': "process_receive env t seg False = Some (True, s')" "receiver_kept u s'" "sender_kept t s'"
    using process_receive_idle [OF assms(1) r(1) assms(3) flags(1) r(2) u(1)] by blast
  have "segment_taken st n p seg s s'"
    if "rcv_nxt s = of_nat n" "n \<le> p" "p - n + unat (seg_len seg) \<le> pseudo_tcp_fifo_get_write_remaining (rbuf s)" for n
  proof -
    have "segment_taken st n p seg ?w u"
      using process_data_taken [OF assms(1) w assms(3) flags(2) _ that(2) flags(3) _ u(1)] that rx by simp
    then show ?thesis using s'(2) rx by (simp add: segment_taken_def receiver_kept_def rx_def)
  qed
  then show ?thesis
    using t(1) s' receiving_kept [OF s'(2) u(2)] sender_kept_trans [OF r(3)] by auto
qed

section \<open>The properties\<close>

text \<open>C1. A socket with FIN-ACK support receives a stream of less than \<open>2 ^ 31 - 1\<close> bytes.  Whatever data packets
  of the stream arrive, without FIN and control data, in whatever order, however often, cut and overlapping in
  whatever way, and whatever else the application does with the socket: the bytes it has read followed
  by the bytes in the receive buffer are the stream from where the socket started up to the next
  expected position, without a gap, a repetition or a change.\<close>

theorem reassembled_in_order:
  assumes "length st < 0x7FFFFFFF" and "receive_ready st k s" and "receive_run env st s got t"
  shows "\<exists>n. rcv_nxt t = of_nat n \<and> k \<le> n \<and> n \<le> length st \<and> got @ fifo_data (rbuf t) = drop k (take n st)"
  using receive_run_receiving [OF assms(3,1) receive_ready_receiving [OF assms(2)]] by (auto simp: receiving_def)

text \<open>The second half of a stream of six bytes arrives first, the first half follows.\<close>

definition example_packet :: "u8 \<Rightarrow> bytes \<Rightarrow> bytes" where
  "example_packet seq d = [0, 0, 0, 0, 0, 0, 0, seq, 0, 0, 0, 0, 0, 0, 0, 8, 0, 0, 0, 9, 0, 0, 0, 0] @ d"

definition example_segment :: "u8 \<Rightarrow> bytes \<Rightarrow> Segment" where
  "example_segment seq d = \<lparr>seg_conv = 0, seg_seq = ucast seq, seg_ack = 0, seg_flags = 0, seg_wnd = 8, seg_data = d,
     seg_len = of_nat (length d), seg_tsval = 9, seg_tsecr = 0\<rparr>"

lemma example_packet_parsed:
  "parse_segment (example_packet seq d) (drop HEADER_SIZE (example_packet seq d)) (length (example_packet seq d) - HEADER_SIZE) =
     Some (example_segment seq d)"
  by (simp add: parse_segment_def example_packet_def example_segment_def rd_bytes_def rd8_def HEADER_SIZE_def be_dec_def)

lemma example_ready: "receive_ready st 0 (example_socket PSEUDO_TCP_ESTABLISHED [])"
  "idle (example_socket PSEUDO_TCP_ESTABLISHED [])"
  "d \<noteq> [] \<Longrightarrow> length d \<le> 8 \<Longrightarrow> acceptable (example_socket PSEUDO_TCP_ESTABLISHED []) (example_segment q d)"
  by (simp_all add: receive_ready_def idle_def acceptable_def example_segment_def example_simps tcp_flag_defs
      scaled_window_def word_less_nat_alt unat_of_nat_u32)

abbreviation "six \<equiv> [1, 2, 3, 4, 5, 6] :: bytes"

lemma example_carries: "carries six 3 (example_segment 3 [4, 5, 6])" "carries six 0 (example_segment 0 [1, 2, 3])"
  by (simp_all add: carries_def example_segment_def)

lemma example_data_packet: "carries six p (example_segment q d) \<Longrightarrow> data_packet six (example_packet q d)"
  using example_packet_parsed [of q d] by (auto simp: data_packet_def example_segment_def)

lemma example_notified:
  "length d \<le> 8 \<Longrightarrow> pseudo_tcp_socket_notify_packet env s (example_packet q d) (length (example_packet q d)) =
     process env s (example_segment q d)"
  using example_packet_parsed [of q d]
  by (simp add: pseudo_tcp_socket_notify_packet_def parse_def) (simp add: example_packet_def HEADER_SIZE_def MAX_PACKET_def)

theorem reassembled_in_order_witness:
  "let s = example_socket PSEUDO_TCP_ESTABLISHED []; p = example_packet 3 [4, 5, 6]; q = example_packet 0 [1, 2, 3]
   in \<exists>t u n. pseudo_tcp_socket_notify_packet example_env s p (length p) = Some (True, t) \<and>
     pseudo_tcp_socket_notify_packet example_env t q (length q) = Some (True, u) \<and>
     rcv_nxt u = of_nat n \<and> n \<le> 6 \<and> fifo_data (rbuf u) = take n [1, 2, 3, 4, 5, 6]"
proof -
  let ?s = "example_socket PSEUDO_TCP_ESTABLISHED []"
  have len: "length six < 0x7FFFFFFF" by simp
  note r = receive_ready_receiving [OF example_ready(1)]
  obtain t where t: "process example_env ?s (example_segment 3 [4, 5, 6]) = Some (True, t)" "receiving six 0 [] t" "sender_kept ?s t"
    using process_idle [OF len r example_carries(1) example_ready(2,3)] by auto
  have "acceptable t (example_segment 0 [1, 2, 3])"
    using sender_kept_acceptable [OF t(3)] example_ready(3) [of "[1, 2, 3]" 0] by simp
  then obtain u where u: "process example_env t (example_segment 0 [1, 2, 3]) = Some (True, u)"
    using process_idle [OF len t(2) example_carries(2) sender_kept_idle [OF t(3) example_ready(2)]] by blast
  have n: "pseudo_tcp_socket_notify_packet example_env ?s (example_packet 3 [4, 5, 6]) (length (example_packet 3 [4, 5, 6])) = Some (True, t)"
    "pseudo_tcp_socket_notify_packet example_env t (example_packet 0 [1, 2, 3]) (length (example_packet 0 [1, 2, 3])) = Some (True, u)"
    using t(1) u by (simp_all add: example_notified)
  have "receive_run example_env six ?s [] u"
    using receive_run.arrives [OF receive_run.arrives [OF receive_run.start _ n(1)] _ n(2)]
      example_data_packet [OF example_carries(1)] example_data_packet [OF example_carries(2)] by simp
  from reassembled_in_order [OF len example_ready(1) this] show ?thesis
    unfolding Let_def using n by auto
qed

text \<open>C8. The receiver makes progress: a segment with the next expected byte of the stream that fits into the
  receive buffer is taken as a whole by an established socket with nothing to send, without a fault.
  Together with it the segments that were saved ahead of it are taken: the new expected position is the
  first one behind the segment that none of the saved segments holds, and the stream up to that
  position is at once there to be read.\<close>

theorem next_segment_delivered:
  assumes "length st < 0x7FFFFFFF" and "receive_ready st k s" and "receive_run env st s got t"
    and "idle t" and "acceptable t seg" and "carries st n seg" and "rcv_nxt t = of_nat n"
    and "unat (seg_len seg) \<le> pseudo_tcp_fifo_get_write_remaining (rbuf t)"
  shows "\<exists>t' m. process env t seg = Some (True, t') \<and> rcv_nxt t' = of_nat m \<and>
    first_missing (rlist t) (n + unat (seg_len seg)) m \<and> m \<le> length st \<and> got @ fifo_data (rbuf t') = drop k (take m st)"
proof -
  have "receiving st k got t"
    using receive_run_receiving [OF assms(3,1) receive_ready_receiving [OF assms(2)]] .
  then obtain t' m where t': "process env t seg = Some (True, t')" "receiving st k got t'"
    and m: "rcv_nxt t' = of_nat m" "first_missing (rlist t) (n + unat (seg_len seg)) m" "m \<le> length st"
    using process_idle [OF assms(1) _ assms(6,4,5)] assms(7,8) by (fastforce simp: segment_taken_def)
  obtain m' where m': "rcv_nxt t' = of_nat m'" "m' \<le> length st" "got @ fifo_data (rbuf t') = drop k (take m' st)"
    using t'(2) by (auto simp: receiving_def)
  have "m' = m" using m(1,3) m'(1,2) of_nat_eq_pos [of m' m] assms(1) by simp
  then show ?thesis using t'(1) m m'(3) by blast
qed

text \<open>The second half of the stream is saved first; with the first half all of it is delivered.\<close>

theorem next_segment_delivered_witness:
  "let s = example_socket PSEUDO_TCP_ESTABLISHED []; p = example_packet 3 [4, 5, 6]
   in \<exists>t u. pseudo_tcp_socket_notify_packet example_env s p (length p) = Some (True, t) \<and>
     process example_env t (example_segment 0 [1, 2, 3]) = Some (True, u) \<and> rcv_nxt u = 6 \<and>
     fifo_data (rbuf u) = [1, 2, 3, 4, 5, 6]"
proof -
  let ?s = "example_socket PSEUDO_TCP_ESTABLISHED []" and ?g = "example_segment 0 [1, 2, 3]"
  have len: "length six < 0x7FFFFFFF" by simp
  note r = receive_ready_receiving [OF example_ready(1)]
  have free: "rcv_nxt ?s = of_nat 0" "6 \<le> pseudo_tcp_fifo_get_write_remaining (rbuf ?s)" "rlist ?s = []"
    by (simp_all add: example_simps pseudo_tcp_fifo_get_write_remaining_def)
  obtain t where t: "process example_env ?s (example_segment 3 [4, 5, 6]) = Some (True, t)" "sender_kept ?s t"
    "segment_taken six 0 3 (example_segment 3 [4, 5, 6]) ?s t"
    using process_idle [OF len r example_carries(1) example_ready(2,3)] free by (fastforce simp: example_segment_def)
  then have rl: "rlist t = [\<lparr>rs_seq = 3, rs_len = 3\<rparr>]" using free(3) by (simp add: segment_taken_def example_segment_def)
  have n: "pseudo_tcp_socket_notify_packet example_env ?s (example_packet 3 [4, 5, 6]) (length (example_packet 3 [4, 5, 6])) = Some (True, t)"
    using t(1) by (simp add: example_notified)
  then have run: "receive_run example_env six ?s [] t"
    using receive_run.arrives [OF receive_run.start] example_data_packet [OF example_carries(1)] by blast
  have "rcv_nxt t = of_nat 0" "unat (seg_len ?g) \<le> pseudo_tcp_fifo_get_write_remaining (rbuf t)"
    using t(3) free(1,2) by (simp_all add: segment_taken_def example_segment_def)
  moreover have "acceptable t ?g" using sender_kept_acceptable [OF t(2)] example_ready(3) [of "[1, 2, 3]" 0] by simp
  ultimately obtain u m where u: "process example_env t ?g = Some (True, u)" "rcv_nxt u = of_nat m"
    "first_missing (rlist t) (0 + unat (seg_len ?g)) m" "m \<le> 6" "fifo_data (rbuf u) = take m six"
    using next_segment_delivered [OF len example_ready(1) run sender_kept_idle [OF t(2) example_ready(2)] _ example_carries(2)]
    by auto
  have "m = 6"
  proof (rule ccontr)
    assume "m \<noteq> 6"
    then show False using u(3,4) by (auto simp: rl first_missing_def example_segment_def)
  qed
  with n u show ?thesis unfolding Let_def by auto
qed

end
