(* ===== verification/Spec2Isabelle.thy ===== *)
theory Spec2Isabelle
  imports Stun_Message_Props Stun_Agent_Auth Stun_Agent_Seal Stun_Timer Stun_Turn Nice_Candidate Pseudo_Tcp_Stream
begin

text \<open>
  A verification development of libnice, the ICE library under \<^verbatim>\<open>src/libnice\<close>.

  \<^bold>\<open>The program.\<close>  The library finds a path between two hosts behind address translators and carries
  data over it.  Its parts, from the bottom: STUN messages (\<^verbatim>\<open>stun/stunmessage.c\<close>, \<^verbatim>\<open>utils.c\<close>); checksum,
  credentials and the SOFTWARE attribute (\<^verbatim>\<open>stuncrc32.c\<close>, \<^verbatim>\<open>stunhmac.c\<close>, \<^verbatim>\<open>stun5389.c\<close>); the STUN
  agent that seals and validates messages and remembers the requests it sent (\<^verbatim>\<open>stunagent.c\<close>); the
  usages on top of it, for connectivity checks, TURN allocations, bindings and retransmission
  (\<^verbatim>\<open>usages/ice.c\<close>, \<^verbatim>\<open>turn.c\<close>, \<^verbatim>\<open>bind.c\<close>, \<^verbatim>\<open>timer.c\<close>); addresses and candidates with their
  priorities (\<^verbatim>\<open>agent/address.c\<close>, \<^verbatim>\<open>candidate.c\<close>); and a TCP over datagrams for reliable streams
  (\<^verbatim>\<open>agent/pseudotcp.c\<close>).  The ICE agent (\<^verbatim>\<open>agent/agent.c\<close>, \<^verbatim>\<open>conncheck.c\<close>) drives them from the GLib
  main loop.

  \<^bold>\<open>How the code is modelled.\<close>  Every C function is one function of the same name; its pieces have
  names of their own where the function is long.  Machine integers are words of their width.  A
  byte object is a list of bytes, and a read or write outside it, a failed assertion, a shift by
  the width or more and the read of an unassigned variable are the value \<open>None\<close> of the option type.
  Pointers that may be null are of the type \<open>ptr\<close>.  Structures are records that are passed on and
  returned updated.  What is not code of the library is an argument: HMAC-SHA1, MD5 and the name of
  the package in the record \<open>StunEnv\<close> (the hypothesis \<open>wf_env\<close> states the lengths of the digests), the
  clock, the allocator and the network in \<open>PseudoTcpEnv\<close>, the random transaction identifiers,
  \<open>inet_ntop\<close>, \<open>getaddrinfo\<close> and the list of local addresses.

  \<^bold>\<open>The theories.\<close>
  \<^item> \<open>Nice_Prelude\<close>: types, memory access, big-endian numbers and the lemmas about them.
  \<^item> \<open>Stun_Types\<close>, \<open>Stun_Utils\<close>, \<open>Stun_Message\<close>: constants, enumerations with their codes, and every
    operation of \<^verbatim>\<open>utils.c\<close> and \<^verbatim>\<open>stunmessage.c\<close>.
  \<^item> \<open>Stun_Attr_Spec\<close>, \<open>Stun_Append_Spec\<close>, \<open>Stun_Typed_Attr\<close>, \<open>Stun_Header_Spec\<close>: the abstract view of a
    message, the list of its attributes (\<open>msg_attrs\<close>), with the lookup \<open>find_attr\<close>; the operations on
    bytes refine lookup in and extension of that list.  The locale \<open>typed_attr\<close> is the contract of a
    pair of an append and a find operation, interpreted for six pairs.
  \<^item> \<open>Stun_Message_Props\<close>: the check of received buffers accepts exactly the buffers of the grammar,
    also where they come in pieces; searches of accepted buffers stay inside; what is appended is
    read back; where appends overrun the buffer and where they cannot.
  \<^item> \<open>Stun_Crc32\<close>, \<open>Stun_Hmac\<close>, \<open>Stun_5389\<close>: the table-driven checksum is the bitwise one; the input of
    the digests.
  \<^item> \<open>Stun_Agent\<close>: every operation of \<^verbatim>\<open>stunagent.c\<close>.  \<open>Stun_Agent_Table\<close>: in every run of an agent
    the table is the multiset of the requests sent and not completed; \<open>Stun_Agent_Auth\<close>: what a validated request is known to carry;
    \<open>Stun_Attr_Walk\<close>, \<open>Stun_Agent_Seal\<close>: unknown attributes, and that a sealed request is accepted by a
    peer with the same password.
  \<^item> \<open>Stun_Timer\<close>: the schedule of retransmissions and its bounds.
  \<^item> \<open>Stun_Build\<close>: the effect of a chain of appends on the abstract view.  \<open>Stun_Ice\<close>, \<open>Stun_Ice_Props\<close>:
    connectivity checks between two peers, with the resolution of role conflicts and the address
    that travels back.  \<open>Stun_Turn\<close>: bindings and TURN; the answer to the challenge of a server.
  \<^item> \<open>Nice_Address\<close>, \<open>Nice_Candidate\<close>: addresses with the private ranges; the order of candidate pairs is
    the same on both sides; equal priorities only for candidates that agree in all components; the
    exact priority of a pair, and exactly when the computation of a priority aborts.
  \<^item> \<open>Pseudo_Tcp_Time\<close>, \<open>Pseudo_Tcp_Fifo\<close>, \<open>Pseudo_Tcp_Send\<close>, \<open>Pseudo_Tcp\<close>: all of \<^verbatim>\<open>pseudotcp.c\<close>.  The
    locale \<open>byte_queue\<close> is the contract of the ring buffer, \<open>window_queue\<close> (in \<open>Pseudo_Tcp_Window\<close>) extends it by
    writing ahead; both are interpreted on the ring buffer.
  \<^item> \<open>Pseudo_Tcp_Wire\<close>: a packet is parsed to the segment it was made from.  \<open>Pseudo_Tcp_Frame\<close>: which
    operations leave which part of the socket alone.  \<open>Pseudo_Tcp_Close\<close>: the closing handshake.
    \<open>Pseudo_Tcp_Stream\<close>: the receiver delivers a prefix of the stream for every order, loss and
    repetition of packets, and takes the next segment when it arrives, together with the saved
    segments up to the first gap.

  \<^bold>\<open>Bounds.\<close>  Loops over a buffer or a list are total functions by a measure on what is left.
  \<open>attempt_send_loop\<close> has no bound in the code and is a partial function in the option type, so that
  a call that does not return is a fault; \<open>next_segment_delivered\<close> shows that it returns where the
  sender is idle.  The stream of the receiver theorems is shorter than \<open>2 ^ 31 - 1\<close>, half of the space of
  sequence numbers, which is where their comparison stops being an order; segments with a
  FIN are excluded there, since the handling of FIN is shown to be wrong after a repeated segment, and so are
  sockets without FIN-ACK support, which drop data after a shutdown.
  Buffers of messages are shorter than 65536 bytes, the range of the length field.  The order of
  pairs is that of the specification for priorities below \<open>2 ^ 31\<close>, which all local ones are; above it
  the code wraps around.  The theorems about exchanges between two agents leave out the
  compatibility mode OC2007, in which the codes of two attributes are swapped.

  \<^bold>\<open>Simplifications.\<close>  Sizes of objects are natural numbers; a difference of sizes that would wrap around in
  C outside of the contract of a function (a ring buffer with more data than room, pieces shorter
  than what is skipped) is zero.  The strings from which the long-term key is made begin at
  their attribute, so that a read in front of the attribute is a fault although it stays inside the message.  One
  reading of the clock serves a whole call of \<open>stun_timer_refresh\<close>.  An entry of the table of requests is
  only written at an index that a search has found.

  \<^bold>\<open>Not modelled.\<close>  The ICE agent apart from the priority of a pair, the engine of connectivity checks,
  streams, components and discovery: they consist of GLib objects, timers, signals, locks and
  sockets, and what they compute they compute with the operations above.  The sockets, the GIO and
  GStreamer adapters, the Java bindings, the tools and the blocking \<open>stun_usage_bind_run\<close>: input and
  output.  The debug output and the release of memory.  The callbacks of the pseudo-TCP socket are
  recorded and taken not to call back into the socket.
\<close>

end
